theory Spec2Isabelle
  imports
    Main
    "HOL-Library.Char_ord"
    "HOL-Library.List_Lexorder"
    "HOL-Library.Product_Lexorder"
    "HOL-Library.AList"
begin

chapter \<open>Validation-report diffing of dandisets-linkml-status-tools\<close>

text \<open>
  A shallow embedding of the report diffing code of
  \<^verbatim>\<open>dandisets_linkml_status_tools/cmd_funcs/diff_manifests_reports.py\<close>, of
  \<^verbatim>\<open>pydantic_validate\<close> (\<^verbatim>\<open>tools.py\<close> and \<^verbatim>\<open>cli/tools.py\<close>) and of the report writer
  \<^verbatim>\<open>output_reports\<close> (\<^verbatim>\<open>cli/tools.py\<close>).  Python exceptions are values of a sum type,
  dictionaries are association lists, \<^verbatim>\<open>pathlib\<close> paths are the tuples of their parts, and the
  file system is an explicit state.
\<close>

section \<open>Python values\<close>

subsection \<open>Exceptions\<close>

text \<open>
  The exception classes the modelled code raises or lets through.  The string is the
  message, or for \<open>AttributeError\<close> the name of the missing attribute.  \<open>Raised\<close> stands
  for an exception of any other class coming out of an external library.
\<close>

datatype py_error =
    RuntimeError string
  | ValueError string
  | TypeError string
  | AttributeError string
  | FileNotFoundError
  | FileExistsError
  | NotADirectoryError
  | IsADirectoryError
  | Raised string

subsection \<open>JSON-like data\<close>

text \<open>
  What \<^verbatim>\<open>model_dump(mode="json")\<close> and \<^verbatim>\<open>jsondiff.diff(..., marshal=True)\<close> produce: nested
  lists and dictionaries over scalars.  Dictionary keys are values too: a list diff of
  \<^verbatim>\<open>jsondiff\<close> is keyed by positions.
\<close>

datatype json =
    JNull
  | JBool bool
  | JInt int
  | JStr string
  | JList "json list"
  | JDict "(json \<times> json) list"

text \<open>Python truth value testing, as \<^verbatim>\<open>if data:\<close> applies it.\<close>

fun truthy :: "json \<Rightarrow> bool" where
  "truthy JNull = False"
| "truthy (JBool b) = b"
| "truthy (JInt n) = (n \<noteq> 0)"
| "truthy (JStr s) = (s \<noteq> [])"
| "truthy (JList xs) = (xs \<noteq> [])"
| "truthy (JDict kvs) = (kvs \<noteq> [])"

subsection \<open>Integers as decimal strings\<close>

text \<open>\<^verbatim>\<open>str(n)\<close> for a Python \<^verbatim>\<open>int\<close>: decimal digits, most significant first, \<^verbatim>\<open>-\<close> in front
  of a negative number.\<close>

definition digit_char :: "nat \<Rightarrow> char" where
  "digit_char d = ''0123456789'' ! d"

function str_nat :: "nat \<Rightarrow> string" where
  "str_nat n = (if n < 10 then [digit_char n] else str_nat (n div 10) @ [digit_char (n mod 10)])"
  by pat_completeness auto
termination
  by (relation "measure id") auto

declare str_nat.simps [simp del]

definition str_int :: "int \<Rightarrow> string" where
  "str_int i = (if i < 0 then CHR ''-'' # str_nat (nat (- i)) else str_nat (nat i))"

text \<open>
  \<^verbatim>\<open>int(s)\<close> on the strings that reach it in the modelled code, which are outputs of
  \<^verbatim>\<open>str\<close>: an optional sign and decimal digits; anything else is a \<^verbatim>\<open>ValueError\<close>.
\<close>

definition digit_val :: "char \<Rightarrow> nat option" where
  "digit_val c = map_of (zip ''0123456789'' [0 ..< 10]) c"

fun digits_val :: "nat \<Rightarrow> string \<Rightarrow> nat option" where
  "digits_val acc [] = Some acc"
| "digits_val acc (c # cs) =
     (case digit_val c of None \<Rightarrow> None | Some d \<Rightarrow> digits_val (10 * acc + d) cs)"

definition py_int :: "string \<Rightarrow> py_error + int" where
  "py_int s =
     (case s of
        [] \<Rightarrow> Inl (ValueError ''invalid literal for int()'')
      | c # cs \<Rightarrow>
          if c = CHR ''-'' \<or> c = CHR ''+'' then
            (if cs = [] then Inl (ValueError ''invalid literal for int()'')
             else case digits_val 0 cs of
                    None \<Rightarrow> Inl (ValueError ''invalid literal for int()'')
                  | Some n \<Rightarrow> Inr (if c = CHR ''-'' then - int n else int n))
          else
            (case digits_val 0 s of
               None \<Rightarrow> Inl (ValueError ''invalid literal for int()'')
             | Some n \<Rightarrow> Inr (int n)))"

section \<open>Paths\<close>

text \<open>
  A \<^verbatim>\<open>pathlib.Path\<close> on a POSIX system is modelled by its \<^verbatim>\<open>parts\<close>: the root (\<^verbatim>\<open>/\<close> or
  \<^verbatim>\<open>//\<close>) when there is one, then the components.  Two paths are equal, and hash alike, exactly
  when their parts are equal.
\<close>

type_synonym path = "string list"

text \<open>One round of the loop of \<^verbatim>\<open>posixpath.join\<close>: an absolute segment replaces what came
  before, otherwise the segment is appended after a separator.\<close>

definition startswith_sep :: "string \<Rightarrow> bool" where
  "startswith_sep b = (case b of [] \<Rightarrow> False | c # _ \<Rightarrow> c = CHR ''/'')"

definition posix_join2 :: "string \<Rightarrow> string \<Rightarrow> string" where
  "posix_join2 p b =
     (if startswith_sep b then b
      else if p = [] \<or> last p = CHR ''/'' then p @ b
      else p @ ''/'' @ b)"

definition posix_join :: "string list \<Rightarrow> string" where
  "posix_join segs = (case segs of [] \<Rightarrow> [] | a # p \<Rightarrow> foldl posix_join2 a p)"

text \<open>\<^verbatim>\<open>s.split("/")\<close>: the pieces between separators, empty pieces included.\<close>

fun str_split :: "string \<Rightarrow> string list" where
  "str_split [] = [[]]"
| "str_split (c # cs) =
     (if c = CHR ''/'' then [] # str_split cs
      else (case str_split cs of [] \<Rightarrow> [[c]] | w # ws \<Rightarrow> (c # w) # ws))"

text \<open>\<^verbatim>\<open>posixpath.splitroot\<close> without the drive, which is always empty: two leading slashes
  are a root of their own, one or three and more are the root \<^verbatim>\<open>/\<close>.\<close>

definition splitroot :: "string \<Rightarrow> string \<times> string" where
  "splitroot p =
     (if take 1 p \<noteq> ''/'' then ([], p)
      else if take 1 (drop 1 p) \<noteq> ''/'' \<or> take 1 (drop 2 p) = ''/'' then (''/'', drop 1 p)
      else (take 2 p, drop 2 p))"

text \<open>The parts of a path string: empty components and \<^verbatim>\<open>.\<close> are dropped.\<close>

definition parse_path :: "string \<Rightarrow> path" where
  "parse_path s =
     (let (root, rel) = splitroot s;
          tail = filter (\<lambda>x. x \<noteq> [] \<and> x \<noteq> ''.'') (str_split rel)
      in if root \<noteq> [] then root # tail else tail)"

text \<open>\<^verbatim>\<open>Path(*segs)\<close>: the segments are joined, the result is parsed.\<close>

definition Path :: "string list \<Rightarrow> path" where
  "Path segs = parse_path (posix_join segs)"

text \<open>\<^verbatim>\<open>str(p)\<close>: root and components joined by the separator, \<^verbatim>\<open>.\<close> for the empty path.\<close>

fun join_sep :: "string list \<Rightarrow> string" where
  "join_sep [] = []"
| "join_sep [x] = x"
| "join_sep (x # y # ys) = x @ ''/'' @ join_sep (y # ys)"

definition path_str :: "path \<Rightarrow> string" where
  "path_str p =
     (case p of
        [] \<Rightarrow> ''.''
      | r # tail \<Rightarrow> if r = ''/'' \<or> r = ''//'' then r @ join_sep tail else join_sep p)"

text \<open>
  \<^verbatim>\<open>p / key\<close>: an absolute key replaces \<open>p\<close>, otherwise the parts of the key follow the
  parts of \<open>p\<close>.
\<close>

definition truediv :: "path \<Rightarrow> string \<Rightarrow> path" where
  "truediv p key = (if startswith_sep key then parse_path key else p @ parse_path key)"

text \<open>\<^verbatim>\<open>p.parent\<close>: the path without its last component; a root and the empty path are
  their own parents.\<close>

definition parent :: "path \<Rightarrow> path" where
  "parent p = (if p = [] \<or> p = [''/''] \<or> p = [''//''] then p else butlast p)"

text \<open>
  The comparison key of \<^verbatim>\<open>PurePath.__lt__\<close> (CPython 3.12 and later): the string of the path,
  split at the separator.  The lists are compared as Python compares lists of strings,
  lexicographically with code point order on characters.
\<close>

definition parts_normcase :: "path \<Rightarrow> string list" where
  "parts_normcase p = str_split (path_str p)"

text \<open>A segment that names one directory entry: not empty, without separator, not \<^verbatim>\<open>.\<close>.\<close>

definition clean_segment :: "string \<Rightarrow> bool" where
  "clean_segment s = (s \<noteq> [] \<and> CHR ''/'' \<notin> set s \<and> s \<noteq> ''.'')"

section \<open>Validation errors and reports\<close>

subsection \<open>Error records\<close>

text \<open>A segment of an error location: a key (\<^verbatim>\<open>str\<close>) or an array index (\<^verbatim>\<open>int\<close>).\<close>

datatype seg = IntSeg int | StrSeg string

text \<open>\<^verbatim>\<open>isinstance(v, int)\<close> on a segment.\<close>

fun isinstance_int :: "seg \<Rightarrow> bool" where
  "isinstance_int (IntSeg _) = True"
| "isinstance_int (StrSeg _) = False"

text \<open>
  A Pydantic validation error is a dictionary; the code reads its keys \<^verbatim>\<open>type\<close>,
  \<^verbatim>\<open>msg\<close> and \<^verbatim>\<open>loc\<close>, which every error of Pydantic has.
\<close>

record pydantic_err =
  err_type :: string
  msg :: string
  loc :: "seg list"

text \<open>\<^verbatim>\<open>JsonschemaValidationErrorModel\<close> (declared in \<^verbatim>\<open>models\<close>): the fields the code reads.\<close>

record jsonschema_err =
  message :: string
  absolute_path :: "seg list"
  absolute_schema_path :: "seg list"

subsection \<open>Validation reports\<close>

text \<open>
  \<^verbatim>\<open>DandiBaseReport\<close>, \<^verbatim>\<open>DandisetValidationReport\<close> and \<^verbatim>\<open>AssetValidationReport\<close> are
  declared in \<^verbatim>\<open>models\<close>; their fields are the attributes the diffing code reads.
\<close>

record dandi_base_report =
  dandiset_identifier :: string
  dandiset_version :: string

record validation_report = dandi_base_report +
  pydantic_validation_errs :: "pydantic_err list"
  jsonschema_validation_errs :: "jsonschema_err list"

record asset_validation_report = validation_report +
  asset_id :: "string option"
  asset_path :: "string option"
  asset_idx :: int

text \<open>
  An element of a \<^verbatim>\<open>ValidationReportsType\<close> collection as \<^verbatim>\<open>isinstance\<close> sees it.
  \<open>OtherObject\<close> is an object of any other class, with none of the report attributes.
\<close>

datatype report =
    DandisetValidationReport validation_report
  | AssetValidationReport asset_validation_report
  | OtherObject

subsection \<open>Diff reports\<close>

text \<open>
  \<^verbatim>\<open>_DandiValidationDiffReport\<close> and its two subclasses.  The asset fields of
  \<^verbatim>\<open>_AssetValidationDiffReport\<close> carry the prefix \<open>diff_\<close>, since a field name belongs to
  one record.
\<close>

record dandi_validation_diff_report = dandi_base_report +
  pydantic_validation_errs1 :: "pydantic_err list"
  pydantic_validation_errs2 :: "pydantic_err list"
  pydantic_validation_errs_diff :: json
  jsonschema_validation_errs1 :: "jsonschema_err list"
  jsonschema_validation_errs2 :: "jsonschema_err list"
  jsonschema_validation_errs_diff :: json

record asset_validation_diff_report = dandi_validation_diff_report +
  diff_asset_id :: "string option"
  diff_asset_path :: "string option"
  diff_asset_idx :: int

datatype diff_report =
    DandisetValidationDiffReport dandi_validation_diff_report
  | AssetValidationDiffReport asset_validation_diff_report
  | OtherDiffObject

subsection \<open>External libraries\<close>

text \<open>
  What the diffing code calls and does not define: \<^verbatim>\<open>jsondiff.diff(a, b, marshal=True)\<close> on
  two lists of Pydantic error dictionaries and on two lists of dumped JSON schema errors,
  and \<^verbatim>\<open>model_dump(mode="json")\<close> of a JSON schema error.
\<close>

record externals =
  diff_pydantic :: "pydantic_err list \<Rightarrow> pydantic_err list \<Rightarrow> json"
  model_dump :: "jsonschema_err \<Rightarrow> json"
  diff_dumped :: "json list \<Rightarrow> json list \<Rightarrow> json"

subsection \<open>Dictionaries\<close>

text \<open>
  A \<^verbatim>\<open>dict\<close> is an association list in insertion order.  Storing under a key that is
  present replaces the value and keeps the position, as Python does.
\<close>

type_synonym ('k, 'v) dict = "('k \<times> 'v) list"

definition dict_get :: "('k, 'v) dict \<Rightarrow> 'k \<Rightarrow> 'v option" where
  "dict_get d k = map_of d k"

definition dict_set :: "('k, 'v) dict \<Rightarrow> 'k \<Rightarrow> 'v \<Rightarrow> ('k, 'v) dict" where
  "dict_set d k v = AList.update k v d"

definition dict_keys :: "('k, 'v) dict \<Rightarrow> 'k list" where
  "dict_keys d = map fst d"

section \<open>Keying a collection of reports\<close>

text \<open>\<^verbatim>\<open>str(getattr(r, p))\<close> for the attributes \<^verbatim>\<open>_key_reports\<close> asks for.\<close>

fun getattr_str :: "report \<Rightarrow> string \<Rightarrow> py_error + string" where
  "getattr_str (DandisetValidationReport r) p =
     (if p = ''dandiset_identifier'' then Inr (dandiset_identifier r)
      else if p = ''dandiset_version'' then Inr (dandiset_version r)
      else Inl (AttributeError p))"
| "getattr_str (AssetValidationReport r) p =
     (if p = ''dandiset_identifier'' then Inr (dandiset_identifier r)
      else if p = ''dandiset_version'' then Inr (dandiset_version r)
      else if p = ''asset_idx'' then Inr (str_int (asset_idx r))
      else Inl (AttributeError p))"
| "getattr_str OtherObject p = Inl (AttributeError p)"

text \<open>The generator \<^verbatim>\<open>(str(getattr(r, p)) for p in parts)\<close>, consumed left to right.\<close>

fun getattrs_str :: "report \<Rightarrow> string list \<Rightarrow> py_error + string list" where
  "getattrs_str r [] = Inr []"
| "getattrs_str r (p # ps) =
     (case getattr_str r p of
        Inl e \<Rightarrow> Inl e
      | Inr s \<Rightarrow> (case getattrs_str r ps of Inl e \<Rightarrow> Inl e | Inr ss \<Rightarrow> Inr (s # ss)))"

definition key_path :: "string list \<Rightarrow> report \<Rightarrow> py_error + path" where
  "key_path parts r = (case getattrs_str r parts of Inl e \<Rightarrow> Inl e | Inr ss \<Rightarrow> Inr (Path ss))"

text \<open>The dictionary comprehension \<^verbatim>\<open>{Path(...): r for r in reports}\<close>.\<close>

fun key_reports_comp ::
  "string list \<Rightarrow> report list \<Rightarrow> (path, report) dict \<Rightarrow> py_error + (path, report) dict" where
  "key_reports_comp parts [] d = Inr d"
| "key_reports_comp parts (r # rs) d =
     (case key_path parts r of
        Inl e \<Rightarrow> Inl e
      | Inr k \<Rightarrow> key_reports_comp parts rs (dict_set d k r))"

text \<open>\<^verbatim>\<open>_key_reports\<close>: the first report decides the attributes that make the key.\<close>

definition key_reports :: "report list \<Rightarrow> py_error + (path, report) dict" where
  "key_reports reports =
     (case reports of
        [] \<Rightarrow> Inr []
      | r0 # _ \<Rightarrow>
          (case r0 of
             DandisetValidationReport _ \<Rightarrow>
               key_reports_comp [''dandiset_identifier'', ''dandiset_version''] reports []
           | AssetValidationReport _ \<Rightarrow>
               key_reports_comp [''dandiset_identifier'', ''dandiset_version'', ''asset_idx'']
                 reports []
           | OtherObject \<Rightarrow> Inl (ValueError ''Unsupported report type'')))"

section \<open>Building the diff reports\<close>

text \<open>
  The two assignments \<^verbatim>\<open>pydantic_errs = r.pydantic_validation_errs\<close> and
  \<^verbatim>\<open>jsonschema_errs = r.jsonschema_validation_errs\<close> when a report was found, the two empty
  lists when it was not.
\<close>

definition errs_or_empty ::
  "'a validation_report_scheme option \<Rightarrow> pydantic_err list \<times> jsonschema_err list" where
  "errs_or_empty r =
     (case r of
        Some x \<Rightarrow> (pydantic_validation_errs x, jsonschema_validation_errs x)
      | None \<Rightarrow> ([], []))"

text \<open>\<^verbatim>\<open>any((pydantic_errs1, pydantic_errs2, jsonschema_errs1, jsonschema_errs2))\<close>: a list is
  true when it is not empty.\<close>

definition any_errs ::
  "pydantic_err list \<Rightarrow> pydantic_err list \<Rightarrow> jsonschema_err list \<Rightarrow> jsonschema_err list \<Rightarrow> bool" where
  "any_errs p1 p2 j1 j2 = (p1 \<noteq> [] \<or> p2 \<noteq> [] \<or> j1 \<noteq> [] \<or> j2 \<noteq> [])"

subsection \<open>Dandiset level\<close>

text \<open>\<^verbatim>\<open>DandisetValidationReportsType\<close>: reports by dandiset identifier, then by version.\<close>

type_synonym dandiset_validation_reports = "(string, (string, validation_report) dict) dict"

text \<open>\<^verbatim>\<open>reports.get(id_, {}).get(ver, None)\<close>.\<close>

definition get_report ::
  "dandiset_validation_reports \<Rightarrow> string \<times> string \<Rightarrow> validation_report option" where
  "get_report reports e =
     dict_get (case dict_get reports (fst e) of None \<Rightarrow> [] | Some vers \<Rightarrow> vers) (snd e)"

text \<open>
  Modelled from the spec: \<^verbatim>\<open>get_validation_reports_entries\<close> of the package \<^verbatim>\<open>tools\<close>, whose
  file is not among the sources.  It gives the entity keys of a collection, the pairs of
  a dandiset identifier and a version that have a report.  The Python set is the list of
  its elements.
\<close>

definition get_validation_reports_entries ::
  "dandiset_validation_reports \<Rightarrow> (string \<times> string) list" where
  "get_validation_reports_entries reports =
     concat (map (\<lambda>(id, vers). map (\<lambda>ver. (id, ver)) (dict_keys vers)) reports)"

text \<open>The body of the loop for one entry: \<open>None\<close> is \<^verbatim>\<open>continue\<close>.\<close>

definition dandiset_entry_diff ::
  "externals \<Rightarrow> dandiset_validation_reports \<Rightarrow> dandiset_validation_reports \<Rightarrow>
   string \<times> string \<Rightarrow> dandi_validation_diff_report option" where
  "dandiset_entry_diff ext reports1 reports2 e =
     (let r1 = get_report reports1 e;
          r2 = get_report reports2 e;
          (pydantic_errs1, jsonschema_errs1) = errs_or_empty r1;
          (pydantic_errs2, jsonschema_errs2) = errs_or_empty r2
      in if \<not> any_errs pydantic_errs1 pydantic_errs2 jsonschema_errs1 jsonschema_errs2 then None
         else Some
           \<lparr> dandiset_identifier = fst e,
             dandiset_version = snd e,
             pydantic_validation_errs1 = pydantic_errs1,
             pydantic_validation_errs2 = pydantic_errs2,
             pydantic_validation_errs_diff = diff_pydantic ext pydantic_errs1 pydantic_errs2,
             jsonschema_validation_errs1 = jsonschema_errs1,
             jsonschema_validation_errs2 = jsonschema_errs2,
             jsonschema_validation_errs_diff =
               diff_dumped ext (map (model_dump ext) jsonschema_errs1)
                 (map (model_dump ext) jsonschema_errs2) \<rparr>)"

fun dandiset_diff_loop ::
  "externals \<Rightarrow> dandiset_validation_reports \<Rightarrow> dandiset_validation_reports \<Rightarrow>
   (string \<times> string) list \<Rightarrow> dandi_validation_diff_report list \<Rightarrow>
   dandi_validation_diff_report list" where
  "dandiset_diff_loop ext reports1 reports2 [] rs = rs"
| "dandiset_diff_loop ext reports1 reports2 (e # es) rs =
     (case dandiset_entry_diff ext reports1 reports2 e of
        None \<Rightarrow> dandiset_diff_loop ext reports1 reports2 es rs
      | Some r \<Rightarrow> dandiset_diff_loop ext reports1 reports2 es (rs @ [r]))"

text \<open>
  \<^verbatim>\<open>_dandiset_validation_diff_reports\<close>.  The helper that lists the entries of a collection
  is a parameter, \<open>entries_of\<close>.  \<^verbatim>\<open>sorted\<close> of the union of the two sets is the ascending
  list of the distinct entries; tuples of strings compare lexicographically.
\<close>

definition dandiset_validation_diff_reports ::
  "externals \<Rightarrow> (dandiset_validation_reports \<Rightarrow> (string \<times> string) list) \<Rightarrow>
   dandiset_validation_reports \<Rightarrow> dandiset_validation_reports \<Rightarrow>
   dandi_validation_diff_report list" where
  "dandiset_validation_diff_reports ext entries_of reports1 reports2 =
     (let entries = sort (remdups (entries_of reports1 @ entries_of reports2))
      in dandiset_diff_loop ext reports1 reports2 entries [])"

subsection \<open>Asset level\<close>

text \<open>Reading \<^verbatim>\<open>r.pydantic_validation_errs\<close> and \<^verbatim>\<open>r.jsonschema_validation_errs\<close> off a keyed
  report, or taking the empty lists when \<^verbatim>\<open>r is None\<close>.\<close>

definition report_errs ::
  "report option \<Rightarrow> py_error + (pydantic_err list \<times> jsonschema_err list)" where
  "report_errs r =
     (case r of
        None \<Rightarrow> Inr ([], [])
      | Some (DandisetValidationReport x) \<Rightarrow> Inr (errs_or_empty (Some x))
      | Some (AssetValidationReport x) \<Rightarrow> Inr (errs_or_empty (Some x))
      | Some OtherObject \<Rightarrow> Inl (AttributeError ''pydantic_validation_errs''))"

text \<open>\<^verbatim>\<open>r.asset_id\<close> and \<^verbatim>\<open>r.asset_path\<close>, where \<^verbatim>\<open>r\<close> may be \<^verbatim>\<open>None\<close>.\<close>

definition report_asset_id :: "report option \<Rightarrow> py_error + string option" where
  "report_asset_id r =
     (case r of
        Some (AssetValidationReport x) \<Rightarrow> Inr (asset_id x)
      | _ \<Rightarrow> Inl (AttributeError ''asset_id''))"

definition report_asset_path :: "report option \<Rightarrow> py_error + string option" where
  "report_asset_path r =
     (case r of
        Some (AssetValidationReport x) \<Rightarrow> Inr (asset_path x)
      | _ \<Rightarrow> Inl (AttributeError ''asset_path''))"

text \<open>The body of the loop for one entry: \<open>Inr None\<close> is \<^verbatim>\<open>continue\<close>.\<close>

definition asset_entry_diff ::
  "externals \<Rightarrow> (path, report) dict \<Rightarrow> (path, report) dict \<Rightarrow> path \<Rightarrow>
   py_error + asset_validation_diff_report option" where
  "asset_entry_diff ext rs1 rs2 entry =
     (let r1 = dict_get rs1 entry;
          r2 = dict_get rs2 entry
      in
      (case report_errs r1 of Inl e \<Rightarrow> Inl e | Inr (pydantic_errs1, jsonschema_errs1) \<Rightarrow>
      (case report_errs r2 of Inl e \<Rightarrow> Inl e | Inr (pydantic_errs2, jsonschema_errs2) \<Rightarrow>
      (if \<not> any_errs pydantic_errs1 pydantic_errs2 jsonschema_errs1 jsonschema_errs2
       then Inr None
       else
      (case report_asset_id (if r1 \<noteq> None then r1 else r2) of Inl e \<Rightarrow> Inl e | Inr aid \<Rightarrow>
      (case report_asset_path (if r1 \<noteq> None then r1 else r2) of Inl e \<Rightarrow> Inl e | Inr apath \<Rightarrow>
      (case entry of
         [dandiset_id, dandiset_ver, asset_idx_str] \<Rightarrow>
           (case py_int asset_idx_str of
              Inl e \<Rightarrow> Inl e
            | Inr idx \<Rightarrow> Inr (Some
                \<lparr> dandiset_identifier = dandiset_id,
                  dandiset_version = dandiset_ver,
                  pydantic_validation_errs1 = pydantic_errs1,
                  pydantic_validation_errs2 = pydantic_errs2,
                  pydantic_validation_errs_diff =
                    diff_pydantic ext pydantic_errs1 pydantic_errs2,
                  jsonschema_validation_errs1 = jsonschema_errs1,
                  jsonschema_validation_errs2 = jsonschema_errs2,
                  jsonschema_validation_errs_diff =
                    diff_dumped ext (map (model_dump ext) jsonschema_errs1)
                      (map (model_dump ext) jsonschema_errs2),
                  diff_asset_id = aid,
                  diff_asset_path = apath,
                  diff_asset_idx = idx \<rparr>))
       | _ \<Rightarrow>
           Inl (ValueError
             (if length entry < 3 then ''not enough values to unpack (expected 3)''
              else ''too many values to unpack (expected 3)'')))))))))"

fun asset_diff_loop ::
  "externals \<Rightarrow> (path, report) dict \<Rightarrow> (path, report) dict \<Rightarrow> path list \<Rightarrow>
   asset_validation_diff_report list \<Rightarrow> py_error + asset_validation_diff_report list" where
  "asset_diff_loop ext rs1 rs2 [] rs = Inr rs"
| "asset_diff_loop ext rs1 rs2 (entry # es) rs =
     (case asset_entry_diff ext rs1 rs2 entry of
        Inl e \<Rightarrow> Inl e
      | Inr None \<Rightarrow> asset_diff_loop ext rs1 rs2 es rs
      | Inr (Some r) \<Rightarrow> asset_diff_loop ext rs1 rs2 es (rs @ [r]))"

text \<open>
  \<^verbatim>\<open>_asset_validation_diff_reports\<close>.  \<^verbatim>\<open>sorted\<close> of the union of the two key views is the
  list of the distinct paths, ascending in the order of paths.
\<close>

definition asset_validation_diff_reports ::
  "externals \<Rightarrow> report list \<Rightarrow> report list \<Rightarrow> py_error + asset_validation_diff_report list" where
  "asset_validation_diff_reports ext reports1 reports2 =
     (case key_reports reports1 of Inl e \<Rightarrow> Inl e | Inr rs1 \<Rightarrow>
     (case key_reports reports2 of Inl e \<Rightarrow> Inl e | Inr rs2 \<Rightarrow>
        asset_diff_loop ext rs1 rs2
          (sort_key parts_normcase (remdups (dict_keys rs1 @ dict_keys rs2))) []))"

section \<open>Categorising and collecting errors\<close>

text \<open>\<^verbatim>\<open>PydanticValidationErrRep\<close> and \<^verbatim>\<open>JsonschemaValidationErrRep\<close>: an error with the path of
  the metadata instance it belongs to.\<close>

type_synonym pydantic_validation_err_rep = "string \<times> string \<times> seg list \<times> path"

type_synonym jsonschema_validation_err_rep = "jsonschema_err \<times> path"

text \<open>\<^verbatim>\<open>"[*]" if isinstance(v, int) else v\<close>.\<close>

definition wildcard :: "seg \<Rightarrow> seg" where
  "wildcard v = (if isinstance_int v then StrSeg ''[*]'' else v)"

definition pydantic_err_categorizer ::
  "pydantic_validation_err_rep \<Rightarrow> string \<times> string \<times> seg list" where
  "pydantic_err_categorizer err =
     (let type' = fst err;
          msg' = fst (snd err);
          categorized_loc = map wildcard (fst (snd (snd err)))
      in (type', msg', categorized_loc))"

definition jsonschema_err_categorizer ::
  "jsonschema_validation_err_rep \<Rightarrow> seg list \<times> seg list" where
  "jsonschema_err_categorizer err =
     (let err_model = fst err;
          categorized_absolute_path = map wildcard (absolute_path err_model)
      in (absolute_schema_path err_model, categorized_absolute_path))"

definition pydantic_err_rep :: "pydantic_err \<Rightarrow> path \<Rightarrow> pydantic_validation_err_rep" where
  "pydantic_err_rep err p = (err_type err, msg err, loc err, p)"

definition jsonschema_err_rep :: "jsonschema_err \<Rightarrow> path \<Rightarrow> jsonschema_validation_err_rep" where
  "jsonschema_err_rep err p = (err, p)"

text \<open>
  The two local functions \<^verbatim>\<open>instance_path\<close> of \<^verbatim>\<open>err_reps\<close>.  The first report \<open>r0\<close> chose
  the function, \<open>r\<close> is the report of the current round of the loop.
\<close>

definition instance_path :: "diff_report \<Rightarrow> diff_report \<Rightarrow> py_error + path" where
  "instance_path r0 r =
     (case r0 of
        DandisetValidationDiffReport _ \<Rightarrow>
          (case r of
             DandisetValidationDiffReport x \<Rightarrow>
               Inr (Path [dandiset_identifier x, dandiset_version x])
           | AssetValidationDiffReport x \<Rightarrow>
               Inr (Path [dandiset_identifier x, dandiset_version x])
           | OtherDiffObject \<Rightarrow> Inl (AttributeError ''dandiset_identifier''))
      | AssetValidationDiffReport _ \<Rightarrow>
          (case r of
             DandisetValidationDiffReport x \<Rightarrow> Inl (AttributeError ''asset_idx'')
           | AssetValidationDiffReport x \<Rightarrow>
               Inr (Path [dandiset_identifier x, dandiset_version x, str_int (diff_asset_idx x)])
           | OtherDiffObject \<Rightarrow> Inl (AttributeError ''dandiset_identifier''))
      | OtherDiffObject \<Rightarrow> Inl (TypeError ''Unsupported report type''))"

text \<open>The four lists of representations of one report, for the instance path \<open>p\<close>.\<close>

definition report_reps ::
  "'a dandi_validation_diff_report_scheme \<Rightarrow> path \<Rightarrow>
   pydantic_validation_err_rep list \<times> pydantic_validation_err_rep list \<times>
   jsonschema_validation_err_rep list \<times> jsonschema_validation_err_rep list" where
  "report_reps r p =
     (map (\<lambda>e. pydantic_err_rep e p) (pydantic_validation_errs1 r),
      map (\<lambda>e. pydantic_err_rep e p) (pydantic_validation_errs2 r),
      map (\<lambda>e. jsonschema_err_rep e p) (jsonschema_validation_errs1 r),
      map (\<lambda>e. jsonschema_err_rep e p) (jsonschema_validation_errs2 r))"

text \<open>The loop \<^verbatim>\<open>for r in rs\<close> of \<^verbatim>\<open>err_reps\<close>, appending to the four lists of lists.\<close>

fun err_reps_loop ::
  "diff_report \<Rightarrow> diff_report list \<Rightarrow>
   pydantic_validation_err_rep list list \<times> pydantic_validation_err_rep list list \<times>
   jsonschema_validation_err_rep list list \<times> jsonschema_validation_err_rep list list \<Rightarrow>
   py_error +
   pydantic_validation_err_rep list list \<times> pydantic_validation_err_rep list list \<times>
   jsonschema_validation_err_rep list list \<times> jsonschema_validation_err_rep list list" where
  "err_reps_loop r0 [] acc = Inr acc"
| "err_reps_loop r0 (r # rs) (p1, p2, j1, j2) =
     (case instance_path r0 r of
        Inl e \<Rightarrow> Inl e
      | Inr p \<Rightarrow>
          (case r of
             DandisetValidationDiffReport x \<Rightarrow>
               (case report_reps x p of (a, b, c, d) \<Rightarrow>
                  err_reps_loop r0 rs (p1 @ [a], p2 @ [b], j1 @ [c], j2 @ [d]))
           | AssetValidationDiffReport x \<Rightarrow>
               (case report_reps x p of (a, b, c, d) \<Rightarrow>
                  err_reps_loop r0 rs (p1 @ [a], p2 @ [b], j1 @ [c], j2 @ [d]))
           | OtherDiffObject \<Rightarrow> Inl (AttributeError ''pydantic_validation_errs1'')))"

text \<open>\<^verbatim>\<open>err_reps\<close>; \<^verbatim>\<open>chain.from_iterable\<close> concatenates.\<close>

definition err_reps ::
  "diff_report list \<Rightarrow>
   py_error +
   pydantic_validation_err_rep list \<times> pydantic_validation_err_rep list \<times>
   jsonschema_validation_err_rep list \<times> jsonschema_validation_err_rep list" where
  "err_reps rs =
     (case rs of
        [] \<Rightarrow> Inr ([], [], [], [])
      | r0 # _ \<Rightarrow>
          (if r0 = OtherDiffObject then Inl (TypeError ''Unsupported report type'')
           else
             (case err_reps_loop r0 rs ([], [], [], []) of
                Inl e \<Rightarrow> Inl e
              | Inr (p1, p2, j1, j2) \<Rightarrow> Inr (concat p1, concat p2, concat j1, concat j2))))"

section \<open>Validating against a Pydantic model\<close>

text \<open>
  What a validation method of a Pydantic model does with data: it returns, it raises
  \<^verbatim>\<open>ValidationError\<close> (given here by the string of its \<^verbatim>\<open>json()\<close>), or it raises something
  else.
\<close>

datatype validation_outcome =
    Validated
  | RaisesValidationError string
  | RaisesOther py_error

text \<open>A model class: its methods \<^verbatim>\<open>model_validate\<close> and \<^verbatim>\<open>model_validate_json\<close>.\<close>

record 'd base_model =
  model_validate :: "'d \<Rightarrow> validation_outcome"
  model_validate_json :: "string \<Rightarrow> validation_outcome"

text \<open>The data to validate: a JSON string or a dictionary.\<close>

datatype 'd metadata = JsonString string | Dictionary 'd

text \<open>The \<^verbatim>\<open>try\<close> statement shared by both functions.\<close>

definition errors_json :: "validation_outcome \<Rightarrow> py_error + string" where
  "errors_json outcome =
     (case outcome of
        RaisesValidationError j \<Rightarrow> Inr j
      | RaisesOther e \<Rightarrow> Inl e
      | Validated \<Rightarrow> Inr ''[]'')"

text \<open>\<^verbatim>\<open>validate_method(data)\<close>, where \<^verbatim>\<open>validate_method\<close> is \<^verbatim>\<open>model.model_validate_json\<close> for a
  string and \<^verbatim>\<open>model.model_validate\<close> otherwise.\<close>

definition validate_method :: "'d metadata \<Rightarrow> 'd base_model \<Rightarrow> validation_outcome" where
  "validate_method data model =
     (case data of
        JsonString s \<Rightarrow> model_validate_json model s
      | Dictionary d \<Rightarrow> model_validate model d)"

text \<open>\<^verbatim>\<open>pydantic_validate\<close> of \<^verbatim>\<open>tools.py\<close>.\<close>

definition pydantic_validate :: "'d metadata \<Rightarrow> 'd base_model \<Rightarrow> py_error + string" where
  "pydantic_validate data model = errors_json (validate_method data model)"

text \<open>\<^verbatim>\<open>pydantic_validate\<close> of \<^verbatim>\<open>cli/tools.py\<close>; the first argument is the model
  \<^verbatim>\<open>Dandiset\<close> of \<^verbatim>\<open>dandischema\<close>.\<close>

definition cli_pydantic_validate :: "'d base_model \<Rightarrow> 'd \<Rightarrow> py_error + string" where
  "cli_pydantic_validate Dandiset dandiset_metadata =
     errors_json (model_validate Dandiset dandiset_metadata)"

section \<open>The file system\<close>

text \<open>The data handed to \<^verbatim>\<open>write_data\<close> and \<^verbatim>\<open>_write_data\<close> for one pair of files, and its
  truth value.\<close>

datatype data =
    PydanticErrs "pydantic_err list"
  | DumpedErrs "json list"
  | DiffValue json
  | Metadata json
  | LinkmlErrs "json list"

fun data_truthy :: "data \<Rightarrow> bool" where
  "data_truthy (PydanticErrs es) = (es \<noteq> [])"
| "data_truthy (DumpedErrs es) = (es \<noteq> [])"
| "data_truthy (DiffValue v) = truthy v"
| "data_truthy (Metadata v) = truthy v"
| "data_truthy (LinkmlErrs es) = (es \<noteq> [])"

text \<open>
  What a file holds.  The serialisers and the Markdown renderers are external, so a
  written file is described by what was serialised into it: \<open>JsonOf\<close> and \<open>YamlOf\<close> are the
  two serialisations of a datum, the two summaries are the documents rendered from the
  counted error representations of both sides, \<open>Bytes\<close> is any other text.
\<close>

datatype content =
    Bytes string
  | JsonOf data
  | YamlOf data
  | PydanticErrsSummary "pydantic_validation_err_rep list" "pydantic_validation_err_rep list"
  | JsonschemaErrsSummary "jsonschema_validation_err_rep list" "jsonschema_validation_err_rep list"

datatype node = Dir | File content

type_synonym fs = "path \<Rightarrow> node option"

definition exists :: "fs \<Rightarrow> path \<Rightarrow> bool" where
  "exists fs p = (fs p \<noteq> None)"

definition is_dir :: "fs \<Rightarrow> path \<Rightarrow> bool" where
  "is_dir fs p = (fs p = Some Dir)"

definition is_file :: "fs \<Rightarrow> path \<Rightarrow> bool" where
  "is_file fs p = (case fs p of Some (File _) \<Rightarrow> True | _ \<Rightarrow> False)"

text \<open>\<open>q\<close> is \<open>p\<close> or lies below \<open>p\<close>.\<close>

definition below :: "path \<Rightarrow> path \<Rightarrow> bool" where
  "below p q = (take (length p) q = p)"

text \<open>\<^verbatim>\<open>shutil.rmtree\<close>: removes a directory with everything below it.\<close>

definition rmtree :: "fs \<Rightarrow> path \<Rightarrow> py_error + fs" where
  "rmtree fs p =
     (case fs p of
        None \<Rightarrow> Inl FileNotFoundError
      | Some (File _) \<Rightarrow> Inl NotADirectoryError
      | Some Dir \<Rightarrow> Inr (\<lambda>q. if below p q then None else fs q))"

text \<open>\<^verbatim>\<open>os.mkdir\<close>.\<close>

definition os_mkdir :: "fs \<Rightarrow> path \<Rightarrow> py_error + fs" where
  "os_mkdir fs p =
     (if fs p \<noteq> None then Inl FileExistsError
      else case fs (parent p) of
             None \<Rightarrow> Inl FileNotFoundError
           | Some (File _) \<Rightarrow> Inl NotADirectoryError
           | Some Dir \<Rightarrow> Inr (fs(p \<mapsto> Dir)))"

text \<open>\<^verbatim>\<open>Path.mkdir(parents=False, exist_ok=exist_ok)\<close>.\<close>

definition mkdir :: "bool \<Rightarrow> fs \<Rightarrow> path \<Rightarrow> py_error + fs" where
  "mkdir exist_ok fs p =
     (case os_mkdir fs p of
        Inr fs' \<Rightarrow> Inr fs'
      | Inl e \<Rightarrow>
          if e = FileNotFoundError then Inl e
          else if \<not> exist_ok \<or> \<not> is_dir fs p then Inl e
          else Inr fs)"

text \<open>\<^verbatim>\<open>Path.mkdir(parents=True, exist_ok=exist_ok)\<close>: a missing parent is created first,
  with \<^verbatim>\<open>exist_ok=True\<close>.\<close>

function mkdir_parents :: "bool \<Rightarrow> fs \<Rightarrow> path \<Rightarrow> py_error + fs" where
  "mkdir_parents exist_ok fs p =
     (case os_mkdir fs p of
        Inr fs' \<Rightarrow> Inr fs'
      | Inl e \<Rightarrow>
          if e = FileNotFoundError then
            (if parent p = p then Inl e
             else case mkdir_parents True fs (parent p) of
                    Inl e' \<Rightarrow> Inl e'
                  | Inr fs' \<Rightarrow> mkdir exist_ok fs' p)
          else if \<not> exist_ok \<or> \<not> is_dir fs p then Inl e
          else Inr fs)"
  by pat_completeness auto
termination
  by (relation "measure (\<lambda>(exist_ok, fs, p). length p)") (auto simp: parent_def split: if_splits)

declare mkdir_parents.simps [simp del]

text \<open>\<^verbatim>\<open>with p.open("w") as f: f.write(c)\<close>: the file is created or replaced.\<close>

definition write_file :: "path \<Rightarrow> content \<Rightarrow> fs \<Rightarrow> py_error + fs" where
  "write_file p c fs =
     (case fs p of
        Some Dir \<Rightarrow> Inl IsADirectoryError
      | _ \<Rightarrow>
          (case fs (parent p) of
             None \<Rightarrow> Inl FileNotFoundError
           | Some (File _) \<Rightarrow> Inl NotADirectoryError
           | Some Dir \<Rightarrow> Inr (fs(p \<mapsto> File c))))"

subsection \<open>Effects in sequence\<close>

text \<open>
  The state a command runs in: the files and the lines logged so far.  A command gives
  the exception that ended it, if any, and the state it left behind.
\<close>

record world =
  files :: fs
  logged :: "string list"

type_synonym command = "world \<Rightarrow> py_error option \<times> world"

definition on_files :: "(fs \<Rightarrow> py_error + fs) \<Rightarrow> command" where
  "on_files f w = (case f (files w) of Inl e \<Rightarrow> (Some e, w) | Inr fs' \<Rightarrow> (None, w\<lparr>files := fs'\<rparr>))"

definition logger_info :: "string \<Rightarrow> command" where
  "logger_info line w = (None, w\<lparr>logged := logged w @ [line]\<rparr>)"


text \<open>Statements one after the other: the first exception ends the sequence.\<close>

fun in_order :: "command list \<Rightarrow> command" where
  "in_order [] w = (None, w)"
| "in_order (c # cs) w = (case c w of (Some e, w') \<Rightarrow> (Some e, w') | (None, w') \<Rightarrow> in_order cs w')"

text \<open>\<^verbatim>\<open>for x in xs: body(x)\<close>.\<close>

definition for_each :: "'a list \<Rightarrow> ('a \<Rightarrow> command) \<Rightarrow> command" where
  "for_each xs body = in_order (map body xs)"

section \<open>Writing the diff reports\<close>



definition PYDANTIC_ERRS1_BASE_FNAME :: string where
  "PYDANTIC_ERRS1_BASE_FNAME = ''pydantic_validation_errs1''"

definition PYDANTIC_ERRS2_BASE_FNAME :: string where
  "PYDANTIC_ERRS2_BASE_FNAME = ''pydantic_validation_errs2''"

definition PYDANTIC_ERRS_DIFF_BASE_FNAME :: string where
  "PYDANTIC_ERRS_DIFF_BASE_FNAME = ''pydantic_validation_errs_diff''"

definition JSONSCHEMA_ERRS1_BASE_FNAME :: string where
  "JSONSCHEMA_ERRS1_BASE_FNAME = ''jsonschema_validation_errs1''"

definition JSONSCHEMA_ERRS2_BASE_FNAME :: string where
  "JSONSCHEMA_ERRS2_BASE_FNAME = ''jsonschema_validation_errs2''"

definition JSONSCHEMA_ERRS_DIFF_BASE_FNAME :: string where
  "JSONSCHEMA_ERRS_DIFF_BASE_FNAME = ''jsonschema_validation_errs_diff''"

text \<open>
  Modelled from the spec: \<^verbatim>\<open>write_data\<close> of the package \<^verbatim>\<open>tools\<close>, whose file is not among
  the sources.  It writes the data in two serialisations, a data-interchange format and a
  structured text format: \<^verbatim>\<open>.json\<close> and \<^verbatim>\<open>.yaml\<close> files of the given base name, as
  \<^verbatim>\<open>_write_data\<close> of \<^verbatim>\<open>cli/tools.py\<close> does.
\<close>

definition write_data :: "data \<Rightarrow> path \<Rightarrow> string \<Rightarrow> command" where
  "write_data d output_dir base_file_name =
     in_order
       [on_files (write_file (truediv output_dir (base_file_name @ ''.json'')) (JsonOf d)),
        on_files (write_file (truediv output_dir (base_file_name @ ''.yaml'')) (YamlOf d))]"

text \<open>The tuple of data and base file names that \<^verbatim>\<open>_output_supporting_files\<close> loops over.\<close>

definition supporting_data ::
  "externals \<Rightarrow> 'a dandi_validation_diff_report_scheme \<Rightarrow> (data \<times> string) list" where
  "supporting_data ext r =
     [(PydanticErrs (pydantic_validation_errs1 r), PYDANTIC_ERRS1_BASE_FNAME),
      (PydanticErrs (pydantic_validation_errs2 r), PYDANTIC_ERRS2_BASE_FNAME),
      (DiffValue (pydantic_validation_errs_diff r), PYDANTIC_ERRS_DIFF_BASE_FNAME),
      (DumpedErrs (map (model_dump ext) (jsonschema_validation_errs1 r)),
       JSONSCHEMA_ERRS1_BASE_FNAME),
      (DumpedErrs (map (model_dump ext) (jsonschema_validation_errs2 r)),
       JSONSCHEMA_ERRS2_BASE_FNAME),
      (DiffValue (jsonschema_validation_errs_diff r), JSONSCHEMA_ERRS_DIFF_BASE_FNAME)]"

text \<open>\<^verbatim>\<open>_output_supporting_files\<close>; the writer of one datum is the parameter \<open>wd\<close>.\<close>

definition output_supporting_files ::
  "(data \<Rightarrow> path \<Rightarrow> string \<Rightarrow> command) \<Rightarrow> externals \<Rightarrow>
   'a dandi_validation_diff_report_scheme \<Rightarrow> path \<Rightarrow> command" where
  "output_supporting_files wd ext r report_dir =
     in_order
       [on_files (\<lambda>fs. mkdir_parents False fs report_dir),
        for_each (supporting_data ext r)
          (\<lambda>(d, base_fname). if data_truthy d then wd d report_dir base_fname else in_order [])]"






section \<open>The diff operation\<close>





section \<open>Writing the validation reports\<close>

text \<open>
  \<^verbatim>\<open>DandisetValidationReport\<close> of \<^verbatim>\<open>cli.models\<close>, with the fields \<^verbatim>\<open>output_reports\<close> writes
  to files.  Its Pydantic errors carry the prefix \<open>cli_\<close>, since a field name belongs to one
  record.
\<close>

record cli_dandiset_validation_report = dandi_base_report +
  dandiset_metadata :: json
  cli_pydantic_validation_errs :: "pydantic_err list"
  linkml_validation_errs :: "json list"

text \<open>
  The text \<^verbatim>\<open>output_reports\<close> gets from elsewhere: the YAML of the LinkML schema, and for a
  report the cells of its row in the summary table, which are formatted from fields and
  counts of the report.
\<close>

record rendering =
  dandi_linkml_schema_yml :: string
  row_cells :: "cli_dandiset_validation_report \<Rightarrow> string list"

text \<open>\<^verbatim>\<open>f.write(text)\<close> on the open file at \<open>p\<close>.\<close>

definition append_text :: "path \<Rightarrow> string \<Rightarrow> fs \<Rightarrow> py_error + fs" where
  "append_text p t fs =
     (case fs p of
        Some (File (Bytes b)) \<Rightarrow> Inr (fs(p \<mapsto> File (Bytes (b @ t))))
      | _ \<Rightarrow> Inl (Raised ''write to a file that is not open''))"

text \<open>\<^verbatim>\<open>sep.join(strs)\<close>.\<close>

fun str_join :: "string \<Rightarrow> string list \<Rightarrow> string" where
  "str_join sep [] = []"
| "str_join sep [x] = x"
| "str_join sep (x # y # ys) = x @ sep @ str_join sep (y # ys)"

definition gen_row :: "string list \<Rightarrow> string" where
  "gen_row cell_str_values = ''|'' @ str_join ''|'' cell_str_values @ ''|'' @ [CHR 0x0A]"

definition output_dandi_linkml_schema :: "rendering \<Rightarrow> path \<Rightarrow> command" where
  "output_dandi_linkml_schema rnd output_path =
     in_order
       [on_files (write_file output_path (Bytes (dandi_linkml_schema_yml rnd))),
        logger_info (''Output the DANDI LinkML schema to '' @ path_str output_path)]"

text \<open>\<^verbatim>\<open>_write_data\<close>: a JSON file and a YAML file of the given base name.\<close>

definition write_data' :: "data \<Rightarrow> string \<Rightarrow> path \<Rightarrow> command" where
  "write_data' d base_file_name output_dir =
     in_order
       [on_files (write_file (truediv output_dir (base_file_name @ ''.json'')) (JsonOf d)),
        on_files (write_file (truediv output_dir (base_file_name @ ''.yaml'')) (YamlOf d))]"

text \<open>The statements of \<^verbatim>\<open>output_reports\<close> that follow the recreation of the output
  directory: the schema, the summary with its table, and the files of each report.\<close>

definition output_reports_content ::
  "rendering \<Rightarrow> cli_dandiset_validation_report list \<Rightarrow> path \<Rightarrow> command" where
  "output_reports_content rnd reports output_path =
     (let summary_file_name = ''summary.md'';
          dandi_linkml_schema_file_name = ''dandi-linkml-schema.yml'';
          summary_headers =
            [''dandiset'', ''version'', ''schema_version'', ''api_status'', ''modified'',
             ''pydantic'', ''linkml''];
          summary_f = truediv output_path summary_file_name;
          header_row = gen_row (map (\<lambda>h. '' '' @ h @ '' '') summary_headers);
          alignment_row = gen_row (map (\<lambda>h. replicate (length h + 2) CHR ''-'') summary_headers)
      in in_order
           [output_dandi_linkml_schema rnd (truediv output_path dandi_linkml_schema_file_name),
            on_files (write_file summary_f (Bytes [])),
            on_files (append_text summary_f
              (''[DANDI LinkML schema](./'' @ dandi_linkml_schema_file_name @ '') '' @
               ''(LinkML schema used in the LinkML validations)'' @ [CHR 0x0A])),
            on_files (append_text summary_f [CHR 0x0A]),
            on_files (append_text summary_f (header_row @ alignment_row)),
            for_each reports (\<lambda>r.
              let report_dir =
                    truediv (truediv output_path (dandiset_identifier r)) (dandiset_version r)
              in in_order
                   [on_files (\<lambda>fs. mkdir_parents False fs report_dir),
                    write_data' (Metadata (dandiset_metadata r)) ''metadata'' report_dir,
                    write_data' (PydanticErrs (cli_pydantic_validation_errs r))
                      ''pydantic_validation_errs'' report_dir,
                    write_data' (LinkmlErrs (linkml_validation_errs r))
                      ''linkml_validation_errs'' report_dir,
                    logger_info
                      (''Output dandiset '' @ dandiset_identifier r @ '' validation report''),
                    on_files (append_text summary_f
                      (gen_row (map (\<lambda>c. '' '' @ c @ '' '') (row_cells rnd r))))]),
            logger_info ''Output of dandiset validation reports completed''])"

text \<open>\<^verbatim>\<open>output_reports\<close>.\<close>

definition output_reports ::
  "rendering \<Rightarrow> cli_dandiset_validation_report list \<Rightarrow> path \<Rightarrow> command" where
  "output_reports rnd reports output_path w =
     in_order
       ((if exists (files w) output_path
         then [logger_info
                 (''Found existing report output directory: '' @ path_str output_path),
               on_files (\<lambda>fs. rmtree fs output_path),
               logger_info
                 (''Deleted existing report output directory: '' @ path_str output_path)]
         else []) @
        [on_files (\<lambda>fs. mkdir False fs output_path),
         logger_info (''Recreated report output directory: '' @ path_str output_path),
         output_reports_content rnd reports output_path]) w"

section \<open>Notions for stating the properties\<close>

text \<open>Two location sequences that differ only at segments of integer type: they have the
  same length, and at every position the segments are equal or both integers.\<close>

definition differ_only_at_ints :: "seg list \<Rightarrow> seg list \<Rightarrow> bool" where
  "differ_only_at_ints xs ys =
     list_all2 (\<lambda>x y. x = y \<or> (isinstance_int x \<and> isinstance_int y)) xs ys"


text \<open>The entity key of an asset-level report and of a dandiset-level report, as the path
  \<^verbatim>\<open>_key_reports\<close> builds from the attributes.\<close>

definition asset_entry :: "asset_validation_report \<Rightarrow> path" where
  "asset_entry a = Path [dandiset_identifier a, dandiset_version a, str_int (asset_idx a)]"

definition dandiset_entry :: "'a dandi_base_report_scheme \<Rightarrow> path" where
  "dandiset_entry r = Path [dandiset_identifier r, dandiset_version r]"

text \<open>A report of one of the two supported classes.\<close>

fun supported :: "report \<Rightarrow> bool" where
  "supported OtherObject = False"
| "supported _ = True"

fun supported_diff :: "diff_report \<Rightarrow> bool" where
  "supported_diff OtherDiffObject = False"
| "supported_diff _ = True"

text \<open>The path of the dandiset version a supported report belongs to, the key of the
  dandiset-level scheme.\<close>

fun version_entry :: "report \<Rightarrow> path" where
  "version_entry (DandisetValidationReport r) = dandiset_entry r"
| "version_entry (AssetValidationReport r) = dandiset_entry r"
| "version_entry OtherObject = []"

text \<open>For a supported diff report: the path of its dandiset version, and its four lists of
  error representations for a given instance path.\<close>

fun diff_version_entry :: "diff_report \<Rightarrow> path" where
  "diff_version_entry (DandisetValidationDiffReport r) = dandiset_entry r"
| "diff_version_entry (AssetValidationDiffReport r) = dandiset_entry r"
| "diff_version_entry OtherDiffObject = []"

fun diff_report_reps ::
  "diff_report \<Rightarrow> path \<Rightarrow>
   pydantic_validation_err_rep list \<times> pydantic_validation_err_rep list \<times>
   jsonschema_validation_err_rep list \<times> jsonschema_validation_err_rep list" where
  "diff_report_reps (DandisetValidationDiffReport r) p = report_reps r p"
| "diff_report_reps (AssetValidationDiffReport r) p = report_reps r p"
| "diff_report_reps OtherDiffObject p = ([], [], [], [])"

text \<open>The entity key of a diff report: identifier and version, and for an asset the parts
  of its path, the index as \<^verbatim>\<open>str\<close> writes it.\<close>

definition dandiset_diff_key :: "'a dandi_base_report_scheme \<Rightarrow> string \<times> string" where
  "dandiset_diff_key d = (dandiset_identifier d, dandiset_version d)"

definition asset_diff_key :: "asset_validation_diff_report \<Rightarrow> path" where
  "asset_diff_key d = [dandiset_identifier d, dandiset_version d, str_int (diff_asset_idx d)]"

text \<open>The report a collection of asset-level reports holds for a key after keying: the
  last one in the list with that key.\<close>

definition asset_at :: "asset_validation_report list \<Rightarrow> path \<Rightarrow> asset_validation_report option" where
  "asset_at as k = find (\<lambda>a. asset_entry a = k) (rev as)"

text \<open>The four error lists at a key: Pydantic on side 1 and 2, JSON schema on side 1 and
  2, each empty when the side has no report for the key.  \<open>some_errs\<close> says that one of them
  is not empty.\<close>

definition some_errs ::
  "'a validation_report_scheme option \<Rightarrow> 'b validation_report_scheme option \<Rightarrow> bool" where
  "some_errs r1 r2 =
     (fst (errs_or_empty r1) \<noteq> [] \<or> fst (errs_or_empty r2) \<noteq> [] \<or>
      snd (errs_or_empty r1) \<noteq> [] \<or> snd (errs_or_empty r2) \<noteq> [])"

text \<open>
  What the claims say about errors, stated on the data: a side has an error for an entity
  when it holds a report for it and one of the two error lists of that report is not
  empty.  A collection of dandiset-level reports holds for an identifier and a version the
  report stored under the version in the dictionary stored under the identifier.
\<close>

definition has_errs :: "'a validation_report_scheme option \<Rightarrow> bool" where
  "has_errs r =
     (case r of
        None \<Rightarrow> False
      | Some x \<Rightarrow> pydantic_validation_errs x \<noteq> [] \<or> jsonschema_validation_errs x \<noteq> [])"

definition dandiset_at ::
  "dandiset_validation_reports \<Rightarrow> string \<times> string \<Rightarrow> validation_report option" where
  "dandiset_at reports e =
     (case map_of reports (fst e) of
        None \<Rightarrow> None
      | Some vers \<Rightarrow> map_of vers (snd e))"

text \<open>The reports of a collection whose identifier and version are single path segments.\<close>

definition clean_asset :: "asset_validation_report \<Rightarrow> bool" where
  "clean_asset a = (clean_segment (dandiset_identifier a) \<and> clean_segment (dandiset_version a))"


text \<open>
  The diff report of an entity from the reports \<open>r1\<close> and \<open>r2\<close> the two sides hold for it
  (\<open>None\<close> for a side without report): the error lists of each side, empty for an absent
  side, and the two diffs of the external differ.
\<close>

definition dandiset_diff_of ::
  "externals \<Rightarrow> validation_report option \<Rightarrow> validation_report option \<Rightarrow> string \<Rightarrow> string \<Rightarrow>
   dandi_validation_diff_report" where
  "dandiset_diff_of ext r1 r2 i v =
     \<lparr> dandiset_identifier = i,
       dandiset_version = v,
       pydantic_validation_errs1 = fst (errs_or_empty r1),
       pydantic_validation_errs2 = fst (errs_or_empty r2),
       pydantic_validation_errs_diff =
         diff_pydantic ext (fst (errs_or_empty r1)) (fst (errs_or_empty r2)),
       jsonschema_validation_errs1 = snd (errs_or_empty r1),
       jsonschema_validation_errs2 = snd (errs_or_empty r2),
       jsonschema_validation_errs_diff =
         diff_dumped ext (map (model_dump ext) (snd (errs_or_empty r1)))
           (map (model_dump ext) (snd (errs_or_empty r2))) \<rparr>"

text \<open>The same for an asset; identifier and path of the asset come from side 1 when it
  has a report, from side 2 otherwise.\<close>

definition asset_diff_of ::
  "externals \<Rightarrow> asset_validation_report option \<Rightarrow> asset_validation_report option \<Rightarrow>
   string \<Rightarrow> string \<Rightarrow> int \<Rightarrow> asset_validation_diff_report" where
  "asset_diff_of ext r1 r2 i v idx =
     \<lparr> dandiset_identifier = i,
       dandiset_version = v,
       pydantic_validation_errs1 = fst (errs_or_empty r1),
       pydantic_validation_errs2 = fst (errs_or_empty r2),
       pydantic_validation_errs_diff =
         diff_pydantic ext (fst (errs_or_empty r1)) (fst (errs_or_empty r2)),
       jsonschema_validation_errs1 = snd (errs_or_empty r1),
       jsonschema_validation_errs2 = snd (errs_or_empty r2),
       jsonschema_validation_errs_diff =
         diff_dumped ext (map (model_dump ext) (snd (errs_or_empty r1)))
           (map (model_dump ext) (snd (errs_or_empty r2))),
       diff_asset_id =
         (case r1 of Some a \<Rightarrow> asset_id a | None \<Rightarrow> (case r2 of Some a \<Rightarrow> asset_id a | None \<Rightarrow> None)),
       diff_asset_path =
         (case r1 of Some a \<Rightarrow> asset_path a | None \<Rightarrow> (case r2 of Some a \<Rightarrow> asset_path a | None \<Rightarrow> None)),
       diff_asset_idx = idx \<rparr>"

section \<open>Example data\<close>

text \<open>Concrete errors, reports and stand-ins for the external functions, for evaluating
  the code on inputs.\<close>

definition example_err :: pydantic_err where
  "example_err = \<lparr>err_type = ''missing'', msg = ''Field required'', loc = [StrSeg ''name'']\<rparr>"

definition example_ext :: externals where
  "example_ext =
     \<lparr> diff_pydantic = (\<lambda>a b. if a = b then JDict [] else JList [JInt (int (length b))]),
       model_dump = (\<lambda>e. JStr (message e)),
       diff_dumped = (\<lambda>a b. if a = b then JDict [] else JList b) \<rparr>"

definition example_asset :: "string \<Rightarrow> int \<Rightarrow> pydantic_err list \<Rightarrow> asset_validation_report" where
  "example_asset ver idx errs =
     \<lparr> dandiset_identifier = ''000003'', dandiset_version = ver,
       pydantic_validation_errs = errs, jsonschema_validation_errs = [],
       asset_id = None, asset_path = Some ''sub-1/a.nwb'', asset_idx = idx \<rparr>"

definition example_dandiset :: "string \<Rightarrow> string \<Rightarrow> pydantic_err list \<Rightarrow> validation_report" where
  "example_dandiset ident ver errs =
     \<lparr> dandiset_identifier = ident, dandiset_version = ver,
       pydantic_validation_errs = errs, jsonschema_validation_errs = [] \<rparr>"

text \<open>A diff report with one Pydantic error on side 1 only, and a file system with the
  working directory and a directory \<^verbatim>\<open>out\<close> in it.\<close>

definition example_diff_report :: dandi_validation_diff_report where
  "example_diff_report =
     \<lparr> dandiset_identifier = ''000003'', dandiset_version = ''draft'',
       pydantic_validation_errs1 = [example_err], pydantic_validation_errs2 = [],
       pydantic_validation_errs_diff = JList [],
       jsonschema_validation_errs1 = [], jsonschema_validation_errs2 = [],
       jsonschema_validation_errs_diff = JDict [] \<rparr>"

definition example_world :: world where
  "example_world = \<lparr> files = [[] \<mapsto> Dir, [''out''] \<mapsto> Dir], logged = [] \<rparr>"

text \<open>A rendering, and two file systems for \<^verbatim>\<open>output_reports\<close>: in the first \<^verbatim>\<open>out\<close> is a
  directory that holds a file of an earlier run, in the second \<^verbatim>\<open>out\<close> is a regular file.\<close>

definition example_rendering :: rendering where
  "example_rendering =
     \<lparr> dandi_linkml_schema_yml = ''id: dandi'',
       row_cells = (\<lambda>r. [dandiset_identifier r, dandiset_version r]) \<rparr>"

definition example_world_old_reports :: world where
  "example_world_old_reports =
     \<lparr> files = [[] \<mapsto> Dir, [''out''] \<mapsto> Dir, [''out'', ''old.md''] \<mapsto> File (Bytes ''old'')],
       logged = [] \<rparr>"

definition example_world_out_is_file :: world where
  "example_world_out_is_file =
     \<lparr> files = [[] \<mapsto> Dir, [''out''] \<mapsto> File (Bytes ''old'')], logged = [] \<rparr>"






text \<open>A model whose only valid dictionary is \<open>0\<close> and whose only valid JSON string is
  \<^verbatim>\<open>{}\<close>; the two methods raise \<^verbatim>\<open>ValidationError\<close> with different error arrays.\<close>

definition example_model :: "nat base_model" where
  "example_model =
     \<lparr> model_validate = (\<lambda>d. if d = 0 then Validated else RaisesValidationError ''[1]''),
       model_validate_json =
         (\<lambda>s. if s = ''{}'' then Validated else RaisesValidationError ''[2]'') \<rparr>"

chapter \<open>Properties\<close>

section \<open>Categories\<close>

lemma map_wildcard_eq: "differ_only_at_ints xs ys \<Longrightarrow> map wildcard xs = map wildcard ys"
  unfolding differ_only_at_ints_def
  by (induction xs ys rule: list_all2_induct) (auto simp: wildcard_def)

text \<open>
  Claim C2.  Two error representations that agree on every field except that their
  location sequences (\<^verbatim>\<open>loc\<close> of a Pydantic error, \<^verbatim>\<open>absolute_path\<close> of a JSON schema error)
  differ only at segments of integer type get the same category.  The category holds the
  location with every integer segment replaced by \<^verbatim>\<open>[*]\<close>, every other segment unchanged, and
  the order kept.
\<close>

theorem categorizers_erase_indices:
  assumes "differ_only_at_ints l1 l2"
    and "differ_only_at_ints (absolute_path e) a2"
  shows "pydantic_err_categorizer (t, m, l1, p) = pydantic_err_categorizer (t, m, l2, p)
    \<and> jsonschema_err_categorizer (e, p) = jsonschema_err_categorizer (e\<lparr>absolute_path := a2\<rparr>, p)
    \<and> pydantic_err_categorizer (t, m, l1, p) =
        (t, m, map (\<lambda>v. if isinstance_int v then StrSeg ''[*]'' else v) l1)
    \<and> jsonschema_err_categorizer (e, p) =
        (absolute_schema_path e,
         map (\<lambda>v. if isinstance_int v then StrSeg ''[*]'' else v) (absolute_path e))
    \<and> (\<forall>i < length l1. snd (snd (pydantic_err_categorizer (t, m, l1, p))) ! i =
          (if isinstance_int (l1 ! i) then StrSeg ''[*]'' else l1 ! i))"
proof (intro conjI)
  show "pydantic_err_categorizer (t, m, l1, p) = pydantic_err_categorizer (t, m, l2, p)"
    using assms(1) by (simp add: pydantic_err_categorizer_def map_wildcard_eq)
  show "jsonschema_err_categorizer (e, p) = jsonschema_err_categorizer (e\<lparr>absolute_path := a2\<rparr>, p)"
    using assms(2) by (simp add: jsonschema_err_categorizer_def map_wildcard_eq)
  have w: "wildcard = (\<lambda>v. if isinstance_int v then StrSeg ''[*]'' else v)"
    by (rule ext) (simp add: wildcard_def)
  show "pydantic_err_categorizer (t, m, l1, p) =
        (t, m, map (\<lambda>v. if isinstance_int v then StrSeg ''[*]'' else v) l1)"
    by (simp add: pydantic_err_categorizer_def w)
  show "jsonschema_err_categorizer (e, p) =
        (absolute_schema_path e,
         map (\<lambda>v. if isinstance_int v then StrSeg ''[*]'' else v) (absolute_path e))"
    by (simp add: jsonschema_err_categorizer_def w)
  show "\<forall>i < length l1. snd (snd (pydantic_err_categorizer (t, m, l1, p))) ! i =
          (if isinstance_int (l1 ! i) then StrSeg ''[*]'' else l1 ! i)"
    by (simp add: pydantic_err_categorizer_def wildcard_def)
qed

theorem categorizers_erase_indices_witness:
  "pydantic_err_categorizer (''missing'', ''Field required'', [StrSeg ''assets'', IntSeg 3, StrSeg ''id''], [''ds'', ''draft''])
     = pydantic_err_categorizer (''missing'', ''Field required'', [StrSeg ''assets'', IntSeg 7, StrSeg ''id''], [''ds'', ''draft''])
   \<and> pydantic_err_categorizer (''missing'', ''Field required'', [StrSeg ''assets'', IntSeg 3, StrSeg ''id''], [''ds'', ''draft''])
     = (''missing'', ''Field required'', [StrSeg ''assets'', StrSeg ''[*]'', StrSeg ''id''])
   \<and> jsonschema_err_categorizer
        (\<lparr>message = ''m'', absolute_path = [StrSeg ''contributor'', IntSeg 0],
          absolute_schema_path = [StrSeg ''properties'']\<rparr>, [''ds'', ''draft''])
     = jsonschema_err_categorizer
        (\<lparr>message = ''m'', absolute_path = [StrSeg ''contributor'', IntSeg 5],
          absolute_schema_path = [StrSeg ''properties'']\<rparr>, [''ds'', ''draft''])"
proof -
  have h1: "differ_only_at_ints [StrSeg ''assets'', IntSeg 3, StrSeg ''id'']
      [StrSeg ''assets'', IntSeg 7, StrSeg ''id'']"
    by (simp add: differ_only_at_ints_def)
  have h2: "differ_only_at_ints
      (absolute_path \<lparr>message = ''m'', absolute_path = [StrSeg ''contributor'', IntSeg 0],
          absolute_schema_path = [StrSeg ''properties'']\<rparr>) [StrSeg ''contributor'', IntSeg 5]"
    by (simp add: differ_only_at_ints_def)
  note T = categorizers_erase_indices [OF h1 h2, of "''missing''" "''Field required''" "[''ds'', ''draft'']"]
  show ?thesis
  proof (intro conjI)
    show "pydantic_err_categorizer (''missing'', ''Field required'', [StrSeg ''assets'', IntSeg 3, StrSeg ''id''], [''ds'', ''draft''])
     = pydantic_err_categorizer (''missing'', ''Field required'', [StrSeg ''assets'', IntSeg 7, StrSeg ''id''], [''ds'', ''draft''])"
      using T by (elim conjE)
    show "pydantic_err_categorizer (''missing'', ''Field required'', [StrSeg ''assets'', IntSeg 3, StrSeg ''id''], [''ds'', ''draft''])
     = (''missing'', ''Field required'', [StrSeg ''assets'', StrSeg ''[*]'', StrSeg ''id''])"
      using T by (elim conjE) simp
    show "jsonschema_err_categorizer
        (\<lparr>message = ''m'', absolute_path = [StrSeg ''contributor'', IntSeg 0],
          absolute_schema_path = [StrSeg ''properties'']\<rparr>, [''ds'', ''draft''])
     = jsonschema_err_categorizer
        (\<lparr>message = ''m'', absolute_path = [StrSeg ''contributor'', IntSeg 5],
          absolute_schema_path = [StrSeg ''properties'']\<rparr>, [''ds'', ''draft''])"
      using T by (elim conjE) simp
  qed
qed

section \<open>Validation failures are data\<close>

text \<open>
  Claim C6.  The Pydantic validation function does not raise when the record fails
  validation.  For a dictionary it calls \<^verbatim>\<open>model_validate\<close>, for a JSON string
  \<^verbatim>\<open>model_validate_json\<close>; when that method raises \<^verbatim>\<open>ValidationError\<close> the function returns
  the serialised error array of the exception, when the method returns the function
  returns exactly \<^verbatim>\<open>[]\<close>, and the function raises only what the method raises other than
  \<^verbatim>\<open>ValidationError\<close>.  The function of \<^verbatim>\<open>cli/tools.py\<close> does the same with \<^verbatim>\<open>model_validate\<close>
  of the model \<^verbatim>\<open>Dandiset\<close>.
\<close>

theorem pydantic_validate_captures_failures:
  "(model_validate model d = Validated \<longrightarrow> pydantic_validate (Dictionary d) model = Inr ''[]'')
   \<and> (\<forall>j. model_validate model d = RaisesValidationError j \<longrightarrow>
          pydantic_validate (Dictionary d) model = Inr j)
   \<and> (\<forall>e. pydantic_validate (Dictionary d) model = Inl e \<longleftrightarrow>
          model_validate model d = RaisesOther e)
   \<and> (model_validate_json model s = Validated \<longrightarrow>
        pydantic_validate (JsonString s) model = Inr ''[]'')
   \<and> (\<forall>j. model_validate_json model s = RaisesValidationError j \<longrightarrow>
          pydantic_validate (JsonString s) model = Inr j)
   \<and> (\<forall>e. pydantic_validate (JsonString s) model = Inl e \<longleftrightarrow>
          model_validate_json model s = RaisesOther e)
   \<and> (model_validate Dandiset md = Validated \<longrightarrow>
        cli_pydantic_validate Dandiset md = Inr ''[]'')
   \<and> (\<forall>j. model_validate Dandiset md = RaisesValidationError j \<longrightarrow>
        cli_pydantic_validate Dandiset md = Inr j)
   \<and> (\<forall>e. cli_pydantic_validate Dandiset md = Inl e \<longleftrightarrow>
        model_validate Dandiset md = RaisesOther e)"
  by (auto simp: pydantic_validate_def validate_method_def cli_pydantic_validate_def
      errors_json_def split: validation_outcome.splits)

theorem pydantic_validate_captures_failures_witness:
  "pydantic_validate (Dictionary 7) example_model = Inr ''[1]''
   \<and> pydantic_validate (Dictionary 0) example_model = Inr ''[]''
   \<and> pydantic_validate (JsonString ''{'') example_model = Inr ''[2]''
   \<and> pydantic_validate (JsonString ''{}'') example_model = Inr ''[]''
   \<and> cli_pydantic_validate example_model 7 = Inr ''[1]''
   \<and> cli_pydantic_validate example_model 0 = Inr ''[]''"
proof -
  have m: "model_validate example_model 7 = RaisesValidationError ''[1]''"
    "model_validate example_model 0 = Validated"
    "model_validate_json example_model ''{'' = RaisesValidationError ''[2]''"
    "model_validate_json example_model ''{}'' = Validated"
    by (simp_all add: example_model_def)
  note T1 = pydantic_validate_captures_failures [of example_model 7 "''{''" example_model 7]
  note T2 = pydantic_validate_captures_failures [of example_model 0 "''{}''" example_model 0]
  from T1 m have "pydantic_validate (Dictionary 7) example_model = Inr ''[1]''"
    "pydantic_validate (JsonString ''{'') example_model = Inr ''[2]''"
    "cli_pydantic_validate example_model 7 = Inr ''[1]''"
    by blast+
  moreover from T2 m have "pydantic_validate (Dictionary 0) example_model = Inr ''[]''"
    "pydantic_validate (JsonString ''{}'') example_model = Inr ''[]''"
    "cli_pydantic_validate example_model 0 = Inr ''[]''"
    by blast+
  ultimately show ?thesis
    by blast
qed

section \<open>Keying\<close>

lemma key_path_asset [simp]:
  "key_path [''dandiset_identifier'', ''dandiset_version'', ''asset_idx''] (AssetValidationReport a) = Inr (asset_entry a)"
  by (simp add: key_path_def asset_entry_def)

lemma key_path_asset_dandiset [simp]:
  "key_path [''dandiset_identifier'', ''dandiset_version'', ''asset_idx''] (DandisetValidationReport d) = Inl (AttributeError ''asset_idx'')"
  by (simp add: key_path_def)

lemma key_path_other [simp]:
  "key_path (p # ps) OtherObject = Inl (AttributeError p)"
  by (simp add: key_path_def)

lemma key_path_version [simp]:
  "supported r \<Longrightarrow> key_path [''dandiset_identifier'', ''dandiset_version''] r = Inr (version_entry r)"
  by (cases r) (simp_all add: key_path_def dandiset_entry_def)

lemma dict_get_set: "dict_get (dict_set d k v) k' = (if k' = k then Some v else dict_get d k')"
  by (simp add: dict_get_def dict_set_def update_conv')

lemma dict_keys_set: "set (dict_keys (dict_set d k v)) = insert k (set (dict_keys d))"
  by (simp add: dict_keys_def dict_set_def dom_update[simplified] ) 

lemma distinct_dict_set: "distinct (dict_keys d) \<Longrightarrow> distinct (dict_keys (dict_set d k v))"
  by (simp add: dict_keys_def dict_set_def distinct_update)

lemma find_app:
  "find P (xs @ ys) = (case find P xs of None \<Rightarrow> find P ys | Some x \<Rightarrow> Some x)"
  by (induction xs) auto

text \<open>Keying with a scheme that applies to every report succeeds, and a key gets the last
  report in input order that has it.\<close>

lemma key_reports_comp_total:
  assumes "\<forall>r \<in> set rs. key_path parts r = Inr (key r)"
  shows "\<exists>m. key_reports_comp parts rs d = Inr m
     \<and> (\<forall>k. dict_get m k = (case find (\<lambda>r. key r = k) (rev rs) of Some r \<Rightarrow> Some r | None \<Rightarrow> dict_get d k))
     \<and> set (dict_keys m) = set (dict_keys d) \<union> key ` set rs
     \<and> (distinct (dict_keys d) \<longrightarrow> distinct (dict_keys m))"
  using assms
proof (induction rs arbitrary: d)
  case Nil
  then show ?case by simp
next
  case (Cons r rs)
  from Cons.prems have k: "key_path parts r = Inr (key r)" and rest: "\<forall>r \<in> set rs. key_path parts r = Inr (key r)"
    by simp_all
  from Cons.IH [OF rest, of "dict_set d (key r) r"] obtain m where
    m: "key_reports_comp parts rs (dict_set d (key r) r) = Inr m"
    and g: "\<forall>k. dict_get m k = (case find (\<lambda>r. key r = k) (rev rs) of Some r \<Rightarrow> Some r | None \<Rightarrow> dict_get (dict_set d (key r) r) k)"
    and ks: "set (dict_keys m) = set (dict_keys (dict_set d (key r) r)) \<union> key ` set rs"
    and di: "distinct (dict_keys (dict_set d (key r) r)) \<longrightarrow> distinct (dict_keys m)"
    by blast
  have "key_reports_comp parts (r # rs) d = Inr m" using k m by simp
  moreover have "\<forall>k. dict_get m k = (case find (\<lambda>r. key r = k) (rev (r # rs)) of Some r \<Rightarrow> Some r | None \<Rightarrow> dict_get d k)"
    using g by (auto simp: find_app dict_get_set split: option.splits)
  moreover have "set (dict_keys m) = set (dict_keys d) \<union> key ` set (r # rs)"
    using ks by (auto simp: dict_keys_set)
  moreover have "distinct (dict_keys d) \<longrightarrow> distinct (dict_keys m)"
    using di by (simp add: distinct_dict_set)
  ultimately show ?case by blast
qed

lemma key_reports_comp_error:
  assumes "\<forall>r \<in> set xs. \<exists>k. key_path parts r = Inr k" and "key_path parts r = Inl e"
  shows "key_reports_comp parts (xs @ r # ys) d = Inl e"
  using assms by (induction xs arbitrary: d) auto


lemma find_map_inj: "find P (map f xs) = map_option f (find (\<lambda>x. P (f x)) xs)"
  by (induction xs) auto

text \<open>
  Claim C10.  When two reports of one collection have the same key path, keying raises
  nothing and the dictionary holds the later report under that key: for a collection of
  asset-level reports, and for one of dandiset-level reports, keying returns a dictionary
  with distinct keys in which every key has the last report in input order with that key.
  Uniqueness of the keys in the input is not checked.
\<close>

theorem key_reports_keeps_later_duplicate:
  "(\<exists>m. key_reports (map AssetValidationReport as) = Inr m \<and> distinct (dict_keys m)
        \<and> (\<forall>k. dict_get m k =
              map_option AssetValidationReport (find (\<lambda>a. asset_entry a = k) (rev as))))
   \<and> (\<exists>m. key_reports (map DandisetValidationReport ds) = Inr m \<and> distinct (dict_keys m)
        \<and> (\<forall>k. dict_get m k =
              map_option DandisetValidationReport (find (\<lambda>d. dandiset_entry d = k) (rev ds))))
   \<and> (asset_entry a = asset_entry b \<longrightarrow>
        key_reports [AssetValidationReport a, AssetValidationReport b] =
          Inr [(asset_entry b, AssetValidationReport b)])
   \<and> (dandiset_entry c = dandiset_entry d \<longrightarrow>
        key_reports [DandisetValidationReport c, DandisetValidationReport d] =
          Inr [(dandiset_entry d, DandisetValidationReport d)])"
proof (intro conjI)
  let ?pa = "[''dandiset_identifier'', ''dandiset_version'', ''asset_idx'']"
  let ?pd = "[''dandiset_identifier'', ''dandiset_version'']"
  let ?ka = "\<lambda>r. case r of AssetValidationReport a \<Rightarrow> asset_entry a | _ \<Rightarrow> []"
  have "\<forall>r \<in> set (map AssetValidationReport as). key_path ?pa r = Inr (?ka r)"
    by auto
  from key_reports_comp_total [OF this, of "[]"] obtain m where
    m: "key_reports_comp ?pa (map AssetValidationReport as) [] = Inr m"
    and g: "\<forall>k. dict_get m k = (case find (\<lambda>r. ?ka r = k) (rev (map AssetValidationReport as)) of
              Some r \<Rightarrow> Some r | None \<Rightarrow> dict_get [] k)"
    and di: "distinct (dict_keys m)"
    by (auto simp: dict_keys_def)
  have m0: "as = [] \<Longrightarrow> m = []" using m by simp
  have "key_reports (map AssetValidationReport as) = Inr m"
    using m m0 by (cases as) (simp_all add: key_reports_def)
  moreover note di
  moreover have "\<forall>k. dict_get m k =
      map_option AssetValidationReport (find (\<lambda>a. asset_entry a = k) (rev as))"
    using g by (simp add: rev_map find_map_inj dict_get_def split: option.splits)
  ultimately show "\<exists>m. key_reports (map AssetValidationReport as) = Inr m \<and> distinct (dict_keys m)
        \<and> (\<forall>k. dict_get m k =
              map_option AssetValidationReport (find (\<lambda>a. asset_entry a = k) (rev as)))"
    by blast
next
  let ?pd = "[''dandiset_identifier'', ''dandiset_version'']"
  have "\<forall>r \<in> set (map DandisetValidationReport ds). key_path ?pd r = Inr (version_entry r)"
    by auto
  from key_reports_comp_total [OF this, of "[]"] obtain m where
    m: "key_reports_comp ?pd (map DandisetValidationReport ds) [] = Inr m"
    and g: "\<forall>k. dict_get m k = (case find (\<lambda>r. version_entry r = k) (rev (map DandisetValidationReport ds)) of
              Some r \<Rightarrow> Some r | None \<Rightarrow> dict_get [] k)"
    and di: "distinct (dict_keys m)"
    by (auto simp: dict_keys_def)
  have m0: "ds = [] \<Longrightarrow> m = []" using m by simp
  have "key_reports (map DandisetValidationReport ds) = Inr m"
    using m m0 by (cases ds) (simp_all add: key_reports_def)
  moreover note di
  moreover have "\<forall>k. dict_get m k =
      map_option DandisetValidationReport (find (\<lambda>d. dandiset_entry d = k) (rev ds))"
    using g by (simp add: rev_map find_map_inj dict_get_def split: option.splits)
  ultimately show "\<exists>m. key_reports (map DandisetValidationReport ds) = Inr m \<and> distinct (dict_keys m)
        \<and> (\<forall>k. dict_get m k =
              map_option DandisetValidationReport (find (\<lambda>d. dandiset_entry d = k) (rev ds)))"
    by blast
next
  show "asset_entry a = asset_entry b \<longrightarrow>
        key_reports [AssetValidationReport a, AssetValidationReport b] =
          Inr [(asset_entry b, AssetValidationReport b)]"
    by (simp add: key_reports_def dict_set_def)
next
  show "dandiset_entry c = dandiset_entry d \<longrightarrow>
        key_reports [DandisetValidationReport c, DandisetValidationReport d] =
          Inr [(dandiset_entry d, DandisetValidationReport d)]"
    by (simp add: key_reports_def dict_set_def)
qed

theorem key_reports_keeps_later_duplicate_witness:
  "key_reports
     [AssetValidationReport
        \<lparr>dandiset_identifier = ''000003'', dandiset_version = ''draft'',
         pydantic_validation_errs = [], jsonschema_validation_errs = [],
         asset_id = Some ''a1'', asset_path = Some ''sub-1/a.nwb'', asset_idx = 2\<rparr>,
      AssetValidationReport
        \<lparr>dandiset_identifier = ''000003'', dandiset_version = ''draft'',
         pydantic_validation_errs = [\<lparr>err_type = ''missing'', msg = ''Field required'', loc = [StrSeg ''name'']\<rparr>],
         jsonschema_validation_errs = [],
         asset_id = Some ''a2'', asset_path = Some ''sub-1/b.nwb'', asset_idx = 2\<rparr>]
   = Inr [([''000003'', ''draft'', ''2''],
      AssetValidationReport
        \<lparr>dandiset_identifier = ''000003'', dandiset_version = ''draft'',
         pydantic_validation_errs = [\<lparr>err_type = ''missing'', msg = ''Field required'', loc = [StrSeg ''name'']\<rparr>],
         jsonschema_validation_errs = [],
         asset_id = Some ''a2'', asset_path = Some ''sub-1/b.nwb'', asset_idx = 2\<rparr>)]"
proof -
  let ?a = "\<lparr>dandiset_identifier = ''000003'', dandiset_version = ''draft'',
         pydantic_validation_errs = [], jsonschema_validation_errs = [],
         asset_id = Some ''a1'', asset_path = Some ''sub-1/a.nwb'', asset_idx = 2\<rparr>"
  let ?b = "\<lparr>dandiset_identifier = ''000003'', dandiset_version = ''draft'',
         pydantic_validation_errs = [\<lparr>err_type = ''missing'', msg = ''Field required'', loc = [StrSeg ''name'']\<rparr>],
         jsonschema_validation_errs = [],
         asset_id = Some ''a2'', asset_path = Some ''sub-1/b.nwb'', asset_idx = 2\<rparr>"
  have k: "asset_entry ?b = [''000003'', ''draft'', ''2'']"
    by code_simp
  have h: "asset_entry ?a = asset_entry ?b"
    by (simp add: asset_entry_def)
  show ?thesis
    using key_reports_keeps_later_duplicate [of "[]" "[]" ?a ?b] h k by simp
qed

section \<open>Dispatch on the first report\<close>

lemma getattrs_str_error: "getattrs_str r ps = Inl e \<Longrightarrow> \<exists>p. e = AttributeError p"
proof (induction ps arbitrary: e)
  case Nil
  then show ?case by simp
next
  case (Cons p ps)
  then show ?case
    by (cases r) (auto split: sum.splits if_splits)
qed

lemma key_reports_comp_attribute_error:
  "key_reports_comp parts rs d = Inl e \<Longrightarrow> \<exists>p. e = AttributeError p"
proof (induction rs arbitrary: d)
  case Nil
  then show ?case by simp
next
  case (Cons r rs)
  then show ?case
    by (auto simp: key_path_def split: sum.splits dest: getattrs_str_error)
qed

lemma key_reports_unsupported_iff:
  "key_reports rs = Inl (ValueError ''Unsupported report type'') \<longleftrightarrow> (\<exists>rest. rs = OtherObject # rest)"
proof
  assume a: "key_reports rs = Inl (ValueError ''Unsupported report type'')"
  show "\<exists>rest. rs = OtherObject # rest"
  proof (cases rs)
    case Nil
    with a show ?thesis by (simp add: key_reports_def)
  next
    case (Cons r0 rest)
    show ?thesis
    proof (cases r0)
      case (DandisetValidationReport x)
      with a Cons show ?thesis
        by (auto simp: key_reports_def dest: key_reports_comp_attribute_error)
    next
      case (AssetValidationReport x)
      with a Cons show ?thesis
        by (auto simp: key_reports_def dest: key_reports_comp_attribute_error)
    next
      case OtherObject
      with Cons show ?thesis by simp
    qed
  qed
next
  assume "\<exists>rest. rs = OtherObject # rest"
  then show "key_reports rs = Inl (ValueError ''Unsupported report type'')"
    by (auto simp: key_reports_def)
qed

lemma instance_path_error:
  "r0 \<noteq> OtherDiffObject \<Longrightarrow> instance_path r0 r = Inl e \<Longrightarrow> \<exists>p. e = AttributeError p"
  by (cases r0; cases r) (auto simp: instance_path_def)

lemma err_reps_loop_attribute_error:
  "r0 \<noteq> OtherDiffObject \<Longrightarrow> err_reps_loop r0 rs acc = Inl e \<Longrightarrow> \<exists>p. e = AttributeError p"
proof (induction rs arbitrary: acc)
  case Nil
  then show ?case by simp
next
  case (Cons r rs)
  obtain p1 p2 j1 j2 where acc: "acc = (p1, p2, j1, j2)" by (cases acc) auto
  show ?case
  proof (cases "instance_path r0 r")
    case (Inl e')
    with Cons.prems acc show ?thesis by (auto dest: instance_path_error)
  next
    case (Inr p)
    with Cons.prems acc Cons.IH show ?thesis
      by (cases r) (auto split: prod.splits)
  qed
qed

lemma err_reps_unsupported_iff:
  "err_reps ds = Inl (TypeError ''Unsupported report type'') \<longleftrightarrow> (\<exists>rest. ds = OtherDiffObject # rest)"
proof
  assume a: "err_reps ds = Inl (TypeError ''Unsupported report type'')"
  show "\<exists>rest. ds = OtherDiffObject # rest"
  proof (cases ds)
    case Nil
    with a show ?thesis by (simp add: err_reps_def)
  next
    case (Cons r0 rest)
    show ?thesis
    proof (cases "r0 = OtherDiffObject")
      case True
      with Cons show ?thesis by simp
    next
      case False
      with a Cons have "err_reps_loop r0 (r0 # rest) ([], [], [], []) =
          Inl (TypeError ''Unsupported report type'')"
        by (simp add: err_reps_def del: err_reps_loop.simps split: sum.splits prod.splits)
      then have "\<exists>p. TypeError ''Unsupported report type'' = AttributeError p"
        by (rule err_reps_loop_attribute_error [OF False])
      then show ?thesis by simp
    qed
  qed
next
  assume "\<exists>rest. ds = OtherDiffObject # rest"
  then show "err_reps ds = Inl (TypeError ''Unsupported report type'')"
    by (auto simp: err_reps_def)
qed

lemma instance_path_dandiset_scheme:
  "supported_diff r \<Longrightarrow>
   instance_path (DandisetValidationDiffReport x) r = Inr (diff_version_entry r)"
  by (cases r) (simp_all add: instance_path_def dandiset_entry_def)

lemma err_reps_loop_dandiset_scheme:
  "list_all supported_diff rs \<Longrightarrow>
   err_reps_loop (DandisetValidationDiffReport x) rs (p1, p2, j1, j2) =
     Inr (p1 @ map (\<lambda>r. fst (diff_report_reps r (diff_version_entry r))) rs,
          p2 @ map (\<lambda>r. fst (snd (diff_report_reps r (diff_version_entry r)))) rs,
          j1 @ map (\<lambda>r. fst (snd (snd (diff_report_reps r (diff_version_entry r))))) rs,
          j2 @ map (\<lambda>r. snd (snd (snd (diff_report_reps r (diff_version_entry r))))) rs)"
proof (induction rs arbitrary: p1 p2 j1 j2)
  case Nil
  then show ?case by simp
next
  case (Cons r rs)
  then show ?case
    by (cases r) (auto simp: instance_path_dandiset_scheme split: prod.splits)
qed

lemma err_reps_loop_asset_scheme_fails:
  assumes "list_all supported_diff rs" and "DandisetValidationDiffReport d \<in> set rs"
  shows "err_reps_loop (AssetValidationDiffReport a) rs acc = Inl (AttributeError ''asset_idx'')"
  using assms
proof (induction rs arbitrary: acc)
  case Nil
  then show ?case by simp
next
  case (Cons r rs)
  obtain p1 p2 j1 j2 where acc: "acc = (p1, p2, j1, j2)" by (cases acc) auto
  show ?case
  proof (cases r)
    case (DandisetValidationDiffReport x)
    then show ?thesis by (simp add: acc instance_path_def)
  next
    case (AssetValidationDiffReport x)
    with Cons show ?thesis by (auto simp: acc instance_path_def split: prod.splits)
  next
    case OtherDiffObject
    with Cons.prems show ?thesis by simp
  qed
qed

lemma key_reports_comp_asset_scheme_fails:
  assumes "list_all supported rs" and "DandisetValidationReport d \<in> set rs"
  shows "key_reports_comp [''dandiset_identifier'', ''dandiset_version'', ''asset_idx''] rs m
     = Inl (AttributeError ''asset_idx'')"
  using assms
proof (induction rs arbitrary: m)
  case Nil
  then show ?case by simp
next
  case (Cons r rs)
  show ?case
  proof (cases r)
    case (DandisetValidationReport x)
    then show ?thesis by simp
  next
    case (AssetValidationReport x)
    with Cons show ?thesis by auto
  next
    case OtherObject
    with Cons.prems show ?thesis by simp
  qed
qed


text \<open>
  Claim C9, as amended.  Keying and representation extraction look at the class of the
  first report only.  The unsupported-type error is raised exactly when the collection is
  not empty and its first element is of neither supported class.  A mixed collection of
  supported reports whose first element is dandiset-level is processed without raising,
  every element under the dandiset scheme (identifier and version).  When the first
  element is asset-level, a dandiset-level element further on has no \<^verbatim>\<open>asset_idx\<close> and the
  call raises \<^verbatim>\<open>AttributeError\<close>.
\<close>

theorem dispatch_on_first_report:
  "(key_reports rs = Inl (ValueError ''Unsupported report type'') \<longleftrightarrow>
      (\<exists>rest. rs = OtherObject # rest))
   \<and> (err_reps ds = Inl (TypeError ''Unsupported report type'') \<longleftrightarrow>
      (\<exists>rest. ds = OtherDiffObject # rest))
   \<and> (list_all supported rest \<longrightarrow>
        (\<exists>m. key_reports (DandisetValidationReport d # rest) = Inr m
           \<and> (\<forall>k. dict_get m k =
                 find (\<lambda>r. version_entry r = k) (rev (DandisetValidationReport d # rest)))))
   \<and> (list_all supported_diff drest \<longrightarrow>
        err_reps (DandisetValidationDiffReport x # drest) =
          Inr (concat (map (\<lambda>r. fst (diff_report_reps r (diff_version_entry r)))
                 (DandisetValidationDiffReport x # drest)),
               concat (map (\<lambda>r. fst (snd (diff_report_reps r (diff_version_entry r))))
                 (DandisetValidationDiffReport x # drest)),
               concat (map (\<lambda>r. fst (snd (snd (diff_report_reps r (diff_version_entry r)))))
                 (DandisetValidationDiffReport x # drest)),
               concat (map (\<lambda>r. snd (snd (snd (diff_report_reps r (diff_version_entry r)))))
                 (DandisetValidationDiffReport x # drest))))
   \<and> (list_all supported rest \<and> DandisetValidationReport d' \<in> set rest \<longrightarrow>
        key_reports (AssetValidationReport a # rest) = Inl (AttributeError ''asset_idx''))
   \<and> (list_all supported_diff drest \<and> DandisetValidationDiffReport x' \<in> set drest \<longrightarrow>
        err_reps (AssetValidationDiffReport y # drest) = Inl (AttributeError ''asset_idx''))"
proof (intro conjI impI)
  show "key_reports rs = Inl (ValueError ''Unsupported report type'') \<longleftrightarrow>
      (\<exists>rest. rs = OtherObject # rest)"
    by (rule key_reports_unsupported_iff)
  show "err_reps ds = Inl (TypeError ''Unsupported report type'') \<longleftrightarrow>
      (\<exists>rest. ds = OtherDiffObject # rest)"
    by (rule err_reps_unsupported_iff)
next
  assume sup: "list_all supported rest"
  let ?rs = "DandisetValidationReport d # rest"
  have "\<forall>r \<in> set ?rs. key_path [''dandiset_identifier'', ''dandiset_version''] r = Inr (version_entry r)"
    using sup by (auto simp: list_all_iff)
  from key_reports_comp_total [OF this, of "[]"] obtain m where
    m: "key_reports_comp [''dandiset_identifier'', ''dandiset_version''] ?rs [] = Inr m"
    and g: "\<forall>k. dict_get m k = (case find (\<lambda>r. version_entry r = k) (rev ?rs) of
              Some r \<Rightarrow> Some r | None \<Rightarrow> dict_get [] k)"
    by auto
  have "key_reports ?rs = Inr m"
    using m by (simp add: key_reports_def)
  moreover have "\<forall>k. dict_get m k = find (\<lambda>r. version_entry r = k) (rev ?rs)"
    using g by (simp add: dict_get_def split: option.splits)
  ultimately show "\<exists>m. key_reports ?rs = Inr m
           \<and> (\<forall>k. dict_get m k = find (\<lambda>r. version_entry r = k) (rev ?rs))"
    by blast
next
  assume sup: "list_all supported_diff drest"
  let ?ds = "DandisetValidationDiffReport x # drest"
  have "list_all supported_diff ?ds" using sup by simp
  from err_reps_loop_dandiset_scheme [OF this, of x "[]" "[]" "[]" "[]"]
  show "err_reps ?ds =
          Inr (concat (map (\<lambda>r. fst (diff_report_reps r (diff_version_entry r))) ?ds),
               concat (map (\<lambda>r. fst (snd (diff_report_reps r (diff_version_entry r)))) ?ds),
               concat (map (\<lambda>r. fst (snd (snd (diff_report_reps r (diff_version_entry r))))) ?ds),
               concat (map (\<lambda>r. snd (snd (snd (diff_report_reps r (diff_version_entry r))))) ?ds))"
    by (simp add: err_reps_def del: err_reps_loop.simps)
next
  assume "list_all supported rest \<and> DandisetValidationReport d' \<in> set rest"
  then have "key_reports_comp [''dandiset_identifier'', ''dandiset_version'', ''asset_idx''] rest
      (dict_set [] (asset_entry a) (AssetValidationReport a)) = Inl (AttributeError ''asset_idx'')"
    by (intro key_reports_comp_asset_scheme_fails) auto
  then show "key_reports (AssetValidationReport a # rest) = Inl (AttributeError ''asset_idx'')"
    by (simp add: key_reports_def)
next
  assume a: "list_all supported_diff drest \<and> DandisetValidationDiffReport x' \<in> set drest"
  let ?ds = "AssetValidationDiffReport y # drest"
  have "list_all supported_diff ?ds" and "DandisetValidationDiffReport x' \<in> set ?ds"
    using a by simp_all
  from err_reps_loop_asset_scheme_fails [OF this, of y "([], [], [], [])"]
  show "err_reps ?ds = Inl (AttributeError ''asset_idx'')"
    by (simp add: err_reps_def del: err_reps_loop.simps)
qed


text \<open>The claim as stated fails on a mixed collection whose first element is asset-level:
  the supported first element does not keep the call from raising.\<close>

theorem dispatch_on_first_report_counterexample:
  "key_reports
     [AssetValidationReport
        \<lparr>dandiset_identifier = ''000003'', dandiset_version = ''0.210812.1448'',
         pydantic_validation_errs = [], jsonschema_validation_errs = [],
         asset_id = Some ''a1'', asset_path = Some ''sub-1/a.nwb'', asset_idx = 0\<rparr>,
      DandisetValidationReport
        \<lparr>dandiset_identifier = ''000003'', dandiset_version = ''draft'',
         pydantic_validation_errs = [], jsonschema_validation_errs = []\<rparr>]
     = Inl (AttributeError ''asset_idx'')
   \<and> err_reps
     [AssetValidationDiffReport
        \<lparr>dandiset_identifier = ''000003'', dandiset_version = ''0.210812.1448'',
         pydantic_validation_errs1 = [], pydantic_validation_errs2 = [\<lparr>err_type = ''missing'', msg = ''Field required'', loc = [StrSeg ''name'']\<rparr>],
         pydantic_validation_errs_diff = JList [], jsonschema_validation_errs1 = [],
         jsonschema_validation_errs2 = [], jsonschema_validation_errs_diff = JDict [],
         diff_asset_id = Some ''a1'', diff_asset_path = Some ''sub-1/a.nwb'', diff_asset_idx = 0\<rparr>,
      DandisetValidationDiffReport
        \<lparr>dandiset_identifier = ''000003'', dandiset_version = ''draft'',
         pydantic_validation_errs1 = [\<lparr>err_type = ''missing'', msg = ''Field required'', loc = [StrSeg ''name'']\<rparr>], pydantic_validation_errs2 = [],
         pydantic_validation_errs_diff = JList [], jsonschema_validation_errs1 = [],
         jsonschema_validation_errs2 = [], jsonschema_validation_errs_diff = JDict []\<rparr>]
     = Inl (AttributeError ''asset_idx'')"
  by (simp add: key_reports_def err_reps_def instance_path_def report_reps_def dict_set_def
      asset_entry_def)

theorem dispatch_on_first_report_witness:
  "(\<exists>m. key_reports
     [DandisetValidationReport
        \<lparr>dandiset_identifier = ''000003'', dandiset_version = ''draft'',
         pydantic_validation_errs = [], jsonschema_validation_errs = []\<rparr>,
      AssetValidationReport
        \<lparr>dandiset_identifier = ''000003'', dandiset_version = ''0.210812.1448'',
         pydantic_validation_errs = [], jsonschema_validation_errs = [],
         asset_id = Some ''a1'', asset_path = Some ''sub-1/a.nwb'', asset_idx = 0\<rparr>] = Inr m
      \<and> dict_get m [''000003'', ''0.210812.1448''] = Some (AssetValidationReport
        \<lparr>dandiset_identifier = ''000003'', dandiset_version = ''0.210812.1448'',
         pydantic_validation_errs = [], jsonschema_validation_errs = [],
         asset_id = Some ''a1'', asset_path = Some ''sub-1/a.nwb'', asset_idx = 0\<rparr>))
   \<and> err_reps
     [DandisetValidationDiffReport
        \<lparr>dandiset_identifier = ''000003'', dandiset_version = ''draft'',
         pydantic_validation_errs1 = [\<lparr>err_type = ''missing'', msg = ''Field required'', loc = [StrSeg ''name'']\<rparr>], pydantic_validation_errs2 = [],
         pydantic_validation_errs_diff = JList [], jsonschema_validation_errs1 = [],
         jsonschema_validation_errs2 = [], jsonschema_validation_errs_diff = JDict []\<rparr>,
      AssetValidationDiffReport
        \<lparr>dandiset_identifier = ''000003'', dandiset_version = ''0.210812.1448'',
         pydantic_validation_errs1 = [], pydantic_validation_errs2 = [\<lparr>err_type = ''missing'', msg = ''Field required'', loc = [StrSeg ''name'']\<rparr>],
         pydantic_validation_errs_diff = JList [], jsonschema_validation_errs1 = [],
         jsonschema_validation_errs2 = [], jsonschema_validation_errs_diff = JDict [],
         diff_asset_id = Some ''a1'', diff_asset_path = Some ''sub-1/a.nwb'', diff_asset_idx = 0\<rparr>]
     = Inr ([(''missing'', ''Field required'', [StrSeg ''name''], [''000003'', ''draft''])],
            [(''missing'', ''Field required'', [StrSeg ''name''], [''000003'', ''0.210812.1448''])],
            [], [])"
proof -
  let ?d = "\<lparr>dandiset_identifier = ''000003'', dandiset_version = ''draft'',
         pydantic_validation_errs = [], jsonschema_validation_errs = []\<rparr>"
  let ?a = "\<lparr>dandiset_identifier = ''000003'', dandiset_version = ''0.210812.1448'',
         pydantic_validation_errs = [], jsonschema_validation_errs = [],
         asset_id = Some ''a1'', asset_path = Some ''sub-1/a.nwb'', asset_idx = 0\<rparr>"
  let ?dd = "\<lparr>dandiset_identifier = ''000003'', dandiset_version = ''draft'',
         pydantic_validation_errs1 = [\<lparr>err_type = ''missing'', msg = ''Field required'', loc = [StrSeg ''name'']\<rparr>], pydantic_validation_errs2 = [],
         pydantic_validation_errs_diff = JList [], jsonschema_validation_errs1 = [],
         jsonschema_validation_errs2 = [], jsonschema_validation_errs_diff = JDict []\<rparr>"
  let ?ad = "\<lparr>dandiset_identifier = ''000003'', dandiset_version = ''0.210812.1448'',
         pydantic_validation_errs1 = [], pydantic_validation_errs2 = [\<lparr>err_type = ''missing'', msg = ''Field required'', loc = [StrSeg ''name'']\<rparr>],
         pydantic_validation_errs_diff = JList [], jsonschema_validation_errs1 = [],
         jsonschema_validation_errs2 = [], jsonschema_validation_errs_diff = JDict [],
         diff_asset_id = Some ''a1'', diff_asset_path = Some ''sub-1/a.nwb'', diff_asset_idx = 0\<rparr>"
  note T = dispatch_on_first_report [of "[]" "[]" "[AssetValidationReport ?a]" ?d
      "[AssetValidationDiffReport ?ad]" ?dd ?d ?a ?dd ?ad]
  have pd: "dandiset_entry ?d = [''000003'', ''draft'']"
    by code_simp
  have pa: "dandiset_entry ?a = [''000003'', ''0.210812.1448'']"
    by code_simp
  have pdd: "dandiset_entry ?dd = [''000003'', ''draft'']"
    by code_simp
  have pad: "dandiset_entry ?ad = [''000003'', ''0.210812.1448'']"
    by code_simp
  have s1: "list_all supported [AssetValidationReport ?a]"
    by simp
  have s2: "list_all supported_diff [AssetValidationDiffReport ?ad]"
    by simp
  from T have "list_all supported [AssetValidationReport ?a] \<longrightarrow>
      (\<exists>m. key_reports [DandisetValidationReport ?d, AssetValidationReport ?a] = Inr m
         \<and> (\<forall>k. dict_get m k = find (\<lambda>r. version_entry r = k)
               (rev [DandisetValidationReport ?d, AssetValidationReport ?a])))"
    by (elim conjE)
  with s1 obtain m where
    m: "key_reports [DandisetValidationReport ?d, AssetValidationReport ?a] = Inr m"
    and g: "\<forall>k. dict_get m k = find (\<lambda>r. version_entry r = k)
        (rev [DandisetValidationReport ?d, AssetValidationReport ?a])"
    by blast
  from g have "dict_get m [''000003'', ''0.210812.1448''] = Some (AssetValidationReport ?a)"
    by (simp add: pa pd)
  with m have first: "\<exists>m. key_reports [DandisetValidationReport ?d, AssetValidationReport ?a] = Inr m
      \<and> dict_get m [''000003'', ''0.210812.1448''] = Some (AssetValidationReport ?a)"
    by blast
  from T have "list_all supported_diff [AssetValidationDiffReport ?ad] \<longrightarrow>
      err_reps [DandisetValidationDiffReport ?dd, AssetValidationDiffReport ?ad] =
        Inr (concat (map (\<lambda>r. fst (diff_report_reps r (diff_version_entry r)))
               [DandisetValidationDiffReport ?dd, AssetValidationDiffReport ?ad]),
             concat (map (\<lambda>r. fst (snd (diff_report_reps r (diff_version_entry r))))
               [DandisetValidationDiffReport ?dd, AssetValidationDiffReport ?ad]),
             concat (map (\<lambda>r. fst (snd (snd (diff_report_reps r (diff_version_entry r)))))
               [DandisetValidationDiffReport ?dd, AssetValidationDiffReport ?ad]),
             concat (map (\<lambda>r. snd (snd (snd (diff_report_reps r (diff_version_entry r)))))
               [DandisetValidationDiffReport ?dd, AssetValidationDiffReport ?ad]))"
    by (elim conjE)
  with s2 have "err_reps [DandisetValidationDiffReport ?dd, AssetValidationDiffReport ?ad]
     = Inr ([(''missing'', ''Field required'', [StrSeg ''name''], [''000003'', ''draft''])],
            [(''missing'', ''Field required'', [StrSeg ''name''], [''000003'', ''0.210812.1448''])],
            [], [])"
    by (simp add: pdd pad report_reps_def pydantic_err_rep_def)
  with first show ?thesis by blast
qed

section \<open>Decimal strings\<close>

lemma digit_val_digit_char_all: "\<forall>d \<in> set [0 ..< 10]. digit_val (digit_char d) = Some d"
  by code_simp

lemma digit_val_digit_char: "d < 10 \<Longrightarrow> digit_val (digit_char d) = Some d"
  using digit_val_digit_char_all by simp

lemma digit_char_in_digits: "d < 10 \<Longrightarrow> digit_char d \<in> set ''0123456789''"
  unfolding digit_char_def by (rule nth_mem) simp

lemma set_str_nat: "set (str_nat n) \<subseteq> set ''0123456789''"
proof (induction n rule: str_nat.induct)
  case (1 n)
  show ?case
  proof (cases "n < 10")
    case True
    then show ?thesis
      using digit_char_in_digits [of n] by (subst str_nat.simps) simp
  next
    case False
    have "n mod 10 < 10" by simp
    with False 1 show ?thesis
      using digit_char_in_digits [of "n mod 10"] by (subst str_nat.simps) simp
  qed
qed

lemma str_nat_nonempty: "str_nat n \<noteq> []"
  by (subst str_nat.simps) simp

lemma digits_val_append:
  "digits_val acc (xs @ ys) =
     (case digits_val acc xs of None \<Rightarrow> None | Some a \<Rightarrow> digits_val a ys)"
  by (induction xs arbitrary: acc) (auto split: option.splits)

lemma digits_val_str_nat: "digits_val 0 (str_nat n) = Some n"
proof (induction n rule: str_nat.induct)
  case (1 n)
  show ?case
  proof (cases "n < 10")
    case True
    then show ?thesis
      by (subst str_nat.simps) (simp add: digit_val_digit_char)
  next
    case False
    have "n mod 10 < 10" by simp
    with False 1 show ?thesis
      by (subst str_nat.simps) (simp add: digits_val_append digit_val_digit_char)
  qed
qed

lemma hd_str_nat_digit: "hd (str_nat n) \<in> set ''0123456789''"
  using set_str_nat [of n] str_nat_nonempty [of n] by (cases "str_nat n") auto

text \<open>\<^verbatim>\<open>int(str(i)) == i\<close>.\<close>

lemma py_int_str_int: "py_int (str_int i) = Inr i"
proof (cases "i < 0")
  case True
  then show ?thesis
    by (simp add: py_int_def str_int_def str_nat_nonempty digits_val_str_nat)
next
  case False
  obtain c cs where s: "str_nat (nat i) = c # cs"
    using str_nat_nonempty [of "nat i"] by (cases "str_nat (nat i)") auto
  have "c \<in> set ''0123456789''"
    using hd_str_nat_digit [of "nat i"] s by simp
  then have "c \<noteq> CHR ''-''" and "c \<noteq> CHR ''+''" by auto
  moreover have "digits_val 0 (c # cs) = Some (nat i)"
    using digits_val_str_nat [of "nat i"] s by simp
  ultimately show ?thesis
    using False s by (simp add: py_int_def str_int_def)
qed

lemma clean_segment_str_int: "clean_segment (str_int i)"
proof -
  have a: "CHR ''/'' \<notin> set (str_nat n)" and b: "CHR ''.'' \<notin> set (str_nat n)" for n
    using set_str_nat [of n] by auto
  show ?thesis
  proof (cases "i < 0")
    case True
    then show ?thesis
      by (simp add: clean_segment_def str_int_def a)
  next
    case False
    have "str_nat (nat i) \<noteq> ''.''"
      using b [of "nat i"] by auto
    with False show ?thesis
      by (simp add: clean_segment_def str_int_def a str_nat_nonempty)
  qed
qed

section \<open>Paths of clean segments\<close>

lemma str_split_nonempty: "str_split s \<noteq> []"
  by (induction s) (auto split: list.splits)

lemma str_split_sep: "str_split (x @ CHR ''/'' # y) = str_split x @ str_split y"
proof (induction x)
  case Nil
  then show ?case by simp
next
  case (Cons c x)
  then show ?case
    using str_split_nonempty [of x] by (cases "str_split x") auto
qed

lemma str_split_no_sep: "CHR ''/'' \<notin> set s \<Longrightarrow> str_split s = [s]"
  by (induction s) auto

lemma startswith_sep_clean: "clean_segment s \<Longrightarrow> \<not> startswith_sep s"
  by (cases s) (auto simp: clean_segment_def startswith_sep_def)

lemma parse_path_clean: "clean_segment s \<Longrightarrow> parse_path s = [s]"
proof -
  assume c: "clean_segment s"
  then obtain a t where s: "s = a # t" and a: "a \<noteq> CHR ''/''"
    by (cases s) (auto simp: clean_segment_def)
  from c have "str_split s = [s]"
    by (simp add: clean_segment_def str_split_no_sep)
  with c s a show ?thesis
    by (simp add: parse_path_def splitroot_def clean_segment_def)
qed

lemma clean_segment_last: "clean_segment s \<Longrightarrow> s \<noteq> [] \<and> last s \<noteq> CHR ''/''"
  by (metis clean_segment_def last_in_set)

lemma join_sep_Cons: "p \<noteq> [] \<Longrightarrow> join_sep (a # p) = a @ ''/'' @ join_sep p"
  by (cases p) simp_all

lemma posix_join2_clean:
  "acc \<noteq> [] \<Longrightarrow> last acc \<noteq> CHR ''/'' \<Longrightarrow> clean_segment b \<Longrightarrow>
   posix_join2 acc b = acc @ ''/'' @ b"
  by (simp add: posix_join2_def startswith_sep_clean)

lemma foldl_posix_join2_clean:
  "acc \<noteq> [] \<Longrightarrow> last acc \<noteq> CHR ''/'' \<Longrightarrow> list_all clean_segment p \<Longrightarrow>
   foldl posix_join2 acc p = join_sep (acc # p)"
proof (induction p arbitrary: acc)
  case Nil
  then show ?case by simp
next
  case (Cons b p)
  from Cons.prems have b: "clean_segment b" and p: "list_all clean_segment p" by simp_all
  from b have bl: "b \<noteq> []" "last b \<noteq> CHR ''/''"
    using clean_segment_last by blast+
  have j: "posix_join2 acc b = acc @ ''/'' @ b"
    using Cons.prems(1,2) b by (rule posix_join2_clean)
  have "foldl posix_join2 (acc @ ''/'' @ b) p = join_sep ((acc @ ''/'' @ b) # p)"
    using bl p by (intro Cons.IH) simp_all
  also have "\<dots> = join_sep (acc # b # p)"
    by (cases p) simp_all
  finally show ?case by (simp add: j)
qed

lemma str_split_join_sep:
  "segs \<noteq> [] \<Longrightarrow> list_all (\<lambda>s. CHR ''/'' \<notin> set s) segs \<Longrightarrow> str_split (join_sep segs) = segs"
proof (induction segs rule: join_sep.induct)
  case 1
  then show ?case by simp
next
  case (2 x)
  then show ?case by (simp add: str_split_no_sep)
next
  case (3 x y ys)
  then show ?case
    by (simp add: str_split_sep str_split_no_sep del: str_split.simps)
qed

lemma Path_Nil: "Path [] = []"
  by (simp add: Path_def posix_join_def parse_path_def splitroot_def)

text \<open>A path built from clean segments has exactly these segments as its parts.\<close>

lemma Path_clean: "list_all clean_segment segs \<Longrightarrow> Path segs = segs"
proof (cases segs)
  case Nil
  then show ?thesis by (simp add: Path_Nil)
next
  case (Cons a p)
  assume c: "list_all clean_segment segs"
  with Cons have a: "clean_segment a" and p: "list_all clean_segment p" by simp_all
  from a obtain a0 at where a0: "a = a0 # at" "a0 \<noteq> CHR ''/''"
    by (cases a) (auto simp: clean_segment_def)
  from a have "a \<noteq> []" "last a \<noteq> CHR ''/''"
    using clean_segment_last by blast+
  then have j: "posix_join segs = join_sep segs"
    using p Cons by (simp add: posix_join_def foldl_posix_join2_clean)
  have ns: "list_all (\<lambda>s. CHR ''/'' \<notin> set s) segs"
    using c by (auto simp: list_all_iff clean_segment_def)
  have sp: "str_split (join_sep segs) = segs"
    using Cons ns by (intro str_split_join_sep) simp_all
  have hd: "\<exists>t. join_sep segs = a0 # t"
    using Cons a0 by (cases p) simp_all
  then have sr: "splitroot (join_sep segs) = ([], join_sep segs)"
    using a0 by (auto simp: splitroot_def)
  have "filter (\<lambda>x. x \<noteq> [] \<and> x \<noteq> ''.'') segs = segs"
    using c by (auto simp: list_all_iff clean_segment_def intro!: filter_True)
  then show ?thesis
    by (simp add: Path_def j parse_path_def sr sp)
qed

lemma splitroot_rest:
  assumes "s = a # t" and "a \<noteq> CHR ''/''"
  shows "\<exists>R. snd (splitroot (Q0 @ CHR ''/'' # s)) = R @ s \<and> (R = [] \<or> last R = CHR ''/'')"
proof (cases Q0)
  case Nil
  with assms show ?thesis by (simp add: splitroot_def)
next
  case (Cons c Q1)
  show ?thesis
  proof (cases Q1)
    case Nil
    with Cons assms show ?thesis by (auto simp: splitroot_def)
  next
    case (Cons d Q2)
    with \<open>Q0 = c # Q1\<close> assms show ?thesis by (auto simp: splitroot_def)
  qed
qed

lemma parse_path_last:
  assumes c: "clean_segment s" and q: "Q = [] \<or> last Q = CHR ''/''"
  shows "parse_path (Q @ s) \<noteq> [] \<and> last (parse_path (Q @ s)) = s"
proof (cases "Q = []")
  case True
  with c show ?thesis by (simp add: parse_path_clean)
next
  case False
  with q obtain Q0 where Q: "Q = Q0 @ [CHR ''/'']"
    by (metis append_butlast_last_id)
  from c obtain a t where s: "s = a # t" "a \<noteq> CHR ''/''"
    by (cases s) (auto simp: clean_segment_def)
  from splitroot_rest [OF s, of Q0] obtain R where
    R: "snd (splitroot (Q0 @ CHR ''/'' # s)) = R @ s" and Rl: "R = [] \<or> last R = CHR ''/''"
    by blast
  have ss: "str_split s = [s]"
    using c by (simp add: clean_segment_def str_split_no_sep)
  have "\<exists>ws. str_split (R @ s) = ws @ [s]"
  proof (cases "R = []")
    case True
    with ss show ?thesis by simp
  next
    case False
    with Rl obtain R0 where "R = R0 @ [CHR ''/'']"
      by (metis append_butlast_last_id)
    then have "str_split (R @ s) = str_split R0 @ [s]"
      using ss by (simp add: str_split_sep del: str_split.simps)
    then show ?thesis by blast
  qed
  then obtain ws where ws: "str_split (R @ s) = ws @ [s]" by blast
  have keep: "s \<noteq> [] \<and> s \<noteq> ''.''" using c by (simp add: clean_segment_def)
  obtain root rel where sr: "splitroot (Q0 @ CHR ''/'' # s) = (root, rel)"
    by (cases "splitroot (Q0 @ CHR ''/'' # s)") auto
  with R have rel: "rel = R @ s" by simp
  show ?thesis
    using keep by (simp add: Q parse_path_def sr rel ws Let_def)
qed

lemma posix_join_snoc:
  "\<exists>Q. posix_join (xs @ [s]) = Q @ s \<and> (clean_segment s \<longrightarrow> Q = [] \<or> last Q = CHR ''/'')"
proof (cases xs)
  case Nil
  then show ?thesis by (simp add: posix_join_def)
next
  case (Cons a p)
  let ?P = "foldl posix_join2 a p"
  have "posix_join (xs @ [s]) = posix_join2 ?P s"
    using Cons by (simp add: posix_join_def)
  moreover have "\<exists>Q. posix_join2 ?P s = Q @ s \<and> (clean_segment s \<longrightarrow> Q = [] \<or> last Q = CHR ''/'')"
  proof (cases "startswith_sep s")
    case True
    then show ?thesis
      using startswith_sep_clean [of s] by (auto simp: posix_join2_def)
  next
    case False
    show ?thesis
    proof (cases "?P = [] \<or> last ?P = CHR ''/''")
      case True
      with False show ?thesis by (auto simp: posix_join2_def)
    next
      case False
      with \<open>\<not> startswith_sep s\<close> have "posix_join2 ?P s = (?P @ ''/'') @ s"
        by (simp add: posix_join2_def)
      then show ?thesis by (metis last_snoc)
    qed
  qed
  ultimately show ?thesis by simp
qed

text \<open>Whatever the first segments are, a clean last segment is the last part of the path.\<close>

lemma Path_last:
  assumes "clean_segment s"
  shows "Path (xs @ [s]) \<noteq> [] \<and> last (Path (xs @ [s])) = s"
proof -
  from posix_join_snoc [of xs s] assms obtain Q where
    "posix_join (xs @ [s]) = Q @ s" and "Q = [] \<or> last Q = CHR ''/''"
    by blast
  with parse_path_last [OF assms, of Q] show ?thesis
    by (simp add: Path_def)
qed

lemma asset_entry_last: "asset_entry a \<noteq> [] \<and> last (asset_entry a) = str_int (asset_idx a)"
  using Path_last [OF clean_segment_str_int, of "[dandiset_identifier a, dandiset_version a]" "asset_idx a"]
  by (simp add: asset_entry_def)

section \<open>The dandiset diff builder\<close>

lemma dandiset_diff_loop_map_filter:
  "dandiset_diff_loop ext reports1 reports2 es rs =
     rs @ List.map_filter (dandiset_entry_diff ext reports1 reports2) es"
  by (induction es arbitrary: rs) (auto split: option.splits)

lemma dandiset_entry_diff_None:
  "dandiset_entry_diff ext reports1 reports2 e = None \<longleftrightarrow>
     \<not> some_errs (get_report reports1 e) (get_report reports2 e)"
  by (auto simp: dandiset_entry_diff_def some_errs_def any_errs_def Let_def split: prod.splits)

lemma dandiset_entry_diff_Some:
  "dandiset_entry_diff ext reports1 reports2 e = Some d \<Longrightarrow>
     dandiset_diff_key d = e
     \<and> pydantic_validation_errs1 d = fst (errs_or_empty (get_report reports1 e))
     \<and> jsonschema_validation_errs1 d = snd (errs_or_empty (get_report reports1 e))
     \<and> pydantic_validation_errs2 d = fst (errs_or_empty (get_report reports2 e))
     \<and> jsonschema_validation_errs2 d = snd (errs_or_empty (get_report reports2 e))
     \<and> pydantic_validation_errs_diff d =
         diff_pydantic ext (pydantic_validation_errs1 d) (pydantic_validation_errs2 d)
     \<and> jsonschema_validation_errs_diff d =
         diff_dumped ext (map (model_dump ext) (jsonschema_validation_errs1 d))
           (map (model_dump ext) (jsonschema_validation_errs2 d))"
  by (auto simp: dandiset_entry_diff_def dandiset_diff_key_def Let_def split: prod.splits if_splits)

lemma map_key_map_filter:
  assumes "\<And>e d. f e = Some d \<Longrightarrow> key d = e"
  shows "map key (List.map_filter f es) = filter (\<lambda>e. f e \<noteq> None) es"
  using assms by (induction es) (auto split: option.splits)

lemma dandiset_diff_keys:
  "map dandiset_diff_key (dandiset_validation_diff_reports ext entries_of reports1 reports2) =
     filter (\<lambda>e. some_errs (get_report reports1 e) (get_report reports2 e))
       (sort (remdups (entries_of reports1 @ entries_of reports2)))"
proof -
  have "map dandiset_diff_key
      (List.map_filter (dandiset_entry_diff ext reports1 reports2) es) =
     filter (\<lambda>e. dandiset_entry_diff ext reports1 reports2 e \<noteq> None) es" for es
    by (rule map_key_map_filter) (simp add: dandiset_entry_diff_Some)
  then show ?thesis
    by (simp add: dandiset_validation_diff_reports_def dandiset_diff_loop_map_filter
        dandiset_entry_diff_None Let_def)
qed

lemma in_dandiset_diffs:
  assumes "d \<in> set (dandiset_validation_diff_reports ext entries_of reports1 reports2)"
  shows "dandiset_entry_diff ext reports1 reports2 (dandiset_diff_key d) = Some d"
proof -
  from assms obtain e where e: "dandiset_entry_diff ext reports1 reports2 e = Some d"
    by (auto simp: dandiset_validation_diff_reports_def dandiset_diff_loop_map_filter
        List.map_filter_def Let_def)
  then have "dandiset_diff_key d = e"
    by (simp add: dandiset_entry_diff_Some)
  with e show ?thesis by simp
qed

lemma sorted_wrt_less_sort_remdups: "sorted_wrt (<) (sort (remdups (xs :: 'a :: linorder list)))"
  by (simp add: strict_sorted_iff)

lemma sorted_wrt_filter': "sorted_wrt R xs \<Longrightarrow> sorted_wrt R (filter P xs)"
  by (induction xs) auto

lemma dandiset_entry_diff_eq:
  "dandiset_entry_diff ext reports1 reports2 e =
     (if some_errs (get_report reports1 e) (get_report reports2 e)
      then Some (dandiset_diff_of ext (get_report reports1 e) (get_report reports2 e) (fst e) (snd e))
      else None)"
  by (auto simp: dandiset_entry_diff_def dandiset_diff_of_def some_errs_def any_errs_def Let_def
      split: prod.splits)

section \<open>The asset diff builder\<close>

lemma key_reports_assets:
  "\<exists>m. key_reports (map AssetValidationReport as) = Inr m
     \<and> (\<forall>k. dict_get m k = map_option AssetValidationReport (asset_at as k))
     \<and> set (dict_keys m) = asset_entry ` set as"
proof -
  let ?pa = "[''dandiset_identifier'', ''dandiset_version'', ''asset_idx'']"
  let ?ka = "\<lambda>r. case r of AssetValidationReport a \<Rightarrow> asset_entry a | _ \<Rightarrow> []"
  let ?rs = "map AssetValidationReport as"
  have "\<forall>r \<in> set ?rs. key_path ?pa r = Inr (?ka r)"
    by auto
  from key_reports_comp_total [OF this, of "[]"] obtain m where
    all: "key_reports_comp ?pa ?rs [] = Inr m
     \<and> (\<forall>k. dict_get m k = (case find (\<lambda>r. ?ka r = k) (rev ?rs) of Some r \<Rightarrow> Some r | None \<Rightarrow> dict_get [] k))
     \<and> set (dict_keys m) = set (dict_keys ([] :: (path, report) dict)) \<union> ?ka ` set ?rs
     \<and> (distinct (dict_keys ([] :: (path, report) dict)) \<longrightarrow> distinct (dict_keys m))" ..
  from all have m: "key_reports_comp ?pa ?rs [] = Inr m"
    by (elim conjE)
  from all have g: "\<forall>k. dict_get m k =
      (case find (\<lambda>r. ?ka r = k) (rev ?rs) of Some r \<Rightarrow> Some r | None \<Rightarrow> dict_get [] k)"
    by (elim conjE)
  from all have ks: "set (dict_keys m) = set (dict_keys ([] :: (path, report) dict)) \<union> ?ka ` set ?rs"
    by (elim conjE)
  have m0: "as = [] \<Longrightarrow> m = []" using m by simp
  have "key_reports ?rs = Inr m"
    using m m0 by (cases as) (simp_all add: key_reports_def)
  moreover have "\<forall>k. dict_get m k = map_option AssetValidationReport (asset_at as k)"
    using g by (simp add: rev_map find_map_inj dict_get_def asset_at_def split: option.splits)
  moreover have "set (dict_keys m) = asset_entry ` set as"
    using ks by (auto simp: dict_keys_def image_iff)
  ultimately show ?thesis by blast
qed

lemma find_Some_D: "find P xs = Some x \<Longrightarrow> x \<in> set xs \<and> P x"
  by (induction xs) (auto split: if_splits)

lemma asset_at_Some: "asset_at as k = Some a \<Longrightarrow> a \<in> set as \<and> asset_entry a = k"
  unfolding asset_at_def by (auto dest: find_Some_D)

lemma asset_at_None: "asset_at as k = None \<longleftrightarrow> k \<notin> asset_entry ` set as"
  unfolding asset_at_def by (auto simp: find_None_iff)

lemma some_errs_not_None: "some_errs r1 r2 \<Longrightarrow> r1 \<noteq> None \<or> r2 \<noteq> None"
  by (auto simp: some_errs_def errs_or_empty_def)

text \<open>The loop body on keyed collections of asset-level reports.\<close>

lemma asset_entry_diff_typed:
  assumes g1: "dict_get rs1 e = map_option AssetValidationReport r1"
    and g2: "dict_get rs2 e = map_option AssetValidationReport r2"
  shows "asset_entry_diff ext rs1 rs2 e =
     (if \<not> some_errs r1 r2 then Inr None
      else case e of
             [i, v, c] \<Rightarrow>
               (case py_int c of
                  Inl x \<Rightarrow> Inl x
                | Inr idx \<Rightarrow> Inr (Some (asset_diff_of ext r1 r2 i v idx)))
           | _ \<Rightarrow> Inl (ValueError
               (if length e < 3 then ''not enough values to unpack (expected 3)''
                else ''too many values to unpack (expected 3)'')))"
proof (cases "some_errs r1 r2")
  case False
  then show ?thesis
    using g1 g2
    by (cases r1; cases r2)
      (simp_all add: asset_entry_diff_def report_errs_def some_errs_def any_errs_def
        errs_or_empty_def)
next
  case True
  then have "r1 \<noteq> None \<or> r2 \<noteq> None" by (rule some_errs_not_None)
  with True show ?thesis
    using g1 g2
    by (cases r1; cases r2)
      (auto simp: asset_entry_diff_def report_errs_def some_errs_def any_errs_def
        errs_or_empty_def report_asset_id_def report_asset_path_def asset_diff_of_def
        split: list.splits sum.splits)
qed


lemma asset_diff_loop_Inr:
  "asset_diff_loop ext rs1 rs2 es acc = Inr out \<longleftrightarrow>
     (\<forall>e \<in> set es. \<exists>x. asset_entry_diff ext rs1 rs2 e = Inr x)
     \<and> out = acc @ List.map_filter
          (\<lambda>e. case asset_entry_diff ext rs1 rs2 e of Inr x \<Rightarrow> x | Inl _ \<Rightarrow> None) es"
proof (induction es arbitrary: acc)
  case Nil
  then show ?case by auto
next
  case (Cons e es)
  show ?case
  proof (cases "asset_entry_diff ext rs1 rs2 e")
    case (Inl x)
    then show ?thesis by simp
  next
    case (Inr x)
    then show ?thesis
      using Cons.IH by (cases x) auto
  qed
qed

lemma map_key_map_filter_on:
  assumes "\<And>e d. e \<in> set es \<Longrightarrow> f e = Some d \<Longrightarrow> key d = e"
  shows "map key (List.map_filter f es) = filter (\<lambda>e. f e \<noteq> None) es"
  using assms by (induction es) (auto split: option.splits)

lemma parts_normcase_clean:
  "list_all clean_segment p \<Longrightarrow> p \<noteq> [] \<Longrightarrow> parts_normcase p = p"
proof -
  assume c: "list_all clean_segment p" and n: "p \<noteq> []"
  then obtain r t where p: "p = r # t" by (cases p) auto
  with c have "clean_segment r" by simp
  then have "r \<noteq> ''/''" "r \<noteq> ''//''" by (auto simp: clean_segment_def)
  then have "path_str p = join_sep p"
    using p by (simp add: path_str_def)
  moreover have "list_all (\<lambda>s. CHR ''/'' \<notin> set s) p"
    using c by (auto simp: list_all_iff clean_segment_def)
  ultimately show ?thesis
    using n by (simp add: parts_normcase_def str_split_join_sep)
qed

lemma asset_entry_clean:
  "clean_asset a \<Longrightarrow>
   asset_entry a = [dandiset_identifier a, dandiset_version a, str_int (asset_idx a)]"
  by (simp add: asset_entry_def clean_asset_def Path_clean clean_segment_str_int)

text \<open>What the asset builder returns on two collections of asset-level reports, when it
  returns: the entries are the distinct keys of both collections in the order of paths,
  the diff reports are those of the entries with an error, in the same order.\<close>

lemma asset_builder_typed:
  assumes res: "asset_validation_diff_reports ext (map AssetValidationReport as1)
      (map AssetValidationReport as2) = Inr out"
  shows "\<exists>entries. set entries = asset_entry ` set as1 \<union> asset_entry ` set as2
      \<and> distinct entries \<and> sorted (map parts_normcase entries)
      \<and> map asset_diff_key out =
          filter (\<lambda>e. some_errs (asset_at as1 e) (asset_at as2 e)) entries
      \<and> (\<forall>d \<in> set out.
            d = asset_diff_of ext (asset_at as1 (asset_diff_key d)) (asset_at as2 (asset_diff_key d))
                  (dandiset_identifier d) (dandiset_version d) (diff_asset_idx d))"
proof -
  from key_reports_assets [of as1] obtain rs1 where
    k1: "key_reports (map AssetValidationReport as1) = Inr rs1"
    and g1: "\<And>k. dict_get rs1 k = map_option AssetValidationReport (asset_at as1 k)"
    and s1: "set (dict_keys rs1) = asset_entry ` set as1"
    by blast
  from key_reports_assets [of as2] obtain rs2 where
    k2: "key_reports (map AssetValidationReport as2) = Inr rs2"
    and g2: "\<And>k. dict_get rs2 k = map_option AssetValidationReport (asset_at as2 k)"
    and s2: "set (dict_keys rs2) = asset_entry ` set as2"
    by blast
  define entries where "entries = sort_key parts_normcase (remdups (dict_keys rs1 @ dict_keys rs2))"
  define g where "g = (\<lambda>e. case asset_entry_diff ext rs1 rs2 e of Inr x \<Rightarrow> x | Inl _ \<Rightarrow> None)"
  have loop: "asset_diff_loop ext rs1 rs2 entries [] = Inr out"
    using res k1 k2 by (simp add: asset_validation_diff_reports_def entries_def)
  then have all: "\<forall>e \<in> set entries. \<exists>x. asset_entry_diff ext rs1 rs2 e = Inr x"
    and out: "out = List.map_filter g entries"
    by (simp_all add: asset_diff_loop_Inr g_def)
  have set_entries: "set entries = asset_entry ` set as1 \<union> asset_entry ` set as2"
    by (simp add: entries_def s1 s2)
  have dist: "distinct entries"
    by (simp add: entries_def)
  have sorted: "sorted (map parts_normcase entries)"
    by (simp add: entries_def)
  have typed: "asset_entry_diff ext rs1 rs2 e =
     (if \<not> some_errs (asset_at as1 e) (asset_at as2 e) then Inr None
      else case e of
             [i, v, c] \<Rightarrow>
               (case py_int c of
                  Inl x \<Rightarrow> Inl x
                | Inr idx \<Rightarrow> Inr (Some (asset_diff_of ext (asset_at as1 e) (asset_at as2 e) i v idx)))
           | _ \<Rightarrow> Inl (ValueError
               (if length e < 3 then ''not enough values to unpack (expected 3)''
                else ''too many values to unpack (expected 3)'')))" for e
    by (rule asset_entry_diff_typed [OF g1 g2])
  have g_None: "g e \<noteq> None \<longleftrightarrow> some_errs (asset_at as1 e) (asset_at as2 e)"
    if "e \<in> set entries" for e
  proof -
    from all that obtain x where x: "asset_entry_diff ext rs1 rs2 e = Inr x" by blast
    show ?thesis
    proof (cases "some_errs (asset_at as1 e) (asset_at as2 e)")
      case True
      with x typed [of e] show ?thesis
        by (auto simp: g_def split: list.splits sum.splits if_splits)
    next
      case False
      with typed [of e] show ?thesis by (simp add: g_def)
    qed
  qed
  have g_Some: "asset_diff_key d = e
      \<and> d = asset_diff_of ext (asset_at as1 e) (asset_at as2 e)
            (dandiset_identifier d) (dandiset_version d) (diff_asset_idx d)"
    if e: "e \<in> set entries" and d: "g e = Some d" for e d
  proof -
    from e set_entries obtain a where a: "e = asset_entry a" by auto
    then have last: "e \<noteq> []" "last e = str_int (asset_idx a)"
      using asset_entry_last [of a] by simp_all
    from d have x: "asset_entry_diff ext rs1 rs2 e = Inr (Some d)"
      by (simp add: g_def split: sum.splits)
    with typed [of e] obtain i v c idx where
      e3: "e = [i, v, c]" and pi: "py_int c = Inr idx"
      and dd: "d = asset_diff_of ext (asset_at as1 e) (asset_at as2 e) i v idx"
      by (auto split: if_splits list.splits sum.splits)
    from e3 last have "c = str_int (asset_idx a)" by simp
    with pi have "idx = asset_idx a" by (simp add: py_int_str_int)
    with \<open>c = str_int (asset_idx a)\<close> have "str_int idx = c" by simp
    with e3 dd show ?thesis
      by (simp add: asset_diff_key_def asset_diff_of_def)
  qed
  have keys: "map asset_diff_key out =
      filter (\<lambda>e. some_errs (asset_at as1 e) (asset_at as2 e)) entries"
  proof -
    have "map asset_diff_key (List.map_filter g entries) = filter (\<lambda>e. g e \<noteq> None) entries"
      by (rule map_key_map_filter_on) (simp add: g_Some)
    also have "\<dots> = filter (\<lambda>e. some_errs (asset_at as1 e) (asset_at as2 e)) entries"
      using g_None by (intro filter_cong) auto
    finally show ?thesis by (simp add: out)
  qed
  have fields: "\<forall>d \<in> set out.
      d = asset_diff_of ext (asset_at as1 (asset_diff_key d)) (asset_at as2 (asset_diff_key d))
            (dandiset_identifier d) (dandiset_version d) (diff_asset_idx d)"
  proof
    fix d assume "d \<in> set out"
    then obtain e where "e \<in> set entries" and "g e = Some d"
      by (auto simp: out List.map_filter_def)
    from g_Some [OF this] show "d = asset_diff_of ext (asset_at as1 (asset_diff_key d))
        (asset_at as2 (asset_diff_key d)) (dandiset_identifier d) (dandiset_version d)
        (diff_asset_idx d)"
      by simp
  qed
  from set_entries dist sorted keys fields show ?thesis by blast
qed

text \<open>On reports whose identifiers and versions are single path segments the asset
  builder returns.\<close>

lemma asset_builder_total:
  assumes clean: "\<forall>a \<in> set as1 \<union> set as2. clean_asset a"
  shows "\<exists>out. asset_validation_diff_reports ext (map AssetValidationReport as1)
      (map AssetValidationReport as2) = Inr out"
proof -
  from key_reports_assets [of as1] obtain rs1 where
    k1: "key_reports (map AssetValidationReport as1) = Inr rs1"
    and g1: "\<And>k. dict_get rs1 k = map_option AssetValidationReport (asset_at as1 k)"
    and s1: "set (dict_keys rs1) = asset_entry ` set as1"
    by blast
  from key_reports_assets [of as2] obtain rs2 where
    k2: "key_reports (map AssetValidationReport as2) = Inr rs2"
    and g2: "\<And>k. dict_get rs2 k = map_option AssetValidationReport (asset_at as2 k)"
    and s2: "set (dict_keys rs2) = asset_entry ` set as2"
    by blast
  define entries where "entries = sort_key parts_normcase (remdups (dict_keys rs1 @ dict_keys rs2))"
  have "\<exists>x. asset_entry_diff ext rs1 rs2 e = Inr x" if "e \<in> set entries" for e
  proof -
    from that obtain a where "a \<in> set as1 \<union> set as2" and "e = asset_entry a"
      by (auto simp: entries_def s1 s2)
    with clean have "e = [dandiset_identifier a, dandiset_version a, str_int (asset_idx a)]"
      by (simp add: asset_entry_clean)
    then show ?thesis
      by (simp add: asset_entry_diff_typed [OF g1 g2] py_int_str_int)
  qed
  then have "\<exists>out. asset_diff_loop ext rs1 rs2 entries [] = Inr out"
    by (simp add: asset_diff_loop_Inr)
  then show ?thesis
    using k1 k2 by (simp add: asset_validation_diff_reports_def entries_def)
qed

lemma get_report_dandiset_at: "get_report reports e = dandiset_at reports e"
  by (simp add: get_report_def dandiset_at_def dict_get_def split: option.splits)

lemma some_errs_has_errs: "some_errs r1 r2 \<longleftrightarrow> has_errs r1 \<or> has_errs r2"
  by (auto simp: some_errs_def errs_or_empty_def has_errs_def split: option.splits)

lemma has_errs_listed:
  assumes "has_errs (dandiset_at reports e)"
  shows "e \<in> set (get_validation_reports_entries reports)"
proof -
  from assms obtain vers r where v: "map_of reports (fst e) = Some vers"
    and r: "map_of vers (snd e) = Some r"
    by (auto simp: has_errs_def dandiset_at_def split: option.splits)
  from v have "(fst e, vers) \<in> set reports" by (rule map_of_SomeD)
  moreover from r have "snd e \<in> set (dict_keys vers)"
    by (auto simp: dict_keys_def dest!: map_of_SomeD intro: rev_image_eqI)
  ultimately show ?thesis
    by (force simp: get_validation_reports_entries_def)
qed

text \<open>The asset builder returns on two collections of asset-level reports exactly when
  every key with an error has three parts; otherwise the unpacking of the parts raises
  \<^verbatim>\<open>ValueError\<close>.\<close>

lemma asset_entry_diff_returns:
  assumes g1: "dict_get rs1 e = map_option AssetValidationReport r1"
    and g2: "dict_get rs2 e = map_option AssetValidationReport r2"
    and e: "e = asset_entry a"
  shows "(\<exists>x. asset_entry_diff ext rs1 rs2 e = Inr x) \<longleftrightarrow> (some_errs r1 r2 \<longrightarrow> length e = 3)"
    and "asset_entry_diff ext rs1 rs2 e = Inl err \<Longrightarrow> \<exists>m. err = ValueError m"
proof -
  have last: "e \<noteq> []" "last e = str_int (asset_idx a)"
    using asset_entry_last [of a] e by simp_all
  have three: "\<exists>i v. e = [i, v, str_int (asset_idx a)]" if "length e = 3"
  proof -
    from that obtain i v c where "e = [i, v, c]"
      by (cases e; cases "tl e"; cases "tl (tl e)") auto
    with last show ?thesis by simp
  qed
  note t = asset_entry_diff_typed [OF g1 g2, of ext]
  show "(\<exists>x. asset_entry_diff ext rs1 rs2 e = Inr x) \<longleftrightarrow> (some_errs r1 r2 \<longrightarrow> length e = 3)"
  proof (cases "some_errs r1 r2")
    case False
    then show ?thesis unfolding t by simp
  next
    case True
    show ?thesis
    proof (cases "length e = 3")
      case l: True
      from three [OF l] obtain i v where ee: "e = [i, v, str_int (asset_idx a)]" by blast
      show ?thesis
        unfolding t using True by (simp add: ee py_int_str_int)
    next
      case l: False
      show ?thesis
        unfolding t using True l by (auto split: list.splits)
    qed
  qed
  show "\<exists>m. err = ValueError m" if x: "asset_entry_diff ext rs1 rs2 e = Inl err"
  proof (cases "length e = 3")
    case l: True
    from three [OF l] obtain i v where ee: "e = [i, v, str_int (asset_idx a)]" by blast
    from x show ?thesis
      unfolding t by (simp add: ee py_int_str_int split: if_splits)
  next
    case l: False
    from x l show ?thesis
      unfolding t by (auto split: if_splits list.splits)
  qed
qed

lemma asset_diff_loop_Inl:
  "asset_diff_loop ext rs1 rs2 es acc = Inl err \<Longrightarrow>
   \<exists>e \<in> set es. asset_entry_diff ext rs1 rs2 e = Inl err"
proof (induction es arbitrary: acc)
  case Nil
  then show ?case by simp
next
  case (Cons e es)
  then show ?case
    by (cases "asset_entry_diff ext rs1 rs2 e") (auto split: option.splits)
qed

lemma asset_builder_returns_iff:
  "(\<exists>out. asset_validation_diff_reports ext (map AssetValidationReport as1)
       (map AssetValidationReport as2) = Inr out) \<longleftrightarrow>
   (\<forall>k \<in> asset_entry ` set as1 \<union> asset_entry ` set as2.
      some_errs (asset_at as1 k) (asset_at as2 k) \<longrightarrow> length k = 3)"
  and asset_builder_raises:
  "asset_validation_diff_reports ext (map AssetValidationReport as1)
       (map AssetValidationReport as2) = Inl err \<Longrightarrow> \<exists>m. err = ValueError m"
proof -
  from key_reports_assets [of as1] obtain rs1 where
    k1: "key_reports (map AssetValidationReport as1) = Inr rs1"
    and g1: "\<And>k. dict_get rs1 k = map_option AssetValidationReport (asset_at as1 k)"
    and s1: "set (dict_keys rs1) = asset_entry ` set as1"
    by blast
  from key_reports_assets [of as2] obtain rs2 where
    k2: "key_reports (map AssetValidationReport as2) = Inr rs2"
    and g2: "\<And>k. dict_get rs2 k = map_option AssetValidationReport (asset_at as2 k)"
    and s2: "set (dict_keys rs2) = asset_entry ` set as2"
    by blast
  define entries where "entries = sort_key parts_normcase (remdups (dict_keys rs1 @ dict_keys rs2))"
  have set_entries: "set entries = asset_entry ` set as1 \<union> asset_entry ` set as2"
    by (simp add: entries_def s1 s2)
  have run: "asset_validation_diff_reports ext (map AssetValidationReport as1)
       (map AssetValidationReport as2) = asset_diff_loop ext rs1 rs2 entries []"
    using k1 k2 by (simp add: asset_validation_diff_reports_def entries_def)
  have each: "(\<exists>x. asset_entry_diff ext rs1 rs2 e = Inr x) \<longleftrightarrow>
      (some_errs (asset_at as1 e) (asset_at as2 e) \<longrightarrow> length e = 3)"
    if "e \<in> set entries" for e
  proof -
    from that set_entries obtain a where "e = asset_entry a" by auto
    from asset_entry_diff_returns(1) [OF g1 g2 this] show ?thesis .
  qed
  have "(\<exists>out. asset_diff_loop ext rs1 rs2 entries [] = Inr out) \<longleftrightarrow>
      (\<forall>e \<in> set entries. \<exists>x. asset_entry_diff ext rs1 rs2 e = Inr x)"
    by (simp add: asset_diff_loop_Inr)
  also have "\<dots> \<longleftrightarrow> (\<forall>e \<in> set entries.
      some_errs (asset_at as1 e) (asset_at as2 e) \<longrightarrow> length e = 3)"
    using each by blast
  finally show "(\<exists>out. asset_validation_diff_reports ext (map AssetValidationReport as1)
       (map AssetValidationReport as2) = Inr out) \<longleftrightarrow>
   (\<forall>k \<in> asset_entry ` set as1 \<union> asset_entry ` set as2.
      some_errs (asset_at as1 k) (asset_at as2 k) \<longrightarrow> length k = 3)"
    by (simp add: run set_entries)
  show "\<exists>m. err = ValueError m"
    if "asset_validation_diff_reports ext (map AssetValidationReport as1)
       (map AssetValidationReport as2) = Inl err"
  proof -
    from that run obtain e where e: "e \<in> set entries"
      and x: "asset_entry_diff ext rs1 rs2 e = Inl err"
      by (auto dest: asset_diff_loop_Inl)
    from e set_entries obtain a where "e = asset_entry a" by auto
    from asset_entry_diff_returns(2) [OF g1 g2 this x] show ?thesis .
  qed
qed

section \<open>Coverage, order and one-sided entities\<close>

text \<open>
  Claim C1, as amended.  The entity keys of the produced diff reports are exactly the
  keys, among those of the two collections, for which a side holds a report with a
  Pydantic or a JSON schema error; a key with no error on either side gets no diff
  report.  For the dandiset-level builder this holds for every pair of collections and
  every helper listing their entries, and with the helper of the spec the keys of the
  diff reports are all pairs of identifier and version with an error on a side.  The
  asset-level builder returns exactly when every key with an error has three parts, as
  it has when identifiers and versions are single path segments; then the same holds
  for it.  Otherwise it raises \<^verbatim>\<open>ValueError\<close> and there is no diff report at all.
\<close>

theorem diff_reports_cover_entities_with_errors:
  "set (map dandiset_diff_key
          (dandiset_validation_diff_reports ext entries_of reports1 reports2)) =
     {e \<in> set (entries_of reports1) \<union> set (entries_of reports2).
        has_errs (dandiset_at reports1 e) \<or> has_errs (dandiset_at reports2 e)}
   \<and> set (map dandiset_diff_key
          (dandiset_validation_diff_reports ext get_validation_reports_entries
             reports1 reports2)) =
       {e. has_errs (dandiset_at reports1 e) \<or> has_errs (dandiset_at reports2 e)}
   \<and> ((\<exists>out'. asset_validation_diff_reports ext (map AssetValidationReport as1)
                 (map AssetValidationReport as2) = Inr out') \<longleftrightarrow>
       (\<forall>k \<in> asset_entry ` set as1 \<union> asset_entry ` set as2.
          has_errs (asset_at as1 k) \<or> has_errs (asset_at as2 k) \<longrightarrow> length k = 3))
   \<and> (asset_validation_diff_reports ext (map AssetValidationReport as1)
         (map AssetValidationReport as2) = Inr out \<longrightarrow>
       set (map asset_diff_key out) =
         {k \<in> asset_entry ` set as1 \<union> asset_entry ` set as2.
            has_errs (asset_at as1 k) \<or> has_errs (asset_at as2 k)})
   \<and> (\<forall>err. asset_validation_diff_reports ext (map AssetValidationReport as1)
         (map AssetValidationReport as2) = Inl err \<longrightarrow> (\<exists>m. err = ValueError m))
   \<and> ((\<forall>a \<in> set as1 \<union> set as2. clean_asset a) \<longrightarrow>
       (\<exists>out'. asset_validation_diff_reports ext (map AssetValidationReport as1)
         (map AssetValidationReport as2) = Inr out'))"
proof (intro conjI impI allI)
  show "set (map dandiset_diff_key
          (dandiset_validation_diff_reports ext entries_of reports1 reports2)) =
     {e \<in> set (entries_of reports1) \<union> set (entries_of reports2).
        has_errs (dandiset_at reports1 e) \<or> has_errs (dandiset_at reports2 e)}"
    by (auto simp: dandiset_diff_keys get_report_dandiset_at some_errs_has_errs)
next
  show "set (map dandiset_diff_key
          (dandiset_validation_diff_reports ext get_validation_reports_entries
             reports1 reports2)) =
       {e. has_errs (dandiset_at reports1 e) \<or> has_errs (dandiset_at reports2 e)}"
    by (auto simp: dandiset_diff_keys get_report_dandiset_at some_errs_has_errs
        dest: has_errs_listed)
next
  show "(\<exists>out'. asset_validation_diff_reports ext (map AssetValidationReport as1)
                 (map AssetValidationReport as2) = Inr out') \<longleftrightarrow>
       (\<forall>k \<in> asset_entry ` set as1 \<union> asset_entry ` set as2.
          has_errs (asset_at as1 k) \<or> has_errs (asset_at as2 k) \<longrightarrow> length k = 3)"
    unfolding asset_builder_returns_iff some_errs_has_errs ..
next
  assume "asset_validation_diff_reports ext (map AssetValidationReport as1)
         (map AssetValidationReport as2) = Inr out"
  from asset_builder_typed [OF this] obtain entries where
    "set entries = asset_entry ` set as1 \<union> asset_entry ` set as2"
    and "map asset_diff_key out =
          filter (\<lambda>e. some_errs (asset_at as1 e) (asset_at as2 e)) entries"
    by blast
  then show "set (map asset_diff_key out) =
         {k \<in> asset_entry ` set as1 \<union> asset_entry ` set as2.
            has_errs (asset_at as1 k) \<or> has_errs (asset_at as2 k)}"
    by (auto simp: some_errs_has_errs)
next
  fix err
  assume "asset_validation_diff_reports ext (map AssetValidationReport as1)
         (map AssetValidationReport as2) = Inl err"
  then show "\<exists>m. err = ValueError m"
    by (rule asset_builder_raises)
next
  assume "\<forall>a \<in> set as1 \<union> set as2. clean_asset a"
  then show "\<exists>out'. asset_validation_diff_reports ext (map AssetValidationReport as1)
         (map AssetValidationReport as2) = Inr out'"
    by (rule asset_builder_total)
qed

text \<open>Two asset reports with an error each; the version of the first is empty, so its
  key has two parts.  The builder raises, and the key of the second report, which has an
  error, gets no diff report.\<close>

theorem diff_reports_cover_entities_with_errors_counterexample:
  "asset_validation_diff_reports example_ext
     (map AssetValidationReport
        [example_asset '''' 0 [example_err], example_asset ''draft'' 1 [example_err]]) []
     = Inl (ValueError ''not enough values to unpack (expected 3)'')
   \<and> asset_entry (example_asset '''' 0 [example_err]) = [''000003'', ''0'']
   \<and> asset_entry (example_asset ''draft'' 1 [example_err]) = [''000003'', ''draft'', ''1'']
   \<and> has_errs (asset_at [example_asset '''' 0 [example_err], example_asset ''draft'' 1 [example_err]]
        [''000003'', ''draft'', ''1''])"
  by code_simp

theorem diff_reports_cover_entities_with_errors_witness:
  "map_sum id (map asset_diff_key)
     (asset_validation_diff_reports example_ext
        (map AssetValidationReport
           [example_asset ''draft'' 0 [], example_asset ''draft'' 1 [example_err]])
        (map AssetValidationReport
           [example_asset ''draft'' 0 [], example_asset ''draft'' 2 [example_err]]))
     = Inr [[''000003'', ''draft'', ''1''], [''000003'', ''draft'', ''2'']]
   \<and> {k \<in> asset_entry ` set [example_asset ''draft'' 0 [], example_asset ''draft'' 1 [example_err]]
          \<union> asset_entry ` set [example_asset ''draft'' 0 [], example_asset ''draft'' 2 [example_err]].
        has_errs
          (asset_at [example_asset ''draft'' 0 [], example_asset ''draft'' 1 [example_err]] k)
        \<or> has_errs
          (asset_at [example_asset ''draft'' 0 [], example_asset ''draft'' 2 [example_err]] k)}
     = {[''000003'', ''draft'', ''1''], [''000003'', ''draft'', ''2'']}
   \<and> (\<exists>out'. asset_validation_diff_reports example_ext
        (map AssetValidationReport
           [example_asset ''draft'' 0 [], example_asset ''draft'' 1 [example_err]])
        (map AssetValidationReport
           [example_asset ''draft'' 0 [], example_asset ''draft'' 2 [example_err]]) = Inr out')"
proof -
  let ?as1 = "[example_asset ''draft'' 0 [], example_asset ''draft'' 1 [example_err]]"
  let ?as2 = "[example_asset ''draft'' 0 [], example_asset ''draft'' 2 [example_err]]"
  let ?res = "asset_validation_diff_reports example_ext
        (map AssetValidationReport ?as1) (map AssetValidationReport ?as2)"
  have ev: "map_sum id (map asset_diff_key) ?res
      = Inr [[''000003'', ''draft'', ''1''], [''000003'', ''draft'', ''2'']]"
    by code_simp
  then obtain out where out: "?res = Inr out"
    and keys: "map asset_diff_key out = [[''000003'', ''draft'', ''1''], [''000003'', ''draft'', ''2'']]"
    by (cases ?res) auto
  have clean: "\<forall>a \<in> set ?as1 \<union> set ?as2. clean_asset a"
    by (simp add: clean_asset_def clean_segment_def example_asset_def)
  note T = diff_reports_cover_entities_with_errors [of example_ext "\<lambda>r. []" "[]" "[]" ?as1 ?as2 out]
  from T out have "set (map asset_diff_key out) =
         {k \<in> asset_entry ` set ?as1 \<union> asset_entry ` set ?as2.
            has_errs (asset_at ?as1 k) \<or> has_errs (asset_at ?as2 k)}"
    by (elim conjE) blast
  with keys have "{k \<in> asset_entry ` set ?as1 \<union> asset_entry ` set ?as2.
            has_errs (asset_at ?as1 k) \<or> has_errs (asset_at ?as2 k)}
      = {[''000003'', ''draft'', ''1''], [''000003'', ''draft'', ''2'']}"
    by simp
  moreover from T clean have "\<exists>out'. ?res = Inr out'"
    by (elim conjE) blast
  ultimately show ?thesis using ev by blast
qed

text \<open>
  Claim C3, as amended.  Both builders go through the union of the entity keys of the two
  collections in ascending order and emit the diff reports in that order, without
  repetition.  The order is lexicographic on the key with string comparison on every
  component: for an asset the index is compared as the decimal string that stands in the
  key path, not as a number.
\<close>

theorem diff_reports_in_key_order:
  "sorted_wrt (<) (map dandiset_diff_key
      (dandiset_validation_diff_reports ext entries_of reports1 reports2))
   \<and> map dandiset_diff_key (dandiset_validation_diff_reports ext entries_of reports1 reports2) =
       filter (\<lambda>e. some_errs (get_report reports1 e) (get_report reports2 e))
         (sort (remdups (entries_of reports1 @ entries_of reports2)))
   \<and> ((\<forall>a \<in> set as1 \<union> set as2. clean_asset a) \<longrightarrow>
       (\<exists>out. asset_validation_diff_reports ext (map AssetValidationReport as1)
          (map AssetValidationReport as2) = Inr out
          \<and> sorted_wrt (<) (map asset_diff_key out)))
   \<and> (asset_validation_diff_reports ext (map AssetValidationReport as1)
         (map AssetValidationReport as2) = Inr out' \<longrightarrow>
       sorted (map (\<lambda>d. parts_normcase (asset_diff_key d)) out')
       \<and> distinct (map asset_diff_key out'))"
proof (intro conjI impI)
  show "sorted_wrt (<) (map dandiset_diff_key
      (dandiset_validation_diff_reports ext entries_of reports1 reports2))"
    by (simp add: dandiset_diff_keys sorted_wrt_filter' sorted_wrt_less_sort_remdups)
  show "map dandiset_diff_key (dandiset_validation_diff_reports ext entries_of reports1 reports2) =
       filter (\<lambda>e. some_errs (get_report reports1 e) (get_report reports2 e))
         (sort (remdups (entries_of reports1 @ entries_of reports2)))"
    by (rule dandiset_diff_keys)
next
  assume clean: "\<forall>a \<in> set as1 \<union> set as2. clean_asset a"
  from asset_builder_total [OF this, of ext] obtain out where
    out: "asset_validation_diff_reports ext (map AssetValidationReport as1)
          (map AssetValidationReport as2) = Inr out"
    by blast
  from asset_builder_typed [OF out] obtain entries where
    se: "set entries = asset_entry ` set as1 \<union> asset_entry ` set as2"
    and di: "distinct entries" and so: "sorted (map parts_normcase entries)"
    and ks: "map asset_diff_key out =
          filter (\<lambda>e. some_errs (asset_at as1 e) (asset_at as2 e)) entries"
    by blast
  have "parts_normcase e = e" if "e \<in> set entries" for e
  proof -
    from that se obtain a where "a \<in> set as1 \<union> set as2" and "e = asset_entry a" by auto
    with clean have e: "e = [dandiset_identifier a, dandiset_version a, str_int (asset_idx a)]"
      and "clean_asset a"
      by (simp_all add: asset_entry_clean)
    then have "list_all clean_segment e"
      by (simp add: clean_asset_def clean_segment_str_int)
    with e show ?thesis by (simp add: parts_normcase_clean)
  qed
  then have "map parts_normcase entries = entries"
    by (simp add: map_idI)
  with so di have "sorted_wrt (<) entries"
    by (simp add: strict_sorted_iff)
  then have "sorted_wrt (<) (map asset_diff_key out)"
    by (simp add: ks sorted_wrt_filter')
  with out show "\<exists>out. asset_validation_diff_reports ext (map AssetValidationReport as1)
          (map AssetValidationReport as2) = Inr out
          \<and> sorted_wrt (<) (map asset_diff_key out)"
    by blast
next
  assume res: "asset_validation_diff_reports ext (map AssetValidationReport as1)
         (map AssetValidationReport as2) = Inr out'"
  from asset_builder_typed [OF res] obtain entries where
    di: "distinct entries" and so: "sorted (map parts_normcase entries)"
    and ks: "map asset_diff_key out' =
          filter (\<lambda>e. some_errs (asset_at as1 e) (asset_at as2 e)) entries"
    by blast
  have "map (\<lambda>d. parts_normcase (asset_diff_key d)) out' =
      map parts_normcase (map asset_diff_key out')"
    by simp
  also have "\<dots> = map parts_normcase
      (filter (\<lambda>e. some_errs (asset_at as1 e) (asset_at as2 e)) entries)"
    by (simp only: ks)
  finally have eq: "map (\<lambda>d. parts_normcase (asset_diff_key d)) out' =
      map parts_normcase (filter (\<lambda>e. some_errs (asset_at as1 e) (asset_at as2 e)) entries)" .
  show "sorted (map (\<lambda>d. parts_normcase (asset_diff_key d)) out')"
    unfolding eq using so by (simp add: sorted_wrt_map sorted_wrt_filter')
  show "distinct (map asset_diff_key out')"
    using di by (simp add: ks)
qed

text \<open>The claim as stated fails for assets: within one dandiset version the asset at index
  10 comes before the asset at index 2.\<close>

theorem diff_reports_in_key_order_counterexample:
  "map_sum id (map diff_asset_idx)
     (asset_validation_diff_reports example_ext
        (map AssetValidationReport
           [example_asset ''draft'' 2 [example_err], example_asset ''draft'' 10 [example_err]])
        (map AssetValidationReport []))
     = Inr [10, 2]"
  by code_simp


theorem diff_reports_in_key_order_witness:
  "map_sum id (map asset_diff_key)
     (asset_validation_diff_reports example_ext
        (map AssetValidationReport
           [example_asset ''draft'' 2 [example_err], example_asset ''draft'' 10 [example_err]])
        (map AssetValidationReport [example_asset ''0.210812.1448'' 7 [example_err]]))
     = Inr [[''000003'', ''0.210812.1448'', ''7''], [''000003'', ''draft'', ''10''],
            [''000003'', ''draft'', ''2'']]
   \<and> sorted_wrt (<) [[''000003'', ''0.210812.1448'', ''7''], [''000003'', ''draft'', ''10''],
            [''000003'', ''draft'', ''2'']]"
proof -
  let ?as1 = "[example_asset ''draft'' 2 [example_err], example_asset ''draft'' 10 [example_err]]"
  let ?as2 = "[example_asset ''0.210812.1448'' 7 [example_err]]"
  let ?res = "asset_validation_diff_reports example_ext
        (map AssetValidationReport ?as1) (map AssetValidationReport ?as2)"
  have ev: "map_sum id (map asset_diff_key) ?res
      = Inr [[''000003'', ''0.210812.1448'', ''7''], [''000003'', ''draft'', ''10''],
            [''000003'', ''draft'', ''2'']]"
    by code_simp
  have clean: "\<forall>a \<in> set ?as1 \<union> set ?as2. clean_asset a"
    by (simp add: clean_asset_def clean_segment_def example_asset_def)
  note T = diff_reports_in_key_order [of example_ext "\<lambda>r. []" "[]" "[]" ?as1 ?as2 "[]"]
  from T clean obtain out where out: "?res = Inr out"
    and so: "sorted_wrt (<) (map asset_diff_key out)"
    by (elim conjE) blast
  from ev out have "map asset_diff_key out =
      [[''000003'', ''0.210812.1448'', ''7''], [''000003'', ''draft'', ''10''],
       [''000003'', ''draft'', ''2'']]"
    by simp
  with so have "sorted_wrt (<) [[''000003'', ''0.210812.1448'', ''7''], [''000003'', ''draft'', ''10''],
            [''000003'', ''draft'', ''2'']]"
    by simp
  with ev show ?thesis by blast
qed

lemma dandiset_diff_of_absent1:
  "d = dandiset_diff_of ext None r2 i v \<Longrightarrow>
   pydantic_validation_errs1 d = [] \<and> jsonschema_validation_errs1 d = []
   \<and> pydantic_validation_errs_diff d = diff_pydantic ext [] (pydantic_validation_errs2 d)
   \<and> jsonschema_validation_errs_diff d =
       diff_dumped ext [] (map (model_dump ext) (jsonschema_validation_errs2 d))"
  by (simp add: dandiset_diff_of_def errs_or_empty_def)

lemma dandiset_diff_of_absent2:
  "d = dandiset_diff_of ext r1 None i v \<Longrightarrow>
   pydantic_validation_errs2 d = [] \<and> jsonschema_validation_errs2 d = []
   \<and> pydantic_validation_errs_diff d = diff_pydantic ext (pydantic_validation_errs1 d) []
   \<and> jsonschema_validation_errs_diff d =
       diff_dumped ext (map (model_dump ext) (jsonschema_validation_errs1 d)) []"
  by (simp add: dandiset_diff_of_def errs_or_empty_def)

lemma asset_diff_of_absent1:
  "a = asset_diff_of ext None r2 i v idx \<Longrightarrow>
   pydantic_validation_errs1 a = [] \<and> jsonschema_validation_errs1 a = []
   \<and> pydantic_validation_errs_diff a = diff_pydantic ext [] (pydantic_validation_errs2 a)
   \<and> jsonschema_validation_errs_diff a =
       diff_dumped ext [] (map (model_dump ext) (jsonschema_validation_errs2 a))"
  by (simp add: asset_diff_of_def errs_or_empty_def)

lemma asset_diff_of_absent2:
  "a = asset_diff_of ext r1 None i v idx \<Longrightarrow>
   pydantic_validation_errs2 a = [] \<and> jsonschema_validation_errs2 a = []
   \<and> pydantic_validation_errs_diff a = diff_pydantic ext (pydantic_validation_errs1 a) []
   \<and> jsonschema_validation_errs_diff a =
       diff_dumped ext (map (model_dump ext) (jsonschema_validation_errs1 a)) []"
  by (simp add: asset_diff_of_def errs_or_empty_def)

lemma dandiset_example_diffs:
  "dandiset_validation_diff_reports ext get_validation_reports_entries
        [(''ds1'', [(''draft'', example_dandiset ''ds1'' ''draft'' [])])]
        [(''ds1'', [(''draft'', example_dandiset ''ds1'' ''draft'' [err])])]
      = [\<lparr> dandiset_identifier = ''ds1'', dandiset_version = ''draft'',
           pydantic_validation_errs1 = [], pydantic_validation_errs2 = [err],
           pydantic_validation_errs_diff = diff_pydantic ext [] [err],
           jsonschema_validation_errs1 = [], jsonschema_validation_errs2 = [],
           jsonschema_validation_errs_diff = diff_dumped ext [] [] \<rparr>]"
  by (simp add: dandiset_validation_diff_reports_def get_validation_reports_entries_def
        dict_keys_def dandiset_entry_diff_def get_report_def dict_get_def errs_or_empty_def
        any_errs_def example_dandiset_def)

lemma dandiset_example_diffs_absent:
  "dandiset_validation_diff_reports ext get_validation_reports_entries
        []
        [(''ds1'', [(''draft'', example_dandiset ''ds1'' ''draft'' [err])])]
      = [\<lparr> dandiset_identifier = ''ds1'', dandiset_version = ''draft'',
           pydantic_validation_errs1 = [], pydantic_validation_errs2 = [err],
           pydantic_validation_errs_diff = diff_pydantic ext [] [err],
           jsonschema_validation_errs1 = [], jsonschema_validation_errs2 = [],
           jsonschema_validation_errs_diff = diff_dumped ext [] [] \<rparr>]"
  by (simp add: dandiset_validation_diff_reports_def get_validation_reports_entries_def
        dict_keys_def dandiset_entry_diff_def get_report_def dict_get_def errs_or_empty_def
        any_errs_def example_dandiset_def)

text \<open>
  Claim C4.  For an entity key that only one of the two collections has, the error lists
  of the absent side are empty in the diff report, and the diffs are those of the external
  differ between the empty list and the lists of the side that is present.  Every diff
  report is the one built from what the two sides hold for its key.  The example of the
  claim: side 1 has \<^verbatim>\<open>("ds1", "draft")\<close> without errors, side 2 has it with one error, and the
  single diff report has an empty list for side 1, the one error for side 2, and the diff
  of the empty list against the one-element list.
\<close>

theorem absent_side_defaults_to_empty:
  "(d \<in> set (dandiset_validation_diff_reports ext entries_of reports1 reports2) \<longrightarrow>
      d = dandiset_diff_of ext (get_report reports1 (dandiset_diff_key d))
            (get_report reports2 (dandiset_diff_key d))
            (dandiset_identifier d) (dandiset_version d)
      \<and> (get_report reports1 (dandiset_diff_key d) = None \<longrightarrow>
            pydantic_validation_errs1 d = [] \<and> jsonschema_validation_errs1 d = []
            \<and> pydantic_validation_errs_diff d = diff_pydantic ext [] (pydantic_validation_errs2 d)
            \<and> jsonschema_validation_errs_diff d =
                diff_dumped ext [] (map (model_dump ext) (jsonschema_validation_errs2 d)))
      \<and> (get_report reports2 (dandiset_diff_key d) = None \<longrightarrow>
            pydantic_validation_errs2 d = [] \<and> jsonschema_validation_errs2 d = []
            \<and> pydantic_validation_errs_diff d = diff_pydantic ext (pydantic_validation_errs1 d) []
            \<and> jsonschema_validation_errs_diff d =
                diff_dumped ext (map (model_dump ext) (jsonschema_validation_errs1 d)) []))
   \<and> (asset_validation_diff_reports ext (map AssetValidationReport as1)
         (map AssetValidationReport as2) = Inr out \<and> a \<in> set out \<longrightarrow>
      a = asset_diff_of ext (asset_at as1 (asset_diff_key a)) (asset_at as2 (asset_diff_key a))
            (dandiset_identifier a) (dandiset_version a) (diff_asset_idx a)
      \<and> (asset_diff_key a \<notin> asset_entry ` set as1 \<longrightarrow>
            pydantic_validation_errs1 a = [] \<and> jsonschema_validation_errs1 a = []
            \<and> pydantic_validation_errs_diff a = diff_pydantic ext [] (pydantic_validation_errs2 a)
            \<and> jsonschema_validation_errs_diff a =
                diff_dumped ext [] (map (model_dump ext) (jsonschema_validation_errs2 a)))
      \<and> (asset_diff_key a \<notin> asset_entry ` set as2 \<longrightarrow>
            pydantic_validation_errs2 a = [] \<and> jsonschema_validation_errs2 a = []
            \<and> pydantic_validation_errs_diff a = diff_pydantic ext (pydantic_validation_errs1 a) []
            \<and> jsonschema_validation_errs_diff a =
                diff_dumped ext (map (model_dump ext) (jsonschema_validation_errs1 a)) []))
   \<and> dandiset_validation_diff_reports ext get_validation_reports_entries
        [(''ds1'', [(''draft'', example_dandiset ''ds1'' ''draft'' [])])]
        [(''ds1'', [(''draft'', example_dandiset ''ds1'' ''draft'' [err])])]
      = [\<lparr> dandiset_identifier = ''ds1'', dandiset_version = ''draft'',
           pydantic_validation_errs1 = [], pydantic_validation_errs2 = [err],
           pydantic_validation_errs_diff = diff_pydantic ext [] [err],
           jsonschema_validation_errs1 = [], jsonschema_validation_errs2 = [],
           jsonschema_validation_errs_diff = diff_dumped ext [] [] \<rparr>]
   \<and> dandiset_validation_diff_reports ext get_validation_reports_entries
        []
        [(''ds1'', [(''draft'', example_dandiset ''ds1'' ''draft'' [err])])]
      = [\<lparr> dandiset_identifier = ''ds1'', dandiset_version = ''draft'',
           pydantic_validation_errs1 = [], pydantic_validation_errs2 = [err],
           pydantic_validation_errs_diff = diff_pydantic ext [] [err],
           jsonschema_validation_errs1 = [], jsonschema_validation_errs2 = [],
           jsonschema_validation_errs_diff = diff_dumped ext [] [] \<rparr>]"
proof (intro conjI impI)
  assume d: "d \<in> set (dandiset_validation_diff_reports ext entries_of reports1 reports2)"
  let ?k = "dandiset_diff_key d"
  from in_dandiset_diffs [OF d] have
    "dandiset_entry_diff ext reports1 reports2 ?k = Some d" .
  then have eq: "d = dandiset_diff_of ext (get_report reports1 ?k) (get_report reports2 ?k)
      (fst ?k) (snd ?k)"
    by (simp add: dandiset_entry_diff_eq split: if_splits)
  have k: "fst ?k = dandiset_identifier d" "snd ?k = dandiset_version d"
    by (simp_all add: dandiset_diff_key_def)
  from eq [unfolded k]
  show dd: "d = dandiset_diff_of ext (get_report reports1 ?k) (get_report reports2 ?k)
      (dandiset_identifier d) (dandiset_version d)" .
  {
    assume n: "get_report reports1 ?k = None"
    from dandiset_diff_of_absent1 [OF dd [unfolded n]]
    show "pydantic_validation_errs1 d = []" and "jsonschema_validation_errs1 d = []"
      and "pydantic_validation_errs_diff d = diff_pydantic ext [] (pydantic_validation_errs2 d)"
      and "jsonschema_validation_errs_diff d =
         diff_dumped ext [] (map (model_dump ext) (jsonschema_validation_errs2 d))"
      by blast+
  }
  {
    assume n: "get_report reports2 ?k = None"
    from dandiset_diff_of_absent2 [OF dd [unfolded n]]
    show "pydantic_validation_errs2 d = []" and "jsonschema_validation_errs2 d = []"
      and "pydantic_validation_errs_diff d = diff_pydantic ext (pydantic_validation_errs1 d) []"
      and "jsonschema_validation_errs_diff d =
         diff_dumped ext (map (model_dump ext) (jsonschema_validation_errs1 d)) []"
      by blast+
  }
next
  assume h: "asset_validation_diff_reports ext (map AssetValidationReport as1)
         (map AssetValidationReport as2) = Inr out \<and> a \<in> set out"
  let ?k = "asset_diff_key a"
  from h asset_builder_typed [of ext as1 as2 out]
  show aa: "a = asset_diff_of ext (asset_at as1 ?k) (asset_at as2 ?k)
      (dandiset_identifier a) (dandiset_version a) (diff_asset_idx a)"
    by blast
  {
    assume "?k \<notin> asset_entry ` set as1"
    then have n: "asset_at as1 ?k = None" by (simp add: asset_at_None)
    from asset_diff_of_absent1 [OF aa [unfolded n]]
    show "pydantic_validation_errs1 a = []" and "jsonschema_validation_errs1 a = []"
      and "pydantic_validation_errs_diff a = diff_pydantic ext [] (pydantic_validation_errs2 a)"
      and "jsonschema_validation_errs_diff a =
         diff_dumped ext [] (map (model_dump ext) (jsonschema_validation_errs2 a))"
      by blast+
  }
  {
    assume "?k \<notin> asset_entry ` set as2"
    then have n: "asset_at as2 ?k = None" by (simp add: asset_at_None)
    from asset_diff_of_absent2 [OF aa [unfolded n]]
    show "pydantic_validation_errs2 a = []" and "jsonschema_validation_errs2 a = []"
      and "pydantic_validation_errs_diff a = diff_pydantic ext (pydantic_validation_errs1 a) []"
      and "jsonschema_validation_errs_diff a =
         diff_dumped ext (map (model_dump ext) (jsonschema_validation_errs1 a)) []"
      by blast+
  }
next
  show "dandiset_validation_diff_reports ext get_validation_reports_entries
        [(''ds1'', [(''draft'', example_dandiset ''ds1'' ''draft'' [])])]
        [(''ds1'', [(''draft'', example_dandiset ''ds1'' ''draft'' [err])])]
      = [\<lparr> dandiset_identifier = ''ds1'', dandiset_version = ''draft'',
           pydantic_validation_errs1 = [], pydantic_validation_errs2 = [err],
           pydantic_validation_errs_diff = diff_pydantic ext [] [err],
           jsonschema_validation_errs1 = [], jsonschema_validation_errs2 = [],
           jsonschema_validation_errs_diff = diff_dumped ext [] [] \<rparr>]"
    by (rule dandiset_example_diffs)
  show "dandiset_validation_diff_reports ext get_validation_reports_entries
        []
        [(''ds1'', [(''draft'', example_dandiset ''ds1'' ''draft'' [err])])]
      = [\<lparr> dandiset_identifier = ''ds1'', dandiset_version = ''draft'',
           pydantic_validation_errs1 = [], pydantic_validation_errs2 = [err],
           pydantic_validation_errs_diff = diff_pydantic ext [] [err],
           jsonschema_validation_errs1 = [], jsonschema_validation_errs2 = [],
           jsonschema_validation_errs_diff = diff_dumped ext [] [] \<rparr>]"
    by (rule dandiset_example_diffs_absent)
qed

theorem absent_side_defaults_to_empty_witness:
  "dandiset_validation_diff_reports example_ext get_validation_reports_entries []
       [(''ds1'', [(''draft'', example_dandiset ''ds1'' ''draft'' [example_err])])]
     = [\<lparr> dandiset_identifier = ''ds1'', dandiset_version = ''draft'',
          pydantic_validation_errs1 = [], pydantic_validation_errs2 = [example_err],
          pydantic_validation_errs_diff = JList [JInt 1],
          jsonschema_validation_errs1 = [], jsonschema_validation_errs2 = [],
          jsonschema_validation_errs_diff = JDict [] \<rparr>]
   \<and> pydantic_validation_errs1
        \<lparr> dandiset_identifier = ''ds1'', dandiset_version = ''draft'',
          pydantic_validation_errs1 = [], pydantic_validation_errs2 = [example_err],
          pydantic_validation_errs_diff = JList [JInt 1],
          jsonschema_validation_errs1 = [], jsonschema_validation_errs2 = [],
          jsonschema_validation_errs_diff = JDict [] \<rparr> = []
   \<and> asset_validation_diff_reports example_ext (map AssetValidationReport [])
        (map AssetValidationReport [example_asset ''draft'' 2 [example_err]])
     = Inr [\<lparr> dandiset_identifier = ''000003'', dandiset_version = ''draft'',
          pydantic_validation_errs1 = [], pydantic_validation_errs2 = [example_err],
          pydantic_validation_errs_diff = JList [JInt 1],
          jsonschema_validation_errs1 = [], jsonschema_validation_errs2 = [],
          jsonschema_validation_errs_diff = JDict [],
          diff_asset_id = None, diff_asset_path = Some ''sub-1/a.nwb'', diff_asset_idx = 2 \<rparr>]
   \<and> pydantic_validation_errs_diff
        \<lparr> dandiset_identifier = ''000003'', dandiset_version = ''draft'',
          pydantic_validation_errs1 = [], pydantic_validation_errs2 = [example_err],
          pydantic_validation_errs_diff = JList [JInt 1],
          jsonschema_validation_errs1 = [], jsonschema_validation_errs2 = [],
          jsonschema_validation_errs_diff = JDict [],
          diff_asset_id = None, diff_asset_path = Some ''sub-1/a.nwb'', diff_asset_idx = 2 \<rparr>
      = diff_pydantic example_ext [] [example_err]"
proof -
  let ?r2 = "[(''ds1'', [(''draft'', example_dandiset ''ds1'' ''draft'' [example_err])])]"
  let ?d = "\<lparr> dandiset_identifier = ''ds1'', dandiset_version = ''draft'',
          pydantic_validation_errs1 = [], pydantic_validation_errs2 = [example_err],
          pydantic_validation_errs_diff = JList [JInt 1],
          jsonschema_validation_errs1 = [], jsonschema_validation_errs2 = [],
          jsonschema_validation_errs_diff = JDict [] \<rparr>"
  let ?as2 = "[example_asset ''draft'' 2 [example_err]]"
  let ?a = "\<lparr> dandiset_identifier = ''000003'', dandiset_version = ''draft'',
          pydantic_validation_errs1 = [], pydantic_validation_errs2 = [example_err],
          pydantic_validation_errs_diff = JList [JInt 1],
          jsonschema_validation_errs1 = [], jsonschema_validation_errs2 = [],
          jsonschema_validation_errs_diff = JDict [],
          diff_asset_id = None, diff_asset_path = Some ''sub-1/a.nwb'', diff_asset_idx = 2 \<rparr>"
  have evd: "dandiset_validation_diff_reports example_ext get_validation_reports_entries [] ?r2 = [?d]"
    by (simp add: dandiset_example_diffs_absent example_ext_def)
  have eva: "asset_validation_diff_reports example_ext (map AssetValidationReport [])
        (map AssetValidationReport ?as2) = Inr [?a]"
    by code_simp
  have ind: "?d \<in> set (dandiset_validation_diff_reports example_ext
      get_validation_reports_entries [] ?r2)"
    by (simp only: evd list.set_intros)
  have nd: "get_report [] (dandiset_diff_key ?d) = None"
    by (simp add: get_report_def dict_get_def)
  have ina: "asset_validation_diff_reports example_ext (map AssetValidationReport [])
        (map AssetValidationReport ?as2) = Inr [?a] \<and> ?a \<in> set [?a]"
    using eva by simp
  have na: "asset_diff_key ?a \<notin> asset_entry ` set []"
    by simp
  note T = absent_side_defaults_to_empty [of ?d example_ext get_validation_reports_entries
      "[]" ?r2 "[]" ?as2 "[?a]" ?a example_err]
  from T ind nd have p1: "pydantic_validation_errs1 ?d = []"
    by (elim conjE) blast
  from T ina na have pa: "pydantic_validation_errs_diff ?a =
      diff_pydantic example_ext [] (pydantic_validation_errs2 ?a)"
    by (elim conjE) blast
  then have "pydantic_validation_errs_diff ?a = diff_pydantic example_ext [] [example_err]"
    by simp
  with evd p1 eva show ?thesis by blast
qed

section \<open>Writing supporting files\<close>

lemma in_order_skip:
  "in_order (map (\<lambda>x. if P x then g x else in_order []) xs) w =
   in_order (map g (filter P xs)) w"
  by (induction xs arbitrary: w) (auto split: prod.splits option.splits)


lemma in_order_Cons_result:
  "in_order (c # cs) w = (None, w') \<longleftrightarrow> (\<exists>w1. c w = (None, w1) \<and> in_order cs w1 = (None, w'))"
  by (cases "c w") (auto split: option.splits)

lemma on_files_result:
  "on_files f w = (None, w') \<longleftrightarrow> (\<exists>fs'. f (files w) = Inr fs' \<and> w' = w\<lparr>files := fs'\<rparr>)"
  by (auto simp: on_files_def split: sum.splits)

lemma write_file_result:
  "write_file p c fs = Inr fs' \<Longrightarrow> fs' = fs(p \<mapsto> File c)"
  by (auto simp: write_file_def split: option.splits node.splits)

text \<open>The file names of a datum with a base name that has no separator.\<close>

lemma truediv_file_name:
  "CHR ''/'' \<notin> set base \<Longrightarrow> truediv dir (base @ ext) = dir @ parse_path (base @ ext) \<or> base = []"
  by (cases base) (auto simp: truediv_def startswith_sep_def)

lemma json_not_yaml: "b @ ''.json'' \<noteq> b' @ ''.yaml''"
proof
  assume "b @ ''.json'' = b' @ ''.yaml''"
  then have "last (b @ ''.json'') = last (b' @ ''.yaml'')" by simp
  then show False by simp
qed

lemma truediv_clean: "clean_segment s \<Longrightarrow> truediv dir s = dir @ [s]"
  by (simp add: truediv_def startswith_sep_clean parse_path_clean)

lemma clean_json: "b \<noteq> [] \<Longrightarrow> CHR ''/'' \<notin> set b \<Longrightarrow> clean_segment (b @ ''.json'')"
  by (auto simp: clean_segment_def append_eq_Cons_conv)

lemma clean_yaml: "b \<noteq> [] \<Longrightarrow> CHR ''/'' \<notin> set b \<Longrightarrow> clean_segment (b @ ''.yaml'')"
  by (auto simp: clean_segment_def append_eq_Cons_conv)

text \<open>What \<^verbatim>\<open>write_data\<close> leaves behind when it returns.\<close>

lemma write_data_result:
  assumes "write_data d dir b w = (None, w')" and "b \<noteq> []" and "CHR ''/'' \<notin> set b"
  shows "w' = w\<lparr>files := (files w)(dir @ [b @ ''.json''] \<mapsto> File (JsonOf d),
                                   dir @ [b @ ''.yaml''] \<mapsto> File (YamlOf d))\<rparr>"
proof -
  have j: "truediv dir (b @ ''.json'') = dir @ [b @ ''.json'']"
    using assms by (simp add: truediv_clean clean_json)
  have y: "truediv dir (b @ ''.yaml'') = dir @ [b @ ''.yaml'']"
    using assms by (simp add: truediv_clean clean_yaml)
  from assms(1) show ?thesis
    unfolding write_data_def j y
    by (auto simp: on_files_def split: sum.splits prod.splits option.splits
        dest!: write_file_result)
qed


lemma os_mkdir_result: "os_mkdir fs p = Inr fs' \<Longrightarrow> fs' = fs(p \<mapsto> Dir)"
  by (auto simp: os_mkdir_def split: if_splits option.splits node.splits)

lemma mkdir_frame: "mkdir e fs p = Inr fs' \<Longrightarrow> q \<noteq> p \<Longrightarrow> fs' q = fs q"
  by (auto simp: mkdir_def split: sum.splits if_splits dest!: os_mkdir_result)

lemma length_parent: "length (parent p) \<le> length p"
  by (simp add: parent_def)

text \<open>Creating a directory with its parents leaves every longer path alone.\<close>

lemma mkdir_parents_frame:
  "mkdir_parents e fs p = Inr fs' \<Longrightarrow> length p < length q \<Longrightarrow> fs' q = fs q"
proof (induction e fs p arbitrary: fs' rule: mkdir_parents.induct)
  case (1 exist_ok fs p)
  show ?case
  proof (cases "os_mkdir fs p")
    case (Inr fs1)
    with "1.prems" have "fs' = fs(p \<mapsto> Dir)"
      by (subst (asm) mkdir_parents.simps) (auto dest: os_mkdir_result)
    with "1.prems" show ?thesis by auto
  next
    case (Inl x)
    show ?thesis
    proof (cases "x = FileNotFoundError")
      case True
      with Inl "1.prems" have np: "parent p \<noteq> p"
        by (subst (asm) mkdir_parents.simps) (auto split: if_splits)
      from True Inl "1.prems" np obtain fs1 where
        a: "mkdir_parents True fs (parent p) = Inr fs1" and b: "mkdir exist_ok fs1 p = Inr fs'"
        by (subst (asm) mkdir_parents.simps) (auto split: sum.splits)
      have "length (parent p) < length q"
        using "1.prems"(2) length_parent [of p] by simp
      from "1.IH" [OF Inl True np a this] have "fs1 q = fs q" .
      moreover have "fs' q = fs1 q"
        using b "1.prems"(2) by (intro mkdir_frame [of exist_ok fs1 p]) auto
      ultimately show ?thesis by simp
    next
      case False
      with Inl "1.prems" have "fs' = fs"
        by (subst (asm) mkdir_parents.simps) (auto split: if_splits)
      then show ?thesis by simp
    qed
  qed
qed

text \<open>A run of \<^verbatim>\<open>write_data\<close> calls with distinct base names, when it returns: every datum
  is in its two files, and nothing else changed.\<close>

lemma writes_result:
  assumes "in_order (map (\<lambda>(d, b). write_data d dir b) items) w = (None, w')"
    and "\<forall>(d, b) \<in> set items. b \<noteq> [] \<and> CHR ''/'' \<notin> set b"
    and "distinct (map snd items)"
  shows "(\<forall>(d, b) \<in> set items.
            files w' (dir @ [b @ ''.json'']) = Some (File (JsonOf d))
            \<and> files w' (dir @ [b @ ''.yaml'']) = Some (File (YamlOf d)))
      \<and> (\<forall>q. (\<forall>(d, b) \<in> set items. q \<noteq> dir @ [b @ ''.json''] \<and> q \<noteq> dir @ [b @ ''.yaml''])
            \<longrightarrow> files w' q = files w q)"
  using assms
proof (induction items arbitrary: w)
  case Nil
  then show ?case by simp
next
  case (Cons it items)
  obtain d b where it: "it = (d, b)" by (cases it) auto
  from Cons.prems(1) it obtain w1 where
    w1: "write_data d dir b w = (None, w1)"
    and rest: "in_order (map (\<lambda>(d, b). write_data d dir b) items) w1 = (None, w')"
    by (auto split: prod.splits option.splits)
  from Cons.prems(2) it have b: "b \<noteq> []" "CHR ''/'' \<notin> set b" by auto
  from write_data_result [OF w1 b] have f1: "files w1 =
      (files w)(dir @ [b @ ''.json''] \<mapsto> File (JsonOf d),
                dir @ [b @ ''.yaml''] \<mapsto> File (YamlOf d))"
    by simp
  from Cons.prems(2,3) have p2: "\<forall>(d, b) \<in> set items. b \<noteq> [] \<and> CHR ''/'' \<notin> set b"
    and p3: "distinct (map snd items)"
    by auto
  from Cons.IH [OF rest p2 p3] have
    ih1: "\<forall>(d, b) \<in> set items.
            files w' (dir @ [b @ ''.json'']) = Some (File (JsonOf d))
            \<and> files w' (dir @ [b @ ''.yaml'']) = Some (File (YamlOf d))"
    and ih2: "\<forall>q. (\<forall>(d, b) \<in> set items. q \<noteq> dir @ [b @ ''.json''] \<and> q \<noteq> dir @ [b @ ''.yaml''])
            \<longrightarrow> files w' q = files w1 q"
    by blast+
  from Cons.prems(3) it have nb: "\<forall>(d', b') \<in> set items. b' \<noteq> b"
    by (force simp: image_iff)
  have hj: "files w' (dir @ [b @ ''.json'']) = files w1 (dir @ [b @ ''.json''])"
    using nb by (intro ih2 [rule_format]) (auto simp: json_not_yaml)
  have hy: "files w' (dir @ [b @ ''.yaml'']) = files w1 (dir @ [b @ ''.yaml''])"
    using nb json_not_yaml by (intro ih2 [rule_format]) (auto; metis)
  have head: "files w' (dir @ [b @ ''.json'']) = Some (File (JsonOf d))
      \<and> files w' (dir @ [b @ ''.yaml'']) = Some (File (YamlOf d))"
    using hj hy f1 json_not_yaml [of b b] by simp
  have frame: "files w' q = files w q"
    if "\<forall>(d, b) \<in> set (it # items). q \<noteq> dir @ [b @ ''.json''] \<and> q \<noteq> dir @ [b @ ''.yaml'']"
    for q
  proof -
    from that it have "files w' q = files w1 q"
      by (intro ih2 [rule_format]) auto
    moreover from that it have "files w1 q = files w q"
      by (simp add: f1)
    ultimately show ?thesis by simp
  qed
  from head ih1 frame it show ?case by auto
qed


lemma supporting_names:
  "distinct (map snd (supporting_data ext r))
   \<and> (\<forall>(d, b) \<in> set (supporting_data ext r). b \<noteq> [] \<and> CHR ''/'' \<notin> set b)"
  by (simp add: supporting_data_def PYDANTIC_ERRS1_BASE_FNAME_def PYDANTIC_ERRS2_BASE_FNAME_def
      PYDANTIC_ERRS_DIFF_BASE_FNAME_def JSONSCHEMA_ERRS1_BASE_FNAME_def
      JSONSCHEMA_ERRS2_BASE_FNAME_def JSONSCHEMA_ERRS_DIFF_BASE_FNAME_def)

lemma distinct_snd_unique:
  "distinct (map snd xs) \<Longrightarrow> (a, b) \<in> set xs \<Longrightarrow> (a', b) \<in> set xs \<Longrightarrow> a = a'"
  by (induction xs) (auto simp: image_iff)

lemma in_order_skip_pairs:
  "in_order (map (\<lambda>(d, b). if P d then g d b else in_order []) xs) w =
   in_order (map (\<lambda>(d, b). g d b) (filter (\<lambda>(d, b). P d) xs)) w"
  by (induction xs arbitrary: w) (auto split: prod.splits option.splits)

lemma output_supporting_files_calls:
  "output_supporting_files wd ext r report_dir w =
     in_order (on_files (\<lambda>fs. mkdir_parents False fs report_dir) #
               map (\<lambda>(d, base). wd d report_dir base)
                 (filter (\<lambda>(d, base). data_truthy d) (supporting_data ext r))) w"
  by (simp add: output_supporting_files_def for_each_def in_order_skip_pairs
      split: prod.splits option.splits)

text \<open>
  Claim C8.  The writer of supporting files hands a datum to \<^verbatim>\<open>write_data\<close> exactly when the
  datum is true, in the order of the six data: the two lists and the diff of each validator.
  A list is true when it is not empty, a diff when it is not an empty dictionary or list.
  With \<^verbatim>\<open>write_data\<close> writing the \<^verbatim>\<open>.json\<close> and the \<^verbatim>\<open>.yaml\<close> file of a base name, a run that
  returns leaves both files of every non-empty datum in the report directory and leaves the
  paths of the files of an empty datum as they were.
\<close>

theorem supporting_files_only_for_nonempty_data:
  "output_supporting_files wd ext r report_dir w =
     in_order (on_files (\<lambda>fs. mkdir_parents False fs report_dir) #
               map (\<lambda>(d, base). wd d report_dir base)
                 (filter (\<lambda>(d, base). data_truthy d) (supporting_data ext r))) w
   \<and> map (\<lambda>(d, base). data_truthy d) (supporting_data ext r) =
       [pydantic_validation_errs1 r \<noteq> [], pydantic_validation_errs2 r \<noteq> [],
        truthy (pydantic_validation_errs_diff r),
        jsonschema_validation_errs1 r \<noteq> [], jsonschema_validation_errs2 r \<noteq> [],
        truthy (jsonschema_validation_errs_diff r)]
   \<and> (output_supporting_files write_data ext r report_dir w = (None, w') \<longrightarrow>
        (\<forall>(d, base) \<in> set (supporting_data ext r).
           (data_truthy d \<longrightarrow>
              files w' (truediv report_dir (base @ ''.json'')) = Some (File (JsonOf d))
              \<and> files w' (truediv report_dir (base @ ''.yaml'')) = Some (File (YamlOf d)))
           \<and> (\<not> data_truthy d \<longrightarrow>
              files w' (truediv report_dir (base @ ''.json'')) =
                files w (truediv report_dir (base @ ''.json''))
              \<and> files w' (truediv report_dir (base @ ''.yaml'')) =
                files w (truediv report_dir (base @ ''.yaml'')))))"
proof (intro conjI impI)
  show "output_supporting_files wd ext r report_dir w =
     in_order (on_files (\<lambda>fs. mkdir_parents False fs report_dir) #
               map (\<lambda>(d, base). wd d report_dir base)
                 (filter (\<lambda>(d, base). data_truthy d) (supporting_data ext r))) w"
    by (rule output_supporting_files_calls)
  show "map (\<lambda>(d, base). data_truthy d) (supporting_data ext r) =
       [pydantic_validation_errs1 r \<noteq> [], pydantic_validation_errs2 r \<noteq> [],
        truthy (pydantic_validation_errs_diff r),
        jsonschema_validation_errs1 r \<noteq> [], jsonschema_validation_errs2 r \<noteq> [],
        truthy (jsonschema_validation_errs_diff r)]"
    by (simp add: supporting_data_def)
next
  let ?items = "supporting_data ext r"
  let ?tr = "filter (\<lambda>(d, base). data_truthy d) ?items"
  assume "output_supporting_files write_data ext r report_dir w = (None, w')"
  then have "in_order (on_files (\<lambda>fs. mkdir_parents False fs report_dir) #
      map (\<lambda>(d, base). write_data d report_dir base) ?tr) w = (None, w')"
    by (simp only: output_supporting_files_calls)
  then obtain w1 where
    mk: "on_files (\<lambda>fs. mkdir_parents False fs report_dir) w = (None, w1)"
    and wr: "in_order (map (\<lambda>(d, base). write_data d report_dir base) ?tr) w1 = (None, w')"
    by (auto simp only: in_order_Cons_result)
  from mk obtain fs1 where
    fs1: "mkdir_parents False (files w) report_dir = Inr fs1" and w1: "files w1 = fs1"
    by (auto simp: on_files_result)
  from supporting_names [of ext r] have dist: "distinct (map snd ?items)"
    and names: "\<forall>(d, b) \<in> set ?items. b \<noteq> [] \<and> CHR ''/'' \<notin> set b"
    by blast+
  have dist_tr: "distinct (map snd ?tr)"
    using dist by (rule distinct_map_filter)
  have names_tr: "\<forall>(d, b) \<in> set ?tr. b \<noteq> [] \<and> CHR ''/'' \<notin> set b"
    using names by auto
  from writes_result [OF wr names_tr dist_tr] have
    present: "\<forall>(d, b) \<in> set ?tr.
            files w' (report_dir @ [b @ ''.json'']) = Some (File (JsonOf d))
            \<and> files w' (report_dir @ [b @ ''.yaml'']) = Some (File (YamlOf d))"
    and frame: "\<forall>q. (\<forall>(d, b) \<in> set ?tr.
              q \<noteq> report_dir @ [b @ ''.json''] \<and> q \<noteq> report_dir @ [b @ ''.yaml''])
            \<longrightarrow> files w' q = files w1 q"
    by blast+
  show "\<forall>(d, base) \<in> set ?items.
           (data_truthy d \<longrightarrow>
              files w' (truediv report_dir (base @ ''.json'')) = Some (File (JsonOf d))
              \<and> files w' (truediv report_dir (base @ ''.yaml'')) = Some (File (YamlOf d)))
           \<and> (\<not> data_truthy d \<longrightarrow>
              files w' (truediv report_dir (base @ ''.json'')) =
                files w (truediv report_dir (base @ ''.json''))
              \<and> files w' (truediv report_dir (base @ ''.yaml'')) =
                files w (truediv report_dir (base @ ''.yaml'')))"
  proof (intro ballI, clarify, intro conjI impI)
    fix d b assume it: "(d, b) \<in> set ?items"
    with names have b: "b \<noteq> []" "CHR ''/'' \<notin> set b" by auto
    have j: "truediv report_dir (b @ ''.json'') = report_dir @ [b @ ''.json'']"
      using b by (simp add: truediv_clean clean_json)
    have y: "truediv report_dir (b @ ''.yaml'') = report_dir @ [b @ ''.yaml'']"
      using b by (simp add: truediv_clean clean_yaml)
    {
      assume "data_truthy d"
      with it have "(d, b) \<in> set ?tr" by simp
      with present show "files w' (truediv report_dir (b @ ''.json'')) = Some (File (JsonOf d))"
        and "files w' (truediv report_dir (b @ ''.yaml'')) = Some (File (YamlOf d))"
        unfolding j y by blast+
    }
    {
      assume nt: "\<not> data_truthy d"
      have other: "b' \<noteq> b" if "(d', b') \<in> set ?tr" for d' b'
      proof
        assume "b' = b"
        with that have "(d', b) \<in> set ?items" and "data_truthy d'" by auto
        with it dist have "d' = d" by (metis distinct_snd_unique)
        with nt \<open>data_truthy d'\<close> show False by simp
      qed
      have "files w' (report_dir @ [b @ ''.json'']) = files w1 (report_dir @ [b @ ''.json''])"
        using other by (intro frame [rule_format]) (auto simp: json_not_yaml)
      moreover have "files w1 (report_dir @ [b @ ''.json'']) = files w (report_dir @ [b @ ''.json''])"
        unfolding w1 using fs1 by (rule mkdir_parents_frame) simp
      ultimately show "files w' (truediv report_dir (b @ ''.json'')) =
                files w (truediv report_dir (b @ ''.json''))"
        unfolding j by simp
      have "files w' (report_dir @ [b @ ''.yaml'']) = files w1 (report_dir @ [b @ ''.yaml''])"
        using other json_not_yaml by (intro frame [rule_format]) (auto; metis)
      moreover have "files w1 (report_dir @ [b @ ''.yaml'']) = files w (report_dir @ [b @ ''.yaml''])"
        unfolding w1 using fs1 by (rule mkdir_parents_frame) simp
      ultimately show "files w' (truediv report_dir (b @ ''.yaml'')) =
                files w (truediv report_dir (b @ ''.yaml''))"
        unfolding y by simp
    }
  qed
qed

theorem supporting_files_only_for_nonempty_data_witness:
  "fst (output_supporting_files write_data example_ext example_diff_report
          [''out'', ''000003'', ''draft''] example_world) = None
   \<and> files (snd (output_supporting_files write_data example_ext example_diff_report
          [''out'', ''000003'', ''draft''] example_world))
        [''out'', ''000003'', ''draft'', ''pydantic_validation_errs1.json'']
      = Some (File (JsonOf (PydanticErrs [example_err])))
   \<and> files (snd (output_supporting_files write_data example_ext example_diff_report
          [''out'', ''000003'', ''draft''] example_world))
        [''out'', ''000003'', ''draft'', ''pydantic_validation_errs2.json'']
      = None
   \<and> files (snd (output_supporting_files write_data example_ext example_diff_report
          [''out'', ''000003'', ''draft''] example_world))
        [''out'', ''000003'', ''draft'', ''pydantic_validation_errs_diff.yaml'']
      = None"
proof -
  let ?dir = "[''out'', ''000003'', ''draft'']"
  let ?run = "output_supporting_files write_data example_ext example_diff_report ?dir example_world"
  have ok: "fst ?run = None"
    by code_simp
  then have h: "?run = (None, snd ?run)"
    by (metis prod.collapse)
  note T = supporting_files_only_for_nonempty_data [of write_data example_ext example_diff_report
      ?dir example_world "snd ?run"]
  from T h have all: "\<forall>(d, base) \<in> set (supporting_data example_ext example_diff_report).
           (data_truthy d \<longrightarrow>
              files (snd ?run) (truediv ?dir (base @ ''.json'')) = Some (File (JsonOf d))
              \<and> files (snd ?run) (truediv ?dir (base @ ''.yaml'')) = Some (File (YamlOf d)))
           \<and> (\<not> data_truthy d \<longrightarrow>
              files (snd ?run) (truediv ?dir (base @ ''.json'')) =
                files example_world (truediv ?dir (base @ ''.json''))
              \<and> files (snd ?run) (truediv ?dir (base @ ''.yaml'')) =
                files example_world (truediv ?dir (base @ ''.yaml'')))"
    by (elim conjE) blast
  have i1: "(PydanticErrs [example_err], ''pydantic_validation_errs1'')
      \<in> set (supporting_data example_ext example_diff_report)"
    by (simp add: supporting_data_def example_diff_report_def PYDANTIC_ERRS1_BASE_FNAME_def)
  have i2: "(PydanticErrs [], ''pydantic_validation_errs2'')
      \<in> set (supporting_data example_ext example_diff_report)"
    by (simp add: supporting_data_def example_diff_report_def PYDANTIC_ERRS2_BASE_FNAME_def)
  have i3: "(DiffValue (JList []), ''pydantic_validation_errs_diff'')
      \<in> set (supporting_data example_ext example_diff_report)"
    by (simp add: supporting_data_def example_diff_report_def PYDANTIC_ERRS_DIFF_BASE_FNAME_def)
  have td: "truediv ?dir ''pydantic_validation_errs1.json'' = ?dir @ [''pydantic_validation_errs1.json'']"
    "truediv ?dir ''pydantic_validation_errs2.json'' = ?dir @ [''pydantic_validation_errs2.json'']"
    "truediv ?dir ''pydantic_validation_errs_diff.yaml'' = ?dir @ [''pydantic_validation_errs_diff.yaml'']"
    by code_simp+
  from all i1 have "files (snd ?run) (truediv ?dir (''pydantic_validation_errs1'' @ ''.json''))
      = Some (File (JsonOf (PydanticErrs [example_err])))"
    by fastforce
  then have r1: "files (snd ?run) [''out'', ''000003'', ''draft'', ''pydantic_validation_errs1.json'']
      = Some (File (JsonOf (PydanticErrs [example_err])))"
    using td by simp
  from all i2 have "files (snd ?run) (truediv ?dir (''pydantic_validation_errs2'' @ ''.json''))
      = files example_world (truediv ?dir (''pydantic_validation_errs2'' @ ''.json''))"
    by fastforce
  then have r2: "files (snd ?run) [''out'', ''000003'', ''draft'', ''pydantic_validation_errs2.json'']
      = None"
    using td by (simp add: example_world_def)
  from all i3 have "files (snd ?run) (truediv ?dir (''pydantic_validation_errs_diff'' @ ''.yaml''))
      = files example_world (truediv ?dir (''pydantic_validation_errs_diff'' @ ''.yaml''))"
    by fastforce
  then have r3: "files (snd ?run) [''out'', ''000003'', ''draft'', ''pydantic_validation_errs_diff.yaml'']
      = None"
    using td by (simp add: example_world_def)
  from ok r1 r2 r3 show ?thesis by blast
qed

section \<open>Recreating the output directory\<close>

lemma not_below_parent:
  assumes "parent p \<noteq> p"
  shows "\<not> below p (parent p)"
proof
  assume b: "below p (parent p)"
  from assms have ne: "p \<noteq> []" and pp: "parent p = butlast p"
    by (auto simp: parent_def split: if_splits)
  from b pp have "take (length p) (butlast p) = p"
    by (simp add: below_def)
  then have "length (take (length p) (butlast p)) = length p"
    by simp
  moreover have "length (take (length p) (butlast p)) \<le> length (butlast p)"
    by simp
  moreover from ne have "length (butlast p) < length p"
    by (cases p) auto
  ultimately show False
    by linarith
qed

lemma below_refl:
  "below p p"
  by (simp add: below_def)

lemma in_order_single:
  "in_order [c] w = c w"
  by (simp split: prod.splits option.splits)

lemma in_order_logger_info:
  "in_order (logger_info l # cs) w = in_order cs (w\<lparr>logged := logged w @ [l]\<rparr>)"
  by (simp add: logger_info_def)

lemma in_order_rmtree_dir:
  "files w p = Some Dir \<Longrightarrow>
   in_order (on_files (\<lambda>fs. rmtree fs p) # cs) w =
     in_order cs (w\<lparr>files := \<lambda>q. if below p q then None else files w q\<rparr>)"
  by (simp add: on_files_def rmtree_def)

lemma in_order_rmtree_file:
  "files w p = Some (File c) \<Longrightarrow>
   in_order (on_files (\<lambda>fs. rmtree fs p) # cs) w = (Some NotADirectoryError, w)"
  by (simp add: on_files_def rmtree_def)

lemma in_order_mkdir_fresh:
  "files w p = None \<Longrightarrow> files w (parent p) = Some Dir \<Longrightarrow>
   in_order (on_files (\<lambda>fs. mkdir exist_ok fs p) # cs) w =
     in_order cs (w\<lparr>files := (files w)(p \<mapsto> Dir)\<rparr>)"
  by (simp add: on_files_def mkdir_def os_mkdir_def)

text \<open>
  Claim C7.  \<^verbatim>\<open>output_reports\<close> recreates the output directory.  If the output path is a
  directory (inside a directory, so it is not a root or the working directory itself), the
  run is the run of the content-writing statements in the state where everything at and
  below the path has been removed and the path is a new, empty directory, the three lines
  about finding, deleting and recreating the directory having been logged: the removal
  and the creation come before any report content is written.  If the output path is a
  regular file, the run ends with \<^verbatim>\<open>NotADirectoryError\<close>, raised by \<^verbatim>\<open>shutil.rmtree\<close>; the
  files are as before and only the line about finding the path has been logged.
\<close>

theorem output_reports_recreates_directory:
  "(is_dir (files w) output_path \<and> parent output_path \<noteq> output_path
      \<and> is_dir (files w) (parent output_path) \<longrightarrow>
      output_reports rnd reports output_path w =
        output_reports_content rnd reports output_path
          (w\<lparr>files := (\<lambda>q. if below output_path q then None else files w q)(output_path \<mapsto> Dir),
             logged := logged w @
               [''Found existing report output directory: '' @ path_str output_path,
                ''Deleted existing report output directory: '' @ path_str output_path,
                ''Recreated report output directory: '' @ path_str output_path]\<rparr>))
   \<and> (is_file (files w) output_path \<longrightarrow>
      output_reports rnd reports output_path w =
        (Some NotADirectoryError,
         w\<lparr>logged := logged w @
              [''Found existing report output directory: '' @ path_str output_path]\<rparr>))"
proof (intro conjI impI)
  assume a: "is_dir (files w) output_path \<and> parent output_path \<noteq> output_path
      \<and> is_dir (files w) (parent output_path)"
  then have nb: "\<not> below output_path (parent output_path)"
    by (simp add: not_below_parent)
  from a nb show "output_reports rnd reports output_path w =
        output_reports_content rnd reports output_path
          (w\<lparr>files := (\<lambda>q. if below output_path q then None else files w q)(output_path \<mapsto> Dir),
             logged := logged w @
               [''Found existing report output directory: '' @ path_str output_path,
                ''Deleted existing report output directory: '' @ path_str output_path,
                ''Recreated report output directory: '' @ path_str output_path]\<rparr>)"
    by (simp add: output_reports_def exists_def is_dir_def in_order_logger_info
        in_order_rmtree_dir in_order_mkdir_fresh in_order_single below_refl
        del: in_order.simps cong: if_cong)
next
  assume "is_file (files w) output_path"
  then show "output_reports rnd reports output_path w =
        (Some NotADirectoryError,
         w\<lparr>logged := logged w @
              [''Found existing report output directory: '' @ path_str output_path]\<rparr>)"
    by (auto simp: output_reports_def exists_def is_file_def in_order_logger_info
        in_order_rmtree_file simp del: in_order.simps split: option.splits node.splits)
qed

theorem output_reports_recreates_directory_witness:
  "output_reports example_rendering [] [''out''] example_world_old_reports =
     output_reports_content example_rendering [] [''out'']
       \<lparr> files = (\<lambda>q. if below [''out''] q then None
                       else files example_world_old_reports q)([''out''] \<mapsto> Dir),
         logged = [''Found existing report output directory: out'',
                   ''Deleted existing report output directory: out'',
                   ''Recreated report output directory: out''] \<rparr>
   \<and> output_reports example_rendering [] [''out''] example_world_out_is_file =
       (Some NotADirectoryError,
        \<lparr> files = files example_world_out_is_file,
          logged = [''Found existing report output directory: out''] \<rparr>)
   \<and> files (snd (output_reports example_rendering [] [''out''] example_world_old_reports))
       [''out'', ''old.md''] = None
   \<and> files (snd (output_reports example_rendering [] [''out''] example_world_old_reports))
       [''out'', ''dandi-linkml-schema.yml''] = Some (File (Bytes ''id: dandi''))"
proof -
  have ps: "path_str [''out''] = ''out''"
    by code_simp
  have d: "is_dir (files example_world_old_reports) [''out'']
      \<and> parent [''out''] \<noteq> [''out'']
      \<and> is_dir (files example_world_old_reports) (parent [''out''])"
    by (simp add: is_dir_def parent_def example_world_old_reports_def)
  have f: "is_file (files example_world_out_is_file) [''out'']"
    by (simp add: is_file_def example_world_out_is_file_def)
  note T1 = output_reports_recreates_directory
    [of example_world_old_reports "[''out'']" example_rendering "[]"]
  note T2 = output_reports_recreates_directory
    [of example_world_out_is_file "[''out'']" example_rendering "[]"]
  from T1 d have r1: "output_reports example_rendering [] [''out''] example_world_old_reports =
     output_reports_content example_rendering [] [''out'']
       \<lparr> files = (\<lambda>q. if below [''out''] q then None
                       else files example_world_old_reports q)([''out''] \<mapsto> Dir),
         logged = [''Found existing report output directory: out'',
                   ''Deleted existing report output directory: out'',
                   ''Recreated report output directory: out''] \<rparr>"
    by (simp add: ps example_world_old_reports_def)
  from T2 f have r2: "output_reports example_rendering [] [''out''] example_world_out_is_file =
       (Some NotADirectoryError,
        \<lparr> files = files example_world_out_is_file,
          logged = [''Found existing report output directory: out''] \<rparr>)"
    by (simp add: ps example_world_out_is_file_def)
  have r3: "files (snd (output_reports_content example_rendering [] [''out'']
       \<lparr> files = (\<lambda>q. if below [''out''] q then None
                       else files example_world_old_reports q)([''out''] \<mapsto> Dir),
         logged = [''Found existing report output directory: out'',
                   ''Deleted existing report output directory: out'',
                   ''Recreated report output directory: out''] \<rparr>))
       [''out'', ''old.md''] = None"
    by code_simp
  have r4: "files (snd (output_reports_content example_rendering [] [''out'']
       \<lparr> files = (\<lambda>q. if below [''out''] q then None
                       else files example_world_old_reports q)([''out''] \<mapsto> Dir),
         logged = [''Found existing report output directory: out'',
                   ''Deleted existing report output directory: out'',
                   ''Recreated report output directory: out''] \<rparr>))
       [''out'', ''dandi-linkml-schema.yml''] = Some (File (Bytes ''id: dandi''))"
    by code_simp
  from r1 r2 r3 r4 show ?thesis
    by simp
qed

section \<open>Writing without failure\<close>































section \<open>The diff operation and its input files\<close>










end
